(* ===== verification/Prelude.thy ===== *)
theory Prelude
  imports Main "HOL-Library.Word" "HOL-Library.Char_ord"
begin

text \<open>
  What the component theories share: the machine integer types of the Go source, the error
  values (\<open>error\<close> of Go, with \<open>fmt.Errorf\<close> and its \<open>%w\<close> wrapping), the result type of a
  fallible call, the two named collections of simplification facts the component proofs use,
  and generic lemmas on results, lists and words.
\<close>

unbundle bit_operations_syntax

section \<open>Types\<close>

type_synonym u8 = "8 word"
type_synonym u16 = "16 word"
type_synonym u32 = "32 word"
type_synonym i16 = "16 word" \<comment> \<open>an \<open>int16\<close>, read with \<^const>\<open>sint\<close>\<close>
type_synonym i32 = "32 word" \<comment> \<open>an \<open>int32\<close>, read with \<^const>\<open>sint\<close>\<close>

text \<open>The value an \<open>int64\<close> computation leaves of a mathematical result: two's complement wrap-around.\<close>

definition wrap64 :: "int \<Rightarrow> int" where
  "wrap64 x = (x + 2 ^ 63) mod 2 ^ 64 - 2 ^ 63"

text \<open>
  Go errors. A sentinel is a constructor of its own, \<open>Errorf\<close> is an error made by
  \<open>fmt.Errorf\<close> or \<open>errors.New\<close> with no wrapped cause, and \<open>Wrap\<close> is
  \<open>fmt.Errorf("<context>: %w", err)\<close>. \<open>Panic\<close> is a run-time panic; it is kept apart from the
  errors a function returns, and the theorems show where it cannot occur.
\<close>

datatype go_error =
    ErrRegisterOutOfRange
  | ErrCrossesMidnight
  | ErrOverlapsToU
  | ErrCanceled
  | SidecarErr string string int \<comment> \<open>wire code, message and HTTP status\<close>
  | Errorf string
  | Panic string \<comment> \<open>a run-time panic, which no function of the model recovers silently\<close>
  | Wrap string go_error

type_synonym 'a result = "go_error + 'a"

text \<open>\<open>errors.Is\<close>: the error itself or an error it wraps.\<close>

fun errors_Is :: "go_error \<Rightarrow> go_error \<Rightarrow> bool" where
  "errors_Is (Wrap c e) t \<longleftrightarrow> Wrap c e = t \<or> errors_Is e t"
| "errors_Is e t \<longleftrightarrow> e = t"

definition is_ok :: "'a result \<Rightarrow> bool" where
  "is_ok r \<longleftrightarrow> (case r of Inl _ \<Rightarrow> False | Inr _ \<Rightarrow> True)"

section \<open>Collections\<close>

named_theorems reg_simps "register addresses and offsets as numerals"
named_theorems minute_simps "clock and minute-of-day conversions"

section \<open>Generic lemmas\<close>

lemma is_ok_simps [simp]: "is_ok (Inr x)" "\<not> is_ok (Inl e)"
  by (simp_all add: is_ok_def)

text \<open>An error path returns early: a result is reached exactly when every step reached one.\<close>

lemma bind_Inr_iff:
  "(case r of Inl e \<Rightarrow> Inl (f e) | Inr x \<Rightarrow> g x) = Inr y \<longleftrightarrow> (\<exists>x. r = Inr x \<and> g x = Inr y)"
  by (cases r) auto

lemma wrap64_id: "- (2 ^ 63) \<le> x \<Longrightarrow> x < 2 ^ 63 \<Longrightarrow> wrap64 x = x"
  by (simp add: wrap64_def)

lemma wrap64_bounds: "- (2 ^ 63) \<le> wrap64 x" "wrap64 x < 2 ^ 63"
  by (simp_all add: wrap64_def)

lemma is_okE: "is_ok r \<Longrightarrow> (\<And>x. r = Inr x \<Longrightarrow> P) \<Longrightarrow> P"
  by (cases r) auto

lemma errors_Is_wrap [simp]: "errors_Is (Wrap c e) e"
  by (cases e) auto

lemma unat_ucast_u8_u16 [simp]: "unat (ucast (b :: u8) :: u16) = unat b"
proof -
  have "unat b < 2 ^ 8" using unsigned_less [of b, where 'a = nat] by simp
  then show ?thesis by (simp add: unsigned_ucast_eq take_bit_nat_eq_self)
qed

lemma word_eq_unatI: "unat (a :: 'a::len word) = unat b \<Longrightarrow> a = b"
  by (simp add: word_unat_eq_iff)

lemma unat_ucast_u16_u8:
  assumes "unat (w :: u16) < 256"
  shows "unat (ucast w :: u8) = unat w"
  using assms by (simp add: unsigned_ucast_eq take_bit_nat_eq_self)

lemma ucast_u8_u16_inverse [simp]: "ucast (ucast (b :: u8) :: u16) = b"
  by (rule ucast_up_ucast_id) (simp add: is_up)

lemma ucast_u8_u16_eq_iff [simp]: "(ucast (a :: u8) :: u16) = ucast b \<longleftrightarrow> a = b"
  by (metis ucast_u8_u16_inverse)

lemma ucast_u16_u8_inverse:
  assumes "unat (w :: u16) < 256"
  shows "ucast (ucast w :: u8) = w"
  by (rule word_eq_unatI) (simp add: unat_ucast_u16_u8 [OF assms])

lemma take_Suc_append_nth: "i < length xs \<Longrightarrow> take (Suc i) xs = take i xs @ [xs ! i]"
  by (rule take_Suc_conv_app_nth)

end
