(* ===== verification/GoTime.thy ===== *)
theory GoTime
  imports Prelude
begin

text \<open>
  The parts of Go's \<open>time\<close> package the manager uses: instants with a location, \<open>time.Date\<close> with its
  normalisation and zone lookup, the field accessors, \<open>Sub\<close>, \<open>Equal\<close> and \<open>IsZero\<close>. A location is
  its zone lookup (the tz database is not part of the program): for a Unix second it gives the
  offset east of UTC in force and the half-open range of seconds the offset holds for.
\<close>

section \<open>The proleptic Gregorian calendar\<close>

text \<open>
  Days are counted from 1970-01-01 and years from 1 March, so that the leap day is the last day
  of a year: \<open>719468\<close> days separate 0000-03-01 from the epoch and \<open>146097\<close> days make 400 years.
\<close>

definition days_from_civil :: "int \<Rightarrow> int \<Rightarrow> int \<Rightarrow> int" where
  "days_from_civil y m d =
     (let y' = (if m \<le> 2 then y - 1 else y);
          mp = (m + 9) mod 12;
          yoe = y' mod 400
      in (y' div 400) * 146097 + (365 * yoe + yoe div 4 - yoe div 100)
         + (153 * mp + 2) div 5 + (d - 1) - 719468)"

definition year_of_era :: "int \<Rightarrow> int \<times> int" where
  \<comment> \<open>year of the era and day of that year, from the day of the era\<close>
  "year_of_era doe =
     (let n100 = min 3 (doe div 36524); r1 = doe - 36524 * n100;
          n4 = r1 div 1461; r2 = r1 - 1461 * n4;
          n1 = min 3 (r2 div 365)
      in (100 * n100 + 4 * n4 + n1, r2 - 365 * n1))"

definition civil_from_days :: "int \<Rightarrow> int \<times> int \<times> int" where
  "civil_from_days z =
     (let z' = z + 719468; (yoe, doy) = year_of_era (z' mod 146097);
          mp = (5 * doy + 2) div 153;
          m = (if mp < 10 then mp + 3 else mp - 9);
          y = yoe + (z' div 146097) * 400
      in ((if m \<le> 2 then y + 1 else y), m, doy - (153 * mp + 2) div 5 + 1))"

section \<open>Instants\<close>

type_synonym location = "int \<Rightarrow> int \<times> int \<times> int"

record Time =
  t_sec :: int \<comment> \<open>Unix seconds\<close>
  t_nsec :: int \<comment> \<open>nanoseconds within the second\<close>
  t_loc :: location

definition zone_offset :: "location \<Rightarrow> int \<Rightarrow> int" where
  "zone_offset l s = fst (l s)"

definition UTC :: location where
  "UTC = (\<lambda>_. (0, - (2 ^ 63), 2 ^ 63 - 1))"

definition FixedZone :: "int \<Rightarrow> location" where
  "FixedZone off = (\<lambda>_. (off, - (2 ^ 63), 2 ^ 63 - 1))"

text \<open>The zero \<open>time.Time\<close>: 0001-01-01 00:00:00 UTC.\<close>

definition Time_zero :: Time where
  "Time_zero = \<lparr>t_sec = - 62135596800, t_nsec = 0, t_loc = UTC\<rparr>"

definition Time_IsZero :: "Time \<Rightarrow> bool" where
  "Time_IsZero t \<longleftrightarrow> t_sec t = - 62135596800 \<and> t_nsec t = 0"

definition local_sec :: "Time \<Rightarrow> int" where
  "local_sec t = t_sec t + zone_offset (t_loc t) (t_sec t)"

definition Time_Year :: "Time \<Rightarrow> int" where
  "Time_Year t = fst (civil_from_days (local_sec t div 86400))"

definition Time_Month :: "Time \<Rightarrow> int" where
  "Time_Month t = fst (snd (civil_from_days (local_sec t div 86400)))"

definition Time_Day :: "Time \<Rightarrow> int" where
  "Time_Day t = snd (snd (civil_from_days (local_sec t div 86400)))"

definition Time_Hour :: "Time \<Rightarrow> int" where
  "Time_Hour t = local_sec t mod 86400 div 3600"

definition Time_Minute :: "Time \<Rightarrow> int" where
  "Time_Minute t = local_sec t mod 3600 div 60"

definition Time_Second :: "Time \<Rightarrow> int" where
  "Time_Second t = local_sec t mod 60"

text \<open>
  \<open>time.Date\<close> with zero nanoseconds. The month is carried into the year, the other fields may be
  outside their ranges and are added up; the zone is looked up at the local time read as UTC, and
  once more at the instant that gives if it falls outside the range the first offset holds for.
\<close>

definition date_unix :: "int \<Rightarrow> int \<Rightarrow> int \<Rightarrow> int \<Rightarrow> int \<Rightarrow> int \<Rightarrow> int" where
  "date_unix y mo d h mi s =
     (days_from_civil (y + (mo - 1) div 12) ((mo - 1) mod 12 + 1) 1 + (d - 1)) * 86400
     + h * 3600 + mi * 60 + s"

definition to_utc :: "location \<Rightarrow> int \<Rightarrow> int" where
  "to_utc l unix =
     (let (off, start, en) = l unix in
      if off = 0 then unix
      else (let utc = unix - off in
            if utc < start \<or> utc \<ge> en then unix - zone_offset l utc else utc))"

definition Time_Date :: "int \<Rightarrow> int \<Rightarrow> int \<Rightarrow> int \<Rightarrow> int \<Rightarrow> int \<Rightarrow> location \<Rightarrow> Time" where
  "Time_Date y mo d h mi s l = \<lparr>t_sec = to_utc l (date_unix y mo d h mi s), t_nsec = 0, t_loc = l\<rparr>"

text \<open>A \<open>time.Duration\<close> is a number of nanoseconds; \<open>Sub\<close> saturates at the ends of \<open>int64\<close>.\<close>

type_synonym Duration = int

definition minDuration :: Duration where "minDuration = - (2 ^ 63)"
definition maxDuration :: Duration where "maxDuration = 2 ^ 63 - 1"

definition Time_Sub :: "Time \<Rightarrow> Time \<Rightarrow> Duration" where
  "Time_Sub t u =
     max minDuration (min maxDuration
       ((t_sec t - t_sec u) * 1000000000 + (t_nsec t - t_nsec u)))"

definition Time_Equal :: "Time \<Rightarrow> Time \<Rightarrow> bool" where
  "Time_Equal t u \<longleftrightarrow> t_sec t = t_sec u \<and> t_nsec t = t_nsec u"

section \<open>Lemmas\<close>

lemma year_of_era_props:
  assumes "0 \<le> doe" "doe < 146097" "year_of_era doe = (yoe, doy)"
  shows "0 \<le> yoe" "yoe < 400" "0 \<le> doy" "doy \<le> 365"
    and "365 * yoe + yoe div 4 - yoe div 100 + doy = doe"
proof -
  define n100 where "n100 = min 3 (doe div 36524)"
  define r1 where "r1 = doe - 36524 * n100"
  define n4 where "n4 = r1 div 1461"
  define r2 where "r2 = r1 - 1461 * n4"
  define n1 where "n1 = min 3 (r2 div 365)"
  have eq: "yoe = 100 * n100 + 4 * n4 + n1" "doy = r2 - 365 * n1"
    using assms(3) by (auto simp: year_of_era_def Let_def n100_def r1_def n4_def r2_def n1_def)
  have n100: "0 \<le> n100" "n100 \<le> 3" using assms by (auto simp: n100_def)
  have r1: "0 \<le> r1" "r1 \<le> 36524"
    using assms unfolding r1_def n100_def by (auto simp: min_def split: if_splits)
  then have n4: "0 \<le> n4" "n4 \<le> 24" by (auto simp: n4_def)
  have r2: "0 \<le> r2" "r2 < 1461"
    using r1 by (auto simp: r2_def n4_def minus_mult_div_eq_mod)
  then have n1: "0 \<le> n1" "n1 \<le> 3" by (auto simp: n1_def)
  show "0 \<le> yoe" "yoe < 400" using eq n100 n4 n1 by linarith+
  show "0 \<le> doy" "doy \<le> 365"
    using r2 unfolding eq n1_def by (auto simp: min_def split: if_splits)
  have "yoe div 100 = n100"
    using n4 n1 eq by (intro int_div_pos_eq [of _ _ _ "4 * n4 + n1"]) auto
  moreover have "yoe div 4 = 25 * n100 + n4"
    using n1 eq by (intro int_div_pos_eq [of _ _ _ n1]) auto
  ultimately show "365 * yoe + yoe div 4 - yoe div 100 + doy = doe"
    using eq by (simp add: r2_def r1_def)
qed

lemma civil_from_days_props:
  assumes "civil_from_days z = (y, m, d)"
  shows "1 \<le> m" "m \<le> 12" "1 \<le> d" "d \<le> 31" "days_from_civil y m d = z"
proof -
  define z' where "z' = z + 719468"
  obtain yoe doy where yd: "year_of_era (z' mod 146097) = (yoe, doy)" by fastforce
  have "0 \<le> z' mod 146097" "z' mod 146097 < 146097" by simp_all
  note P = year_of_era_props [OF this yd]
  define mp where "mp = (5 * doy + 2) div 153"
  have mp: "0 \<le> mp" "mp \<le> 11" using P(3,4) by (auto simp: mp_def)
  have m: "m = (if mp < 10 then mp + 3 else mp - 9)"
    and y: "y = (if m \<le> 2 then yoe + z' div 146097 * 400 + 1 else yoe + z' div 146097 * 400)"
    and d: "d = doy - (153 * mp + 2) div 5 + 1"
    using assms unfolding mp_def
    by (auto simp: civil_from_days_def Let_def z'_def [symmetric] yd split: if_splits)
  show "1 \<le> m" "m \<le> 12" using mp m by (auto split: if_splits)
  have "153 * mp \<le> 5 * doy + 2" "5 * doy + 2 < 153 * mp + 153" by (auto simp: mp_def)
  then have "(153 * mp + 2) div 5 \<le> doy" "doy < (153 * mp + 2) div 5 + 31" by linarith+
  then show "1 \<le> d" "d \<le> 31" using d by linarith+
  have mp': "(m + 9) mod 12 = mp" using mp m by auto
  have y': "(if m \<le> 2 then y - 1 else y) = yoe + z' div 146097 * 400" using y by simp
  have era: "(yoe + z' div 146097 * 400) mod 400 = yoe" "(yoe + z' div 146097 * 400) div 400 = z' div 146097"
    using P(1,2) by simp_all
  have "days_from_civil y m d = z' div 146097 * 146097 + z' mod 146097 - 719468"
    unfolding days_from_civil_def Let_def y' mp' era using P(5) d by linarith
  also have "\<dots> = z' - 719468" by simp
  finally have "days_from_civil y m d = z' - 719468" .
  then show "days_from_civil y m d = z" by (simp add: z'_def)
qed

lemma days_from_civil_add_days: "days_from_civil y m 1 + (d - 1) = days_from_civil y m d"
  by (simp add: days_from_civil_def Let_def)

lemma Time_field_bounds:
  "0 \<le> Time_Hour t" "Time_Hour t \<le> 23" "0 \<le> Time_Minute t" "Time_Minute t \<le> 59"
  "0 \<le> Time_Second t" "Time_Second t \<le> 59"
  "1 \<le> Time_Month t" "Time_Month t \<le> 12" "1 \<le> Time_Day t" "Time_Day t \<le> 31"
proof -
  show "0 \<le> Time_Hour t" "Time_Hour t \<le> 23" "0 \<le> Time_Minute t" "Time_Minute t \<le> 59"
    "0 \<le> Time_Second t" "Time_Second t \<le> 59"
    using pos_mod_bound [of 86400 "local_sec t"] pos_mod_bound [of 3600 "local_sec t"]
      pos_mod_bound [of 60 "local_sec t"]
    by (simp_all add: Time_Hour_def Time_Minute_def Time_Second_def)
  obtain y m d where c: "civil_from_days (local_sec t div 86400) = (y, m, d)" by (metis surj_pair)
  show "1 \<le> Time_Month t" "Time_Month t \<le> 12" "1 \<le> Time_Day t" "Time_Day t \<le> 31"
    using civil_from_days_props [OF c] by (simp_all add: Time_Month_def Time_Day_def c)
qed

lemma seconds_of_day: "(x :: int) mod 86400 = x mod 86400 div 3600 * 3600 + x mod 3600 div 60 * 60 + x mod 60"
proof -
  have "x mod 86400 mod 3600 = x mod 3600" "x mod 3600 mod 60 = x mod 60"
    by (simp_all add: mod_mod_cancel)
  then show ?thesis
    using div_mult_mod_eq [of "x mod 86400" 3600] div_mult_mod_eq [of "x mod 3600" 60] by linarith
qed

text \<open>The fields of an instant, put through \<open>time.Date\<close> again, are its local second.\<close>

lemma date_unix_fields:
  "date_unix (Time_Year t) (Time_Month t) (Time_Day t) (Time_Hour t) (Time_Minute t) (Time_Second t)
     = local_sec t"
proof -
  obtain y m d where c: "civil_from_days (local_sec t div 86400) = (y, m, d)" by (metis surj_pair)
  note P = civil_from_days_props [OF c]
  have "(m - 1) div 12 = 0" "(m - 1) mod 12 + 1 = m" using P(1,2) by auto
  then have "date_unix y m d h mi s = local_sec t div 86400 * 86400 + h * 3600 + mi * 60 + s" for h mi s
    using P(5) by (simp add: date_unix_def days_from_civil_add_days)
  moreover have "local_sec t div 86400 * 86400 + local_sec t mod 86400 div 3600 * 3600
      + local_sec t mod 3600 div 60 * 60 + local_sec t mod 60 = local_sec t"
    using seconds_of_day [of "local_sec t"] div_mult_mod_eq [of "local_sec t" 86400] by linarith
  ultimately show ?thesis
    by (simp only: Time_Year_def Time_Month_def Time_Day_def Time_Hour_def Time_Minute_def
        Time_Second_def c fst_conv snd_conv)
qed

lemma to_utc_local_sec:
  assumes "zone_offset (t_loc t) (local_sec t) = zone_offset (t_loc t) (t_sec t)"
  shows "to_utc (t_loc t) (local_sec t) = t_sec t"
proof -
  obtain off a b where l: "t_loc t (local_sec t) = (off, a, b)" by (metis surj_pair)
  with assms have off: "zone_offset (t_loc t) (t_sec t) = off" by (simp add: zone_offset_def)
  then have "local_sec t - off = t_sec t" by (simp add: local_sec_def)
  with off show ?thesis by (auto simp: to_utc_def l Let_def)
qed

end
