(* ===== verification/GoStrings.thy ===== *)
theory GoStrings
  imports Prelude
begin

text \<open>
  The parts of Go's \<open>strings\<close>, \<open>strconv\<close> and \<open>fmt\<close> packages the manager uses, on strings as
  lists of bytes: \<open>TrimSpace\<close>, \<open>Split\<close> and \<open>Cut\<close> on a one-byte separator, \<open>ToUpper\<close>,
  \<open>Join\<close>, \<open>ParseUint\<close> in base 10, and the \<open>%d\<close>, \<open>%02d\<close> and \<open>%04X\<close> verbs.
\<close>

section \<open>Definitions\<close>

definition digit_char :: "nat \<Rightarrow> char" where
  "digit_char d = (if d < 10 then char_of (48 + d) else char_of (55 + d))"

text \<open>\<open>%d\<close> of a natural number, then of an integer.\<close>

fun fmt_nat :: "nat \<Rightarrow> string" where
  "fmt_nat n = (if n < 10 then [digit_char n] else fmt_nat (n div 10) @ [digit_char (n mod 10)])"

declare fmt_nat.simps [simp del]

definition fmt_d :: "int \<Rightarrow> string" where
  "fmt_d i = (if i < 0 then CHR ''-'' # fmt_nat (nat (- i)) else fmt_nat (nat i))"

text \<open>
  \<open>%q\<close>: the text in double quotes. The escapes of \<open>strconv.Quote\<close> are left out: the verb occurs
  in error texts only, and no decision of the program reads one.
\<close>

definition fmt_q :: "string \<Rightarrow> string" where
  "fmt_q s = CHR 0x22 # s @ [CHR 0x22]"

text \<open>\<open>%02d\<close> of an unsigned value.\<close>

definition fmt_02d :: "nat \<Rightarrow> string" where
  "fmt_02d n = (let s = fmt_nat n in replicate (2 - length s) (CHR ''0'') @ s)"

text \<open>\<open>%04X\<close> of a 16-bit value: four upper-case hexadecimal digits.\<close>

definition fmt_04X :: "u16 \<Rightarrow> string" where
  "fmt_04X w = (let n = unat w in
     [digit_char (n div 4096 mod 16), digit_char (n div 256 mod 16),
      digit_char (n div 16 mod 16), digit_char (n mod 16)])"

text \<open>
  The byte sequences \<open>unicode.IsSpace\<close> accepts, in UTF-8: the ASCII white space, U+0085,
  U+00A0 and the other code points of the White\_Space property.
\<close>

definition space_runes :: "string list" where
  "space_runes =
     map (\<lambda>b. [char_of b]) [9, 10, 11, 12, 13, 32 :: nat] @
     map (map char_of)
       ([[194, 133], [194, 160], [225, 154, 128]] @
        map (\<lambda>b. [226, 128, b]) [128, 129, 130, 131, 132, 133, 134, 135, 136, 137, 138] @
        [[226, 128, 168], [226, 128, 169], [226, 128, 175], [226, 129, 159], [227, 128, 128 :: nat]])"

fun strip_prefix :: "string \<Rightarrow> string \<Rightarrow> string option" where
  "strip_prefix [] s = Some s"
| "strip_prefix (p # ps) [] = None"
| "strip_prefix (p # ps) (c # cs) = (if p = c then strip_prefix ps cs else None)"

definition strip_one :: "string list \<Rightarrow> string \<Rightarrow> string option" where
  "strip_one rs s = (case List.map_filter (\<lambda>r. strip_prefix r s) rs of [] \<Rightarrow> None | t # _ \<Rightarrow> Some t)"

text \<open>
  Removes leading members of \<open>rs\<close>; every removal takes at least one byte, so the length of the
  string is enough fuel (\<open>strip_all\<close>).
\<close>

fun strip_fuel :: "nat \<Rightarrow> string list \<Rightarrow> string \<Rightarrow> string" where
  "strip_fuel 0 rs s = s"
| "strip_fuel (Suc n) rs s = (case strip_one rs s of None \<Rightarrow> s | Some t \<Rightarrow> strip_fuel n rs t)"

definition strip_all :: "string list \<Rightarrow> string \<Rightarrow> string" where
  "strip_all rs s = strip_fuel (length s) rs s"

text \<open>\<open>strings.TrimSpace\<close>: the trailing runes are the leading ones of the reversed string.\<close>

definition TrimSpace :: "string \<Rightarrow> string" where
  "TrimSpace s = rev (strip_all (map rev space_runes) (rev (strip_all space_runes s)))"

text \<open>\<open>strings.Split\<close> with a one-byte separator: never empty.\<close>

fun Split :: "char \<Rightarrow> string \<Rightarrow> string list" where
  "Split sep [] = [[]]"
| "Split sep (c # cs) =
     (if c = sep then [] # Split sep cs
      else (case Split sep cs of [] \<Rightarrow> [[c]] | s # ss \<Rightarrow> (c # s) # ss))"

text \<open>\<open>strings.Cut\<close> around the first separator; \<open>None\<close> is \<open>found == false\<close>.\<close>

fun Cut :: "char \<Rightarrow> string \<Rightarrow> (string \<times> string) option" where
  "Cut sep [] = None"
| "Cut sep (c # cs) =
     (if c = sep then Some ([], cs)
      else map_option (\<lambda>(a, b). (c # a, b)) (Cut sep cs))"

definition Join :: "string list \<Rightarrow> string \<Rightarrow> string" where
  "Join ss sep = (case ss of [] \<Rightarrow> [] | s # rest \<Rightarrow> s @ concat (map (\<lambda>t. sep @ t) rest))"

text \<open>
  \<open>strings.ToUpper\<close>, as far as a comparison with an ASCII literal can see: ASCII letters, and
  the two code points beyond ASCII whose upper case is an ASCII letter, U+0131 (dotless i) and
  U+017F (long s). Every other byte beyond ASCII is left as it is: its upper case is not ASCII
  either.
\<close>

definition upper_char :: "char \<Rightarrow> char" where
  "upper_char c = (let n = of_char c :: nat in if 97 \<le> n \<and> n \<le> 122 then char_of (n - 32) else c)"

fun ToUpper :: "string \<Rightarrow> string" where
  "ToUpper [] = []"
| "ToUpper [c] = [upper_char c]"
| "ToUpper (c # d # cs) =
     (if of_char c = (196 :: nat) \<and> of_char d = (177 :: nat) then CHR ''I'' # ToUpper cs
      else if of_char c = (197 :: nat) \<and> of_char d = (191 :: nat) then CHR ''S'' # ToUpper cs
      else upper_char c # ToUpper (d # cs))"

text \<open>\<open>strconv.ParseUint(s, 10, bits)\<close>.\<close>

definition digit_val :: "char \<Rightarrow> nat option" where
  "digit_val c = (let n = of_char c in if 48 \<le> n \<and> n \<le> 57 then Some (n - 48) else None)"

fun parse_digits :: "nat \<Rightarrow> string \<Rightarrow> nat option" where
  "parse_digits acc [] = Some acc"
| "parse_digits acc (c # cs) =
     (case digit_val c of None \<Rightarrow> None | Some d \<Rightarrow> parse_digits (10 * acc + d) cs)"

definition ParseUint :: "string \<Rightarrow> nat \<Rightarrow> nat result" where
  "ParseUint s bits =
     (if s = [] then Inl (Errorf ''strconv.ParseUint: invalid syntax'')
      else case parse_digits 0 s of
        None \<Rightarrow> Inl (Errorf ''strconv.ParseUint: invalid syntax'')
      | Some n \<Rightarrow> if n < 2 ^ bits then Inr n
                  else Inl (Errorf ''strconv.ParseUint: value out of range''))"

section \<open>Lemmas\<close>

lemma digit_val_digit_char [simp]: "d < 10 \<Longrightarrow> digit_val (digit_char d) = Some d"
  by (simp add: digit_val_def digit_char_def)

lemma of_char_digit_char:
  assumes "d < 16"
  shows "of_char (digit_char d) = (if d < 10 then 48 + d else 55 + d)"
  using assms by (simp add: digit_char_def)

lemma digit_val_SomeD:
  assumes "digit_val c = Some d"
  shows "d < 10 \<and> c = digit_char d"
proof -
  define n :: nat where "n = of_char c"
  then have c: "c = char_of n" by simp
  from assms have n: "48 \<le> n" "n \<le> 57" "d = n - 48"
    by (auto simp: digit_val_def n_def Let_def split: if_splits)
  then show ?thesis by (simp add: c digit_char_def)
qed

lemma digit_char_inj:
  assumes "digit_char a = digit_char b" "a < 16" "b < 16"
  shows "a = b"
proof -
  have "of_char (digit_char a) = (of_char (digit_char b) :: nat)" using assms(1) by simp
  then show ?thesis
    using assms(2,3) by (simp only: of_char_digit_char) (simp split: if_splits)
qed

lemma fmt_nat_small: "n < 10 \<Longrightarrow> fmt_nat n = [digit_char n]"
  by (simp add: fmt_nat.simps)

lemma fmt_nat_two: "10 \<le> n \<Longrightarrow> n < 100 \<Longrightarrow> fmt_nat n = [digit_char (n div 10), digit_char (n mod 10)]"
  by (subst fmt_nat.simps) (simp add: fmt_nat_small)

lemma digit_char_0 [simp]: "digit_char 0 = CHR ''0''"
  by code_simp

lemma fmt_02d_two:
  assumes "n < 100"
  shows "fmt_02d n = [digit_char (n div 10), digit_char (n mod 10)]"
proof (cases "n < 10")
  case True
  then have "n div 10 = 0" "n mod 10 = n" by auto
  with True show ?thesis by (simp add: fmt_02d_def fmt_nat_small)
next
  case False
  with assms show ?thesis by (simp add: fmt_02d_def fmt_nat_two)
qed

lemma Split_nonempty [simp]: "Split sep s \<noteq> []"
  by (induction sep s rule: Split.induct) (auto split: list.splits)

lemma Split_no_sep: "sep \<notin> set s \<Longrightarrow> Split sep s = [s]"
  by (induction s) auto

lemma Split_append_sep: "Split sep (a @ sep # b) = Split sep a @ Split sep b"
proof (induction a)
  case Nil
  then show ?case by simp
next
  case (Cons c a)
  then show ?case by (cases "Split sep a") auto
qed

lemma Split_pieces: "p \<in> set (Split sep s) \<Longrightarrow> sep \<notin> set p"
  by (induction sep s arbitrary: p rule: Split.induct) (auto split: if_splits list.splits)

text \<open>Joining the pieces with the separator gives the string back.\<close>

fun glue :: "char \<Rightarrow> string list \<Rightarrow> string" where
  "glue sep [] = []"
| "glue sep [s] = s"
| "glue sep (s # t # ss) = s @ sep # glue sep (t # ss)"

lemma glue_Split [simp]: "glue sep (Split sep s) = s"
proof (induction sep s rule: Split.induct)
  case (2 sep c cs)
  then show ?case by (cases "Split sep cs" rule: glue.cases [of "(sep, _)", simplified]) auto
qed simp

lemma Cut_append: "sep \<notin> set a \<Longrightarrow> Cut sep (a @ sep # b) = Some (a, b)"
  by (induction a) auto

lemma Cut_SomeD: "Cut sep s = Some (a, b) \<Longrightarrow> s = a @ sep # b \<and> sep \<notin> set a"
  by (induction sep s arbitrary: a b rule: Cut.induct) (auto split: if_splits)

text \<open>A string whose first and last bytes are visible ASCII has nothing to trim.\<close>

definition visible :: "char \<Rightarrow> bool" where
  "visible c \<longleftrightarrow> 33 \<le> (of_char c :: nat) \<and> of_char c \<le> (126 :: nat)"

lemma strip_all_id:
  assumes "\<And>r. r \<in> set rs \<Longrightarrow> r \<noteq> [] \<and> hd r \<noteq> c"
  shows "strip_all rs (c # cs) = c # cs"
proof -
  have "strip_prefix r (c # cs) = None" if "r \<in> set rs" for r
    using assms [OF that] by (cases r) auto
  then have "List.map_filter (\<lambda>r. strip_prefix r (c # cs)) rs = []"
    by (simp add: List.map_filter_def filter_empty_conv)
  then show ?thesis by (simp add: strip_all_def strip_one_def)
qed

lemma space_runes_edges:
  "list_all (\<lambda>r. r \<noteq> [] \<and> \<not> visible (hd r)) (space_runes @ map rev space_runes)"
  by (simp add: space_runes_def visible_def)

lemma strip_ends_visible:
  assumes edges: "list_all (\<lambda>r. r \<noteq> [] \<and> \<not> visible (hd r)) (rs @ map rev rs)"
    and "s \<noteq> []" "visible (hd s)" "visible (last s)"
  shows "rev (strip_all (map rev rs) (rev (strip_all rs s))) = s"
proof -
  obtain c cs where s: "s = c # cs" using assms(2) by (cases s) auto
  obtain d ds where r: "rev s = d # ds" using assms(2) by (cases "rev s") auto
  have d: "d = last s" using r by (metis hd_rev list.sel(1))
  have E: "r \<noteq> [] \<and> hd r \<noteq> x" if "r \<in> set rs \<union> set (map rev rs)" "visible x" for r x
    using edges that unfolding list_all_iff set_append by metis
  have "strip_all rs s = s"
    unfolding s by (rule strip_all_id) (rule E, simp, use assms(3) s in simp)
  moreover have "strip_all (map rev rs) (rev s) = rev s"
    unfolding r by (rule strip_all_id) (rule E, simp, use assms(4) d in simp)
  ultimately show ?thesis by simp
qed

lemma TrimSpace_visible:
  assumes "s \<noteq> []" "visible (hd s)" "visible (last s)"
  shows "TrimSpace s = s"
  unfolding TrimSpace_def using space_runes_edges assms by (rule strip_ends_visible)

end
