(* ===== verification/GoDuration.thy ===== *)
theory GoDuration
  imports GoTime GoStrings
begin

text \<open>
  \<open>time.Duration\<close>: rounding, the text form of \<open>Duration.String\<close>, and the RFC 3339 form of an instant
  (\<open>Time.Format(time.RFC3339)\<close>). A duration is an \<open>int64\<close> number of nanoseconds.
\<close>

section \<open>Definitions\<close>

definition Nanosecond :: Duration where "Nanosecond = 1"
definition Microsecond :: Duration where "Microsecond = 1000"
definition Millisecond :: Duration where "Millisecond = 1000000"
definition Second :: Duration where "Second = 1000000000"

text \<open>\<open>Duration.Round\<close>: half away from zero, saturating; the remainder is that of the magnitude.\<close>

definition Duration_Round :: "Duration \<Rightarrow> Duration \<Rightarrow> Duration" where
  "Duration_Round d m =
     (if m \<le> 0 then d
      else if d < 0 then
        (let r = (- d) mod m in
         if r + r < m then d + r
         else (let d1 = wrap64 (d - m + r) in if d1 < d then d1 else minDuration))
      else
        (let r = d mod m in
         if r + r < m then d - r
         else (let d1 = wrap64 (d + m - r) in if d1 > d then d1 else maxDuration)))"

text \<open>\<open>fmtFrac\<close>: the fraction \<open>v / 10 ^ prec\<close> as text, without trailing zeros and without a lone point.\<close>

fun frac_digits :: "nat \<Rightarrow> int \<Rightarrow> bool \<Rightarrow> string \<Rightarrow> string" where
  "frac_digits 0 v printing acc = (if printing then CHR ''.'' # acc else acc)"
| "frac_digits (Suc n) v printing acc =
     (let digit = v mod 10; printing = (printing \<or> digit \<noteq> 0)
      in frac_digits n (v div 10) printing (if printing then digit_char (nat digit) # acc else acc))"

definition fmtFrac :: "int \<Rightarrow> nat \<Rightarrow> string" where
  "fmtFrac v prec = fmt_nat (nat (v div 10 ^ prec)) @ frac_digits prec v False []"

definition Duration_String :: "Duration \<Rightarrow> string" where
  "Duration_String d =
     (let u = \<bar>d\<bar>;
          body =
            (if u < 1000000000 then
               (if u = 0 then ''0s''
                else if u < 1000 then fmt_nat (nat u) @ ''ns''
                else if u < 1000000 then fmtFrac u 3 @ [char_of (194 :: nat), char_of (181 :: nat)] @ ''s''
                else fmtFrac u 6 @ ''ms'')
             else
               (let secs = u div 1000000000; frac = frac_digits 9 u False [];
                    s = fmt_nat (nat (secs mod 60)) @ frac @ ''s'';
                    mins = secs div 60
                in if mins = 0 then s
                   else
                     (let m = fmt_nat (nat (mins mod 60)) @ ''m'' @ s; hours = mins div 60
                      in if hours = 0 then m else fmt_nat (nat hours) @ ''h'' @ m)))
      in if d < 0 then CHR ''-'' # body else body)"

text \<open>\<open>appendInt\<close> with a width, for the fields of an RFC 3339 timestamp.\<close>

definition append_int :: "int \<Rightarrow> nat \<Rightarrow> string" where
  "append_int x width =
     (let s = fmt_nat (nat \<bar>x\<bar>)
      in (if x < 0 then ''-'' else '''') @ replicate (width - length s) (CHR ''0'') @ s)"

definition RFC3339 :: "Time \<Rightarrow> string" where
  "RFC3339 t =
     (let off = zone_offset (t_loc t) (t_sec t)
      in append_int (Time_Year t) 4 @ ''-'' @ append_int (Time_Month t) 2 @ ''-'' @ append_int (Time_Day t) 2
         @ ''T'' @ append_int (Time_Hour t) 2 @ '':'' @ append_int (Time_Minute t) 2 @ '':''
         @ append_int (Time_Second t) 2
         @ (if off = 0 then ''Z''
            else
              (let zone = \<bar>off\<bar> div 60
               in (if off < 0 \<and> 0 < zone then ''-'' else ''+'') @ append_int (zone div 60) 2 @ '':''
                  @ append_int (zone mod 60) 2)))"

section \<open>Lemmas\<close>

lemma Duration_Round_second:
  assumes "0 \<le> d" "d < 2 ^ 62"
  shows "Duration_Round d Second = (d + 500000000) div Second * Second"
proof -
  define q r where "q = d div 1000000000" and "r = d mod 1000000000"
  have d: "d = q * 1000000000 + r" and r: "0 \<le> r" "r < 1000000000" by (simp_all add: q_def r_def)
  have "(d + 500000000) div 1000000000 = (if r + r < 1000000000 then q else q + 1)"
    using d r by (auto intro: int_div_pos_eq [where r = "r + 500000000"] int_div_pos_eq [where r = "r - 500000000"])
  moreover have "wrap64 (d + 1000000000 - r) = d + 1000000000 - r"
    using assms r by (intro wrap64_id) simp_all
  ultimately show ?thesis
    using assms d r by (auto simp: Duration_Round_def Second_def Let_def r_def [symmetric] ring_distribs)
qed

end
