(* ===== verification/Server.thy ===== *)
theory Server
  imports GoDuration
begin

text \<open>
  \<open>internal/server\<close>: readiness, the last recorded reading and the probes and page that show them
  (\<open>server.go\<close>, \<open>page.go\<close>). Every method holds the mutex from its first access to its last, so a
  method is one step on the record \<open>Server\<close>. The clock is an argument. The HTML template is not
  modelled: the page is the data it renders, \<open>statusView\<close>. A document is what the JSON decoder sees of
  its bytes: nothing it can decode, or a first value and whether anything follows it.
\<close>

section \<open>Documents\<close>

datatype jvalue =
    VNull
  | VBool bool
  | VNumber string \<comment> \<open>the literal, as \<open>json.Number\<close> keeps it\<close>
  | VString string
  | VArray "jvalue list"
  | VObject "(string \<times> jvalue) list" \<comment> \<open>the members in the order of the text\<close>

datatype document = Malformed | Document jvalue bool

text \<open>A Go map filled from the members in order: the last one of a key stays.\<close>

fun go_map :: "(string \<times> 'v) list \<Rightarrow> (string \<times> 'v) list" where
  "go_map [] = []"
| "go_map ((k, v) # kvs) = (if k \<in> fst ` set kvs then go_map kvs else (k, v) # go_map kvs)"

text \<open>\<open>strings.Compare\<close> on the bytes of two keys.\<close>

fun string_le :: "string \<Rightarrow> string \<Rightarrow> bool" where
  "string_le [] t = True"
| "string_le (c # cs) [] = False"
| "string_le (c # cs) (d # ds) =
     ((of_char c :: nat) < of_char d \<or> (c = d \<and> string_le cs ds))"

fun insert_key :: "string \<times> 'v \<Rightarrow> (string \<times> 'v) list \<Rightarrow> (string \<times> 'v) list" where
  "insert_key kv [] = [kv]"
| "insert_key kv (x # xs) = (if string_le (fst kv) (fst x) then kv # x # xs else x # insert_key kv xs)"

definition sort_keys :: "(string \<times> 'v) list \<Rightarrow> (string \<times> 'v) list" where
  "sort_keys kvs = foldr insert_key kvs []"

text \<open>
  \<open>fmt.Sprint\<close> of a decoded value: a nested \<open>nil\<close> is \<open><nil>\<close>, a slice is bracketed, a map is printed in
  key order.
\<close>

fun Sprint :: "jvalue \<Rightarrow> string" where
  "Sprint VNull = ''<nil>''"
| "Sprint (VBool b) = (if b then ''true'' else ''false'')"
| "Sprint (VNumber s) = s"
| "Sprint (VString s) = s"
| "Sprint (VArray vs) = ''['' @ Join (map Sprint vs) '' '' @ '']''"
| "Sprint (VObject kvs) =
     ''map['' @ Join (map (\<lambda>(k, s). k @ '':'' @ s) (sort_keys (go_map (map (\<lambda>(k, v). (k, Sprint v)) kvs)))) '' '' @ '']''"

section \<open>page.go: decoding\<close>

record valueRow =
  Key :: string
  RowValue :: string

definition formatValue :: "jvalue \<Rightarrow> string" where
  "formatValue value = (if value = VNull then ''null'' else Sprint value)"

definition decodeValues :: "document \<Rightarrow> valueRow list result" where
  "decodeValues doc =
     (case doc of
        Malformed \<Rightarrow> Inl (Errorf ''decode state document'')
      | Document v trailing \<Rightarrow>
          (case v of
             VObject members \<Rightarrow>
               if trailing then Inl (Errorf ''trailing data after the state document'')
               else
                 Inr (map (\<lambda>(k, v). \<lparr>Key = k, RowValue = formatValue v\<rparr>) (sort_keys (go_map members)))
           | VNull \<Rightarrow> Inl (Errorf ''state document is JSON null, want an object'')
           | _ \<Rightarrow> Inl (Errorf ''decode state document'')))"

section \<open>server.go\<close>

record server_Config =
  FailureThreshold :: int
  server_PollInterval :: Duration

record Reading =
  Doc :: document
  SetpointsStale :: bool

record reading =
  rows :: "valueRow list"
  recorded_at :: Time
  setpointsAt :: Time

record Server =
  ready :: bool
  consecutiveFailures :: int
  threshold :: int
  last_reading :: "reading option"
  server_cfg :: server_Config
  startedAt :: Time

definition Server_New :: "server_Config \<Rightarrow> Time \<Rightarrow> Server" where
  "Server_New cfg now =
     (let threshold = FailureThreshold cfg;
          threshold = (if threshold < 1 then 1 else threshold)
      in \<lparr>ready = False, consecutiveFailures = 0, threshold = threshold, last_reading = None,
          server_cfg = cfg, startedAt = now\<rparr>)"

definition MarkSuccess :: "Server \<Rightarrow> Server" where
  "MarkSuccess s = s\<lparr>ready := True, consecutiveFailures := 0\<rparr>"

definition MarkFailure :: "Server \<Rightarrow> Server" where
  "MarkFailure s =
     (let s = s\<lparr>consecutiveFailures := wrap64 (consecutiveFailures s + 1)\<rparr>
      in if consecutiveFailures s \<ge> threshold s then s\<lparr>ready := False\<rparr> else s)"

definition SetReady :: "bool \<Rightarrow> Server \<Rightarrow> Server" where
  "SetReady r s =
     (let s = s\<lparr>ready := r\<rparr> in if r then s\<lparr>consecutiveFailures := 0\<rparr> else s)"

definition Ready :: "Server \<Rightarrow> bool" where
  "Ready s = ready s"

definition RecordReading :: "Reading \<Rightarrow> Time \<Rightarrow> Server \<Rightarrow> go_error option \<times> Server" where
  "RecordReading r now s =
     (case decodeValues (Doc r) of
        Inl err \<Rightarrow> (Some (Wrap ''record reading'' err), s)
      | Inr vals \<Rightarrow>
          (let at = now;
               setpointsAt =
                 (if SetpointsStale r
                  then (case last_reading s of Some l \<Rightarrow> setpointsAt l | None \<Rightarrow> Time_zero)
                  else at)
           in (None, s\<lparr>last_reading := Some \<lparr>rows = vals, recorded_at = at, setpointsAt = setpointsAt\<rparr>\<rparr>)))"

definition snapshot :: "Server \<Rightarrow> bool \<times> reading option" where
  "snapshot s = (ready s, last_reading s)"

text \<open>A probe's response: status and body.\<close>

definition handleLivez :: "Server \<Rightarrow> int \<times> string" where
  "handleLivez s = (200, ''ok'')"

definition handleReadyz :: "Server \<Rightarrow> int \<times> string" where
  "handleReadyz s = (if Ready s then (200, ''ready'') else (503, ''not ready''))"

section \<open>page.go: the page\<close>

definition serviceName :: string where "serviceName = ''solis-inverter-manager''"

record statusView =
  Service :: string
  view_Ready :: bool
  Uptime :: string
  GoVersion :: string
  view_PollInterval :: string
  Refresh :: int
  HaveReading :: bool
  ValuesAge :: string
  view_Setpoints :: string
  Values :: "valueRow list"

text \<open>\<open>time.Since\<close> rounded to the second.\<close>

definition age :: "Time \<Rightarrow> Time \<Rightarrow> Duration" where
  "age now t = Duration_Round (Time_Sub now t) Second"

definition setpointsLine :: "reading \<Rightarrow> Time \<Rightarrow> string" where
  "setpointsLine r now =
     (if Time_IsZero (setpointsAt r) then ''Setpoints: not yet read from the inverter''
      else if Time_Equal (setpointsAt r) (recorded_at r) then ''''
      else ''Setpoints: last read '' @ Duration_String (age now (setpointsAt r))
           @ '' ago (holding registers unreadable since)'')"

definition refreshSeconds :: "Duration \<Rightarrow> int" where
  "refreshSeconds poll = (if poll < Second then 0 else Duration_Round poll Second div Second)"

text \<open>\<open>version\<close> is \<open>runtime.Version()\<close>.\<close>

definition handleRoot :: "string \<Rightarrow> Time \<Rightarrow> Server \<Rightarrow> int \<times> statusView" where
  "handleRoot version now s =
     (let (ready, last) = snapshot s;
          view = \<lparr>Service = serviceName, view_Ready = ready,
                  Uptime = Duration_String (age now (startedAt s)), GoVersion = version,
                  view_PollInterval = Duration_String (server_PollInterval (server_cfg s)),
                  Refresh = refreshSeconds (server_PollInterval (server_cfg s)),
                  HaveReading = False, ValuesAge = '''', view_Setpoints = '''', Values = []\<rparr>
      in (200,
          case last of
            None \<Rightarrow> view
          | Some l \<Rightarrow>
              view\<lparr>HaveReading := True, Values := rows l,
                   ValuesAge := Duration_String (age now (recorded_at l)),
                   view_Setpoints := setpointsLine l now\<rparr>))"

section \<open>Rows\<close>

lemma string_le_refl [simp]: "string_le s s"
  by (induction s) auto

lemma string_le_total: "string_le s t \<or> string_le t s"
  by (induction s t rule: string_le.induct) (auto simp: of_char_eq_iff)

lemma string_le_trans: "string_le s t \<Longrightarrow> string_le t u \<Longrightarrow> string_le s u"
proof (induction s t arbitrary: u rule: string_le.induct)
  case (3 c cs d ds)
  then show ?case by (cases u) auto
qed auto

lemma string_le_antisym: "string_le s t \<Longrightarrow> string_le t s \<Longrightarrow> s = t"
proof (induction s t rule: string_le.induct)
  case (1 t)
  then show ?case by (cases t) auto
qed auto

definition string_less :: "string \<Rightarrow> string \<Rightarrow> bool" where
  "string_less s t \<longleftrightarrow> string_le s t \<and> s \<noteq> t"

lemma insert_key_set [simp]: "set (insert_key kv xs) = insert kv (set xs)"
  by (induction xs) auto

lemma sort_keys_set [simp]: "set (sort_keys kvs) = set kvs"
  by (induction kvs) (auto simp: sort_keys_def)

lemma insert_key_sorted:
  assumes "sorted_wrt string_less (map fst xs)" "fst kv \<notin> fst ` set xs"
  shows "sorted_wrt string_less (map fst (insert_key kv xs))"
  using assms
proof (induction xs)
  case (Cons x xs)
  show ?case
  proof (cases "string_le (fst kv) (fst x)")
    case True
    then have "string_less (fst kv) (fst y)" if "y \<in> set (x # xs)" for y
      using Cons.prems that string_le_trans [OF True] by (auto simp: string_less_def image_iff)
    then show ?thesis using Cons.prems True by auto
  next
    case False
    then have "string_less (fst x) (fst kv)"
      using string_le_total Cons.prems(2) by (auto simp: string_less_def)
    then show ?thesis using Cons False by auto
  qed
qed simp

lemma sort_keys_sorted: "distinct (map fst kvs) \<Longrightarrow> sorted_wrt string_less (map fst (sort_keys kvs))"
proof (induction kvs)
  case (Cons kv kvs)
  then have "fst kv \<notin> fst ` set (foldr insert_key kvs [])"
    using sort_keys_set [of kvs, unfolded sort_keys_def] by simp
  with Cons show ?case by (simp add: sort_keys_def insert_key_sorted)
qed (simp add: sort_keys_def)

lemma go_map_distinct: "distinct (map fst (go_map kvs))" "fst ` set (go_map kvs) = fst ` set kvs"
  by (induction kvs rule: go_map.induct) auto

lemma go_map_last: "(k, v) \<in> set (go_map kvs) \<longleftrightarrow> map_of (rev kvs) k = Some v"
proof (induction kvs rule: go_map.induct)
  case (2 k' v' kvs)
  have "map_of (rev kvs) k = None \<longleftrightarrow> k \<notin> fst ` set kvs" by (simp add: map_of_eq_None_iff)
  then show ?case
    using 2 go_map_distinct(2) [of kvs] by (auto simp: map_add_def image_iff split: option.splits)
qed simp

section \<open>Histories\<close>

text \<open>A history of poll outcomes, \<open>True\<close> for a success, and one of recorded readings with their times.\<close>

definition mark :: "Server \<Rightarrow> bool \<Rightarrow> Server" where
  "mark s ok = (if ok then MarkSuccess s else MarkFailure s)"

definition record_step :: "Server \<Rightarrow> Reading \<times> Time \<Rightarrow> Server" where
  "record_step s rt = snd (RecordReading (fst rt) (snd rt) s)"

definition failures_since :: "bool list \<Rightarrow> nat" where
  "failures_since hs = length (takeWhile Not (rev hs))"

definition good_readings :: "(Reading \<times> Time) list \<Rightarrow> (Reading \<times> Time) list" where
  "good_readings hs = filter (\<lambda>rt. is_ok (decodeValues (Doc (fst rt)))) hs"

definition fresh_readings :: "(Reading \<times> Time) list \<Rightarrow> (Reading \<times> Time) list" where
  "fresh_readings hs = filter (\<lambda>rt. \<not> SetpointsStale (fst rt)) (good_readings hs)"

lemma mark_fields [simp]:
  "threshold (mark s ok) = threshold s" "last_reading (mark s ok) = last_reading s"
  "server_cfg (mark s ok) = server_cfg s"
  by (simp_all add: mark_def MarkSuccess_def MarkFailure_def Let_def)

lemma mark_True [simp]: "ready (mark s True)" "consecutiveFailures (mark s True) = 0"
  by (simp_all add: mark_def MarkSuccess_def)

lemma mark_False [simp]:
  "consecutiveFailures (mark s False) = wrap64 (consecutiveFailures s + 1)"
  "ready (mark s False) \<longleftrightarrow> ready s \<and> wrap64 (consecutiveFailures s + 1) < threshold s"
  by (auto simp: mark_def MarkFailure_def Let_def)

lemma foldl_mark_threshold [simp]: "threshold (foldl mark s hs) = threshold s"
  by (induction hs arbitrary: s) auto

lemma failures_since_snoc: "failures_since (hs @ [ok]) = (if ok then 0 else Suc (failures_since hs))"
  by (simp add: failures_since_def)

text \<open>
  While the failures since the last success are below the threshold the counter is their number; it
  can only wrap once they are far above it, and then nothing but a success makes the server ready.
\<close>

lemma mark_invariant:
  assumes "threshold s < 2 ^ 63" "consecutiveFailures s = 0" "\<not> ready s" "1 \<le> threshold s"
  shows "(ready (foldl mark s hs) \<longleftrightarrow> True \<in> set hs \<and> int (failures_since hs) < threshold s) \<and>
    (int (failures_since hs) < threshold s \<longrightarrow> consecutiveFailures (foldl mark s hs) = int (failures_since hs))"
proof (induction hs rule: rev_induct)
  case Nil
  then show ?case using assms by (simp add: failures_since_def)
next
  case (snoc ok hs)
  let ?s = "foldl mark s hs"
  show ?case
  proof (cases ok)
    case True
    then show ?thesis using assms(4) by (simp add: failures_since_snoc)
  next
    case False
    have next_count: "wrap64 (consecutiveFailures ?s + 1) = int (failures_since hs) + 1"
      if "int (failures_since hs) < threshold s"
      using snoc that assms(1) by (subst wrap64_id) auto
    show ?thesis
    proof (cases "int (failures_since hs) < threshold s")
      case below: True
      then show ?thesis
        using snoc.IH False next_count by (auto simp: failures_since_snoc)
    next
      case above: False
      then have "\<not> ready ?s" using snoc by simp
      then show ?thesis using above False by (simp add: failures_since_snoc)
    qed
  qed
qed

section \<open>Properties\<close>

text \<open>
  C38: after any history of poll outcomes the server is ready exactly when some poll succeeded and
  the failures since the last success are fewer than the threshold, a threshold below one counting
  as one; the probe answers 200 exactly then.
\<close>

theorem readiness_history:
  assumes "FailureThreshold cfg < 2 ^ 63"
  shows "(Ready (foldl mark (Server_New cfg now) hs) \<longleftrightarrow>
      True \<in> set hs \<and> int (failures_since hs) < max 1 (FailureThreshold cfg)) \<and>
    fst (handleReadyz (foldl mark (Server_New cfg now) hs)) =
      (if True \<in> set hs \<and> int (failures_since hs) < max 1 (FailureThreshold cfg) then 200 else 503)"
proof -
  have "threshold (Server_New cfg now) = max 1 (FailureThreshold cfg)" by (simp add: Server_New_def Let_def)
  then have "Ready (foldl mark (Server_New cfg now) hs) \<longleftrightarrow>
      True \<in> set hs \<and> int (failures_since hs) < max 1 (FailureThreshold cfg)"
    using mark_invariant [of "Server_New cfg now" hs] assms
    by (simp add: Ready_def) (simp add: Server_New_def Let_def)
  then show ?thesis by (simp add: handleReadyz_def)
qed

theorem readiness_history_witness:
  "\<not> Ready (foldl mark (Server_New \<lparr>FailureThreshold = 2, server_PollInterval = Second\<rparr> Time_zero) [True, False, False])
   \<and> Ready (foldl mark (Server_New \<lparr>FailureThreshold = 2, server_PollInterval = Second\<rparr> Time_zero) [False, False, True, False])"
  using readiness_history [of "\<lparr>FailureThreshold = 2, server_PollInterval = Second\<rparr>" Time_zero "[True, False, False]"]
    readiness_history [of "\<lparr>FailureThreshold = 2, server_PollInterval = Second\<rparr>" Time_zero "[False, False, True, False]"]
  by (simp add: failures_since_def)

text \<open>
  The page shows the last reading whose document decoded, dates it with the time it was
  recorded, and dates its setpoints with the last decoded reading that had read them, or as never
  read; a document that does not decode changes nothing.
\<close>

theorem readings_history:
  "last_reading (foldl record_step (Server_New cfg now) hs) =
     (if good_readings hs = [] then None
      else Some \<lparr>rows = projr (decodeValues (Doc (fst (last (good_readings hs))))),
                 recorded_at = snd (last (good_readings hs)),
                 setpointsAt = (if fresh_readings hs = [] then Time_zero else snd (last (fresh_readings hs)))\<rparr>)"
proof (induction hs rule: rev_induct)
  case Nil
  then show ?case by (simp add: good_readings_def Server_New_def Let_def)
next
  case (snoc rt hs)
  show ?case
  proof (cases "decodeValues (Doc (fst rt))")
    case (Inl err)
    then show ?thesis
      using snoc by (simp add: record_step_def RecordReading_def good_readings_def fresh_readings_def)
  next
    case (Inr vals)
    then have "fresh_readings hs = [] \<or> good_readings hs \<noteq> []" by (auto simp: fresh_readings_def)
    with Inr snoc show ?thesis
      by (auto simp: record_step_def RecordReading_def good_readings_def fresh_readings_def Let_def)
  qed
qed

text \<open>
  The rows of the page are those of the document's members, one per key in strictly increasing
  key order, with the last member of a repeated key; anything but a single object is refused.
\<close>

theorem decode_values_rows:
  "(is_ok (decodeValues doc) \<longleftrightarrow> (\<exists>members. doc = Document (VObject members) False)) \<and>
   sorted_wrt string_less (map Key (projr (decodeValues (Document (VObject members) False)))) \<and>
   (\<forall>k s. \<lparr>Key = k, RowValue = s\<rparr> \<in> set (projr (decodeValues (Document (VObject members) False))) \<longleftrightarrow>
      (\<exists>v. map_of (rev members) k = Some v \<and> s = formatValue v))"
proof (intro conjI allI)
  let ?kvs = "sort_keys (go_map members)"
  let ?rs = "projr (decodeValues (Document (VObject members) False))"
  have rs: "?rs = map (\<lambda>kv. \<lparr>Key = fst kv, RowValue = formatValue (snd kv)\<rparr>) ?kvs"
    by (simp add: decodeValues_def case_prod_unfold)
  then have "map Key ?rs = map fst ?kvs" by (simp add: comp_def)
  with sort_keys_sorted [OF go_map_distinct(1)] show "sorted_wrt string_less (map Key ?rs)" by simp
  show "\<lparr>Key = k, RowValue = s\<rparr> \<in> set ?rs \<longleftrightarrow> (\<exists>v. map_of (rev members) k = Some v \<and> s = formatValue v)" for k s
    unfolding rs go_map_last [symmetric] by (force simp: image_iff)
  show "is_ok (decodeValues doc) \<longleftrightarrow> (\<exists>members. doc = Document (VObject members) False)"
    by (auto simp: decodeValues_def split: document.splits jvalue.splits)
qed

end
