(* ===== verification/Page.thy ===== *)
theory Page
  imports Server
begin

text \<open>
  The HTTP surface of the status server: the template of the page (\<open>internal/server/page.go\<close>) with the
  escaping \<open>html/template\<close> puts around its values, and the routes (\<open>internal/server/routes.go\<close>) under the
  rules of Go's \<open>ServeMux\<close>. A request is its method and its path; percent-escapes in the path, which the
  mux decodes segment by segment, are not modelled, and the theorem on the surface excludes them.
\<close>

section \<open>html/template\<close>

text \<open>
  The replacement table of the HTML, attribute and RCDATA escapers, which is all the template's
  contexts use: text, a quoted attribute and the title. A NUL becomes U+FFFD in UTF-8.
\<close>

definition html_entities :: "(char \<times> string) list" where
  "html_entities =
     [(CHR 0x22, ''&#34;''), (CHR ''&'', ''&amp;''), (CHR 0x27, ''&#39;''), (CHR ''+'', ''&#43;''),
      (CHR ''<'', ''&lt;''), (CHR ''>'', ''&gt;'')]"

definition html_replacement :: "char \<Rightarrow> string" where
  "html_replacement c =
     (case map_of html_entities c of
        Some e \<Rightarrow> e
      | None \<Rightarrow> if c = CHR 0x00 then [CHR 0xEF, CHR 0xBF, CHR 0xBD] else [c])"

definition html_escape :: "string \<Rightarrow> string" where
  "html_escape s = concat (map html_replacement s)"

section \<open>page.go: statusTmpl\<close>

text \<open>The lines of a part of the template, each with its line feed.\<close>

definition tmpl_lines :: "string list \<Rightarrow> string" where
  "tmpl_lines ls = concat (map (\<lambda>l. l @ [CHR 0x0A]) ls)"

definition tmpl_row :: "valueRow \<Rightarrow> string" where
  "tmpl_row r =
     tmpl_lines [''<tr><td>'' @ html_escape (Key r) @ ''</td><td>'' @ html_escape (RowValue r) @ ''</td></tr>'']"

definition statusTmpl :: "statusView \<Rightarrow> string" where
  \<open>statusTmpl v =
     tmpl_lines
       [''<!DOCTYPE html>'',
        ''<html lang="en">'',
        ''<head>'',
        ''<meta charset="utf-8">'',
        ''<meta name="viewport" content="width=device-width, initial-scale=1">'']
     @ (if Refresh v \<noteq> 0
        then tmpl_lines [''<meta http-equiv="refresh" content="'' @ html_escape (fmt_d (Refresh v)) @ ''">'']
        else [])
     @ tmpl_lines
       [''<title>'' @ html_escape (Service v) @ '' status</title>'',
        ''</head>'',
        ''<body>'',
        ''<h1>'' @ html_escape (Service v) @ ''</h1>'',
        ''<p>Status: '' @ (if view_Ready v then ''ready'' else ''not ready'') @ ''</p>'',
        ''<p>Uptime: '' @ html_escape (Uptime v) @ ''</p>'',
        ''<h2>Inverter values</h2>'']
     @ (if HaveReading v
        then
          tmpl_lines
            ['''',
             ''<p>Last reading: as of '' @ html_escape (ValuesAge v) @ '' ago</p>'']
          @ (if view_Setpoints v \<noteq> [] then tmpl_lines [''<p>'' @ html_escape (view_Setpoints v) @ ''</p>''] else [])
          @ tmpl_lines
            [''<table>'',
             ''<tr><th>Key</th><th>Value</th></tr>'']
          @ concat (map tmpl_row (Values v))
          @ tmpl_lines [''</table>'']
        else
          tmpl_lines
            ['''',
             ''<p>Last reading: no readings yet</p>''])
     @ tmpl_lines
       ['''',
        ''<h2>Schedule</h2>'',
        ''<ul>'',
        ''<li>Poll interval: '' @ html_escape (view_PollInterval v) @ ''</li>'',
        ''</ul>'',
        ''<p>Go: '' @ html_escape (GoVersion v) @ ''</p>'',
        ''</body>'',
        ''</html>'']\<close>

section \<open>routes.go\<close>

record http_response =
  resp_status :: int
  resp_headers :: "(string \<times> string) list"
  resp_body :: string

text \<open>
  \<open>cleanPath\<close> of \<open>net/http\<close>, with \<open>path.Clean\<close> of a rooted path: empty segments and \<open>.\<close> go, \<open>..\<close> takes the
  segment before it along, and a trailing slash stays.
\<close>

fun clean_segments :: "string list \<Rightarrow> string list \<Rightarrow> string list" where
  "clean_segments acc [] = rev acc"
| "clean_segments acc (s # ss) =
     (if s = [] \<or> s = ''.'' then clean_segments acc ss
      else if s = ''..'' then clean_segments (tl acc) ss
      else clean_segments (s # acc) ss)"

definition rooted :: "string list \<Rightarrow> string" where
  "rooted segs = (if segs = [] then ''/'' else concat (map (\<lambda>s. CHR ''/'' # s) segs))"

definition cleanPath :: "string \<Rightarrow> string" where
  "cleanPath p =
     (if p = [] then ''/''
      else
        (let p = (if hd p \<noteq> CHR ''/'' then CHR ''/'' # p else p);
             np = rooted (clean_segments [] (Split (CHR ''/'') p))
         in if last p = CHR ''/'' \<and> np \<noteq> ''/'' then np @ ''/'' else np))"

text \<open>A \<open>GET\<close> pattern also takes \<open>HEAD\<close>; \<open>{$}\<close> at the end of a pattern takes the path that ends there.\<close>

definition method_matches :: "string \<Rightarrow> string \<Rightarrow> bool" where
  "method_matches pat meth \<longleftrightarrow> meth = pat \<or> pat = ''GET'' \<and> meth = ''HEAD''"

definition path_matches :: "string \<Rightarrow> string \<Rightarrow> bool" where
  "path_matches pat path \<longleftrightarrow> path = (if pat = ''/{$}'' then ''/'' else pat)"

text \<open>What the mux does with a request: a handler runs, or it answers with a text of its own.\<close>

datatype 'h mux_reply = Handled 'h | RedirectTo string | MethodNotAllowed | PageNotFound

definition mux_ServeHTTP :: "(string \<times> string \<times> 'h) list \<Rightarrow> string \<Rightarrow> string \<Rightarrow> 'h mux_reply" where
  "mux_ServeHTTP routes meth path =
     (if meth \<noteq> ''CONNECT'' \<and> cleanPath path \<noteq> path then RedirectTo (cleanPath path)
      else
        (case find (\<lambda>(m, p, h). method_matches m meth \<and> path_matches p path) routes of
           Some (_, _, h) \<Rightarrow> Handled h
         | None \<Rightarrow> if list_ex (\<lambda>(m, p, h). path_matches p path) routes then MethodNotAllowed else PageNotFound))"

text \<open>What the handlers write: the page, and the two probes.\<close>

definition serve_root :: "string \<Rightarrow> Time \<Rightarrow> Server \<Rightarrow> http_response" where
  "serve_root version moment s =
     (let (code, view) = handleRoot version moment s in
      \<lparr>resp_status = code,
       resp_headers = [(''Content-Type'', ''text/html; charset=utf-8''), (''Cache-Control'', ''no-store'')],
       resp_body = statusTmpl view\<rparr>)"

definition serve_probe :: "(Server \<Rightarrow> int \<times> string) \<Rightarrow> Server \<Rightarrow> http_response" where
  "serve_probe handle s = (let (code, body) = handle s in \<lparr>resp_status = code, resp_headers = [], resp_body = body\<rparr>)"

definition addRoutes :: "string \<Rightarrow> Time \<Rightarrow> (string \<times> string \<times> (Server \<Rightarrow> http_response)) list" where
  "addRoutes version moment =
     [(''GET'', ''/{$}'', serve_root version moment),
      (''GET'', ''/healthz'', serve_probe handleLivez),
      (''GET'', ''/readyz'', serve_probe handleReadyz)]"

definition Server_Handler :: "string \<Rightarrow> Time \<Rightarrow> string \<Rightarrow> string \<Rightarrow> Server \<Rightarrow> http_response mux_reply" where
  "Server_Handler version moment meth path s =
     map_mux_reply (\<lambda>h. h s) (mux_ServeHTTP (addRoutes version moment) meth path)"

section \<open>Clean paths\<close>

lemma clean_segments_ok:
  "list_all (\<lambda>s. s \<noteq> [] \<and> s \<noteq> ''.'' \<and> s \<noteq> ''..'' \<and> CHR ''/'' \<notin> set s) acc \<Longrightarrow> list_all (\<lambda>s. CHR ''/'' \<notin> set s) ss \<Longrightarrow>
   list_all (\<lambda>s. s \<noteq> [] \<and> s \<noteq> ''.'' \<and> s \<noteq> ''..'' \<and> CHR ''/'' \<notin> set s) (clean_segments acc ss)"
proof (induction acc ss rule: clean_segments.induct)
  case (2 acc s ss)
  moreover have "list_all P (tl acc)" if "list_all P acc" for P using that by (cases acc) auto
  ultimately show ?case by auto
qed simp

lemma clean_segments_fixed:
  "list_all (\<lambda>s. s \<noteq> [] \<and> s \<noteq> ''.'' \<and> s \<noteq> ''..'') segs \<Longrightarrow> clean_segments acc (segs @ ss) = clean_segments (rev segs @ acc) ss"
  by (induction segs arbitrary: acc) auto

lemma Split_rooted:
  assumes "list_all (\<lambda>s. CHR ''/'' \<notin> set s) segs" "segs \<noteq> []"
  shows "Split (CHR ''/'') (rooted segs) = [] # segs" "Split (CHR ''/'') (rooted segs @ ''/'') = [] # segs @ [[]]"
proof -
  have "Split (CHR ''/'') (concat (map (\<lambda>s. CHR ''/'' # s) segs)) = [] # segs" using assms
  proof (induction segs)
    case (Cons s segs)
    show ?case
    proof (cases segs)
      case Nil
      then show ?thesis using Cons.prems by (simp add: Split_no_sep)
    next
      case (Cons t ts)
      then have "Split (CHR ''/'') (concat (map (\<lambda>s. CHR ''/'' # s) segs)) = [] # segs" using Cons.IH Cons.prems by simp
      then show ?thesis using Cons Cons.prems by (simp add: Split_append_sep Split_no_sep)
    qed
  qed simp
  then show 1: "Split (CHR ''/'') (rooted segs) = [] # segs" using assms(2) by (simp add: rooted_def)
  show "Split (CHR ''/'') (rooted segs @ ''/'') = [] # segs @ [[]]"
    using 1 Split_append_sep [of "CHR ''/''" "rooted segs" "[]"] by simp
qed

text \<open>One redirect is enough: a clean path is its own clean form.\<close>

lemma cleanPath_idem: "cleanPath (cleanPath p) = cleanPath p"
proof (cases "p = []")
  case False
  let ?p = "if hd p \<noteq> CHR ''/'' then CHR ''/'' # p else p"
  define segs where "segs = clean_segments [] (Split (CHR ''/'') ?p)"
  have ok: "list_all (\<lambda>s. s \<noteq> [] \<and> s \<noteq> ''.'' \<and> s \<noteq> ''..'' \<and> CHR ''/'' \<notin> set s) segs"
    unfolding segs_def by (rule clean_segments_ok) (auto simp: list_all_iff dest: Split_pieces)
  have np: "cleanPath p = (if last ?p = CHR ''/'' \<and> rooted segs \<noteq> ''/'' then rooted segs @ ''/'' else rooted segs)"
    using False by (simp add: cleanPath_def segs_def Let_def)
  show ?thesis
  proof (cases "segs = []")
    case True
    then have "cleanPath p = ''/''" using np by (simp add: rooted_def)
    then show ?thesis by (simp only:) code_simp
  next
    case nz: False
    have no: "list_all (\<lambda>s. CHR ''/'' \<notin> set s) segs" and keep: "list_all (\<lambda>s. s \<noteq> [] \<and> s \<noteq> ''.'' \<and> s \<noteq> ''..'') segs"
      using ok by (auto simp: list_all_iff)
    obtain s ss where S: "segs = ss @ [s]" using nz by (cases segs rule: rev_cases) auto
    then have "s \<noteq> []" "CHR ''/'' \<notin> set s" using ok by simp_all
    then have "last s \<noteq> CHR ''/''" using last_in_set by metis
    then have lst: "last (rooted segs) \<noteq> CHR ''/''" using S \<open>s \<noteq> []\<close> by (simp add: rooted_def)
    have hd: "rooted segs \<noteq> []" "hd (rooted segs) = CHR ''/''" "rooted segs \<noteq> ''/''"
      by (cases segs; use nz ok in \<open>simp add: rooted_def\<close>)+
    have "clean_segments [] (Split (CHR ''/'') (rooted segs)) = segs"
      "clean_segments [] (Split (CHR ''/'') (rooted segs @ ''/'')) = segs"
      using clean_segments_fixed [OF keep, of "[]" "[]"] clean_segments_fixed [OF keep, of "[]" "[[]]"]
      by (simp_all add: Split_rooted [OF no nz])
    then show ?thesis using hd lst unfolding np by (simp add: cleanPath_def Let_def)
  qed
qed (simp add: cleanPath_def, code_simp)

section \<open>Escaping\<close>

text \<open>What a browser makes of escaped text: the character references of the table read back.\<close>

definition entity_at :: "string \<Rightarrow> (char \<times> string) option" where
  "entity_at s = find (\<lambda>(c, e). take (length e) s = e) html_entities"

function html_text :: "string \<Rightarrow> string" where
  "html_text [] = []"
| "html_text (c # cs) =
     (case entity_at (c # cs) of
        None \<Rightarrow> c # html_text cs
      | Some (d, e) \<Rightarrow> d # html_text (drop (length e - 1) cs))"
  by pat_completeness auto

termination html_text
  by (relation "measure length") auto

lemma html_escape_simps [simp]:
  "html_escape [] = []" "html_escape (c # s) = html_replacement c @ html_escape s"
  "html_escape (s @ t) = html_escape s @ html_escape t"
  by (simp_all add: html_escape_def)

lemma html_text_entity: "(c, e) \<in> set html_entities \<Longrightarrow> html_text (e @ s) = c # html_text s"
  by (auto simp: html_entities_def entity_at_def)

lemma html_text_plain: "c \<noteq> CHR ''&'' \<Longrightarrow> html_text (c # s) = c # html_text s"
  by (auto simp: html_entities_def entity_at_def)

declare html_text.simps(2) [simp del]

lemma html_text_escape: "CHR 0x00 \<notin> set s \<Longrightarrow> html_text (html_escape s) = s"
proof (induction s)
  case (Cons c s)
  show ?case
  proof (cases "map_of html_entities c")
    case None
    then have "c \<noteq> CHR ''&''" by (auto simp: html_entities_def)
    then show ?thesis using Cons None by (auto simp: html_replacement_def html_text_plain)
  next
    case (Some e)
    then show ?thesis using Cons by (simp add: html_replacement_def html_text_entity [OF map_of_SomeD])
  qed
qed simp

text \<open>The characters that can open, close or quote a tag or a reference.\<close>

definition markup :: "string \<Rightarrow> string" where
  "markup s = filter (\<lambda>c. c \<in> {CHR ''<'', CHR ''>'', CHR 0x22, CHR 0x27}) s"

lemma markup_simps [simp]:
  "markup [] = []" "markup (s @ t) = markup s @ markup t"
  "markup (c # s) = (if c \<in> {CHR ''<'', CHR ''>'', CHR 0x22, CHR 0x27} then c # markup s else markup s)"
  by (simp_all add: markup_def)

lemma markup_concat: "markup (concat xs) = concat (map markup xs)"
  by (induction xs) simp_all

lemma markup_escape [simp]: "markup (html_escape s) = []"
proof (induction s)
  case (Cons c s)
  have "markup (html_replacement c) = []"
    by (auto simp: html_replacement_def html_entities_def)
  with Cons show ?case by simp
qed simp

lemma markup_lines: "markup (tmpl_lines ls) = concat (map markup ls)"
  by (simp add: tmpl_lines_def markup_concat comp_def)

text \<open>The view with every text emptied: what is left is which parts of the page there are.\<close>

definition skeleton :: "statusView \<Rightarrow> statusView" where
  "skeleton v =
     \<lparr>Service = [], view_Ready = False, Uptime = [], GoVersion = [], view_PollInterval = [],
      Refresh = (if Refresh v = 0 then 0 else 1), HaveReading = HaveReading v, ValuesAge = [],
      view_Setpoints = (if view_Setpoints v = [] then [] else ''x''),
      Values = map (\<lambda>_. \<lparr>Key = [], RowValue = []\<rparr>) (Values v)\<rparr>"

lemma markup_row: "markup (tmpl_row r) = markup (tmpl_row \<lparr>Key = [], RowValue = []\<rparr>)"
  by (simp add: tmpl_row_def markup_lines)

section \<open>Properties\<close>

text \<open>
  C39: no value can add markup to the page: its angle brackets and quotes are those of the page with
  every text emptied, whatever the values, the version or the state document's keys contain; and a
  browser reads from an escaped text without NULs the text itself.
\<close>

theorem page_injection_free:
  "markup (statusTmpl v) = markup (statusTmpl (skeleton v)) \<and>
   html_text (html_escape (filter (\<lambda>c. c \<noteq> CHR 0x00) s)) = filter (\<lambda>c. c \<noteq> CHR 0x00) s"
proof
  have rows: "map (\<lambda>r. markup (tmpl_row r)) rs = map (\<lambda>r. markup (tmpl_row \<lparr>Key = [], RowValue = []\<rparr>)) rs" for rs
    by (rule map_cong [OF refl markup_row])
  show "markup (statusTmpl v) = markup (statusTmpl (skeleton v))"
    by (simp add: statusTmpl_def skeleton_def markup_lines markup_concat comp_def rows)
  show "html_text (html_escape (filter (\<lambda>c. c \<noteq> CHR 0x00) s)) = filter (\<lambda>c. c \<noteq> CHR 0x00) s"
    by (rule html_text_escape) simp
qed

text \<open>
  The HTTP surface is the root page and the two probes, for GET and HEAD: the page and the liveness
  probe answer 200, the readiness probe 200 exactly when the server is ready and 503 otherwise, another
  method on these paths is not allowed and every other path is not found. A path that is not clean is
  redirected to its clean form, which is never redirected again; none of this changes the server.
\<close>

theorem http_surface:
  assumes "CHR ''%'' \<notin> set path"
  shows "map_mux_reply resp_status (Server_Handler version moment meth path s) =
     (if meth \<noteq> ''CONNECT'' \<and> cleanPath path \<noteq> path then RedirectTo (cleanPath path)
      else if path \<in> {''/'', ''/healthz'', ''/readyz''}
      then (if meth \<in> {''GET'', ''HEAD''} then Handled (if path = ''/readyz'' \<and> \<not> Ready s then 503 else 200) else MethodNotAllowed)
      else PageNotFound) \<and>
   cleanPath (cleanPath path) = cleanPath path \<and>
   map_mux_reply resp_body (Server_Handler version moment ''GET'' ''/'' s) = Handled (statusTmpl (snd (handleRoot version moment s)))"
proof -
  have "fst (handleRoot version moment s) = 200" by (simp add: handleRoot_def snapshot_def Let_def)
  moreover have "cleanPath ''/'' = ''/''" by code_simp
  ultimately show ?thesis
    by (auto simp: cleanPath_idem Server_Handler_def mux_ServeHTTP_def addRoutes_def method_matches_def path_matches_def serve_root_def
        serve_probe_def handleLivez_def handleReadyz_def Let_def case_prod_unfold)
qed

theorem http_surface_witness:
  "map_mux_reply resp_status (Server_Handler ''go1.27'' Time_zero ''GET'' ''/x/../readyz''
     (Server_New \<lparr>FailureThreshold = 3, server_PollInterval = 60 * Second\<rparr> Time_zero)) = RedirectTo ''/readyz''"
proof -
  have "cleanPath ''/x/../readyz'' = ''/readyz''" by code_simp
  then show ?thesis using http_surface [of "''/x/../readyz''" "''go1.27''" Time_zero "''GET''"] by simp
qed

end
