(* ===== verification/Registers.thy ===== *)
theory Registers
  imports GoStrings
begin

text \<open>
  The register map (\<open>internal/inverter/registers.go\<close>): absolute Modbus addresses of the input
  bank (fc04) and the holding bank (fc03/fc06), one constant each. \<open>reg_simps\<close> turns them into
  numerals.
\<close>

definition RegRTCRead :: int where [reg_simps]: "RegRTCRead = 33022"
definition RegGenerationToday :: int where [reg_simps]: "RegGenerationToday = 33035"
definition RegGenerationYesterday :: int where [reg_simps]: "RegGenerationYesterday = 33036"
definition RegPV1Voltage :: int where [reg_simps]: "RegPV1Voltage = 33049"
definition RegPV1Current :: int where [reg_simps]: "RegPV1Current = 33050"
definition RegPV2Voltage :: int where [reg_simps]: "RegPV2Voltage = 33051"
definition RegPV2Current :: int where [reg_simps]: "RegPV2Current = 33052"
definition RegTotalPVPower :: int where [reg_simps]: "RegTotalPVPower = 33057"
definition RegACActivePower :: int where [reg_simps]: "RegACActivePower = 33079"
definition RegInverterTemperature :: int where [reg_simps]: "RegInverterTemperature = 33093"
definition RegGridFrequency :: int where [reg_simps]: "RegGridFrequency = 33094"
definition RegInverterStatus :: int where [reg_simps]: "RegInverterStatus = 33095"
definition RegOperatingStatus :: int where [reg_simps]: "RegOperatingStatus = 33121"
definition RegGridPower :: int where [reg_simps]: "RegGridPower = 33130"
definition RegWorkModeReadback :: int where [reg_simps]: "RegWorkModeReadback = 33132"
definition RegBatteryVoltage :: int where [reg_simps]: "RegBatteryVoltage = 33133"
definition RegBatteryCurrent :: int where [reg_simps]: "RegBatteryCurrent = 33134"
definition RegBatteryDirection :: int where [reg_simps]: "RegBatteryDirection = 33135"
definition RegBatterySOC :: int where [reg_simps]: "RegBatterySOC = 33139"
definition RegBatterySOH :: int where [reg_simps]: "RegBatterySOH = 33140"
definition RegBMSBatteryVoltage :: int where [reg_simps]: "RegBMSBatteryVoltage = 33141"
definition RegBMSBatteryCurrent :: int where [reg_simps]: "RegBMSBatteryCurrent = 33142"
definition RegBMSChargeCurrentLimit :: int where [reg_simps]: "RegBMSChargeCurrentLimit = 33143"
definition RegBMSDischargeCurrentLimit :: int where [reg_simps]: "RegBMSDischargeCurrentLimit = 33144"
definition RegBMSFault1 :: int where [reg_simps]: "RegBMSFault1 = 33145"
definition RegBMSFault2 :: int where [reg_simps]: "RegBMSFault2 = 33146"
definition RegHouseLoadPower :: int where [reg_simps]: "RegHouseLoadPower = 33147"
definition RegBatteryPower :: int where [reg_simps]: "RegBatteryPower = 33149"
definition RegBatteryTotalChargeEnergy :: int where [reg_simps]: "RegBatteryTotalChargeEnergy = 33161"
definition RegBatteryChargeToday :: int where [reg_simps]: "RegBatteryChargeToday = 33163"
definition RegBatteryTotalDischargeEnergy :: int where [reg_simps]: "RegBatteryTotalDischargeEnergy = 33165"
definition RegBatteryDischargeToday :: int where [reg_simps]: "RegBatteryDischargeToday = 33167"
definition RegGridTotalImportEnergy :: int where [reg_simps]: "RegGridTotalImportEnergy = 33169"
definition RegGridImportToday :: int where [reg_simps]: "RegGridImportToday = 33171"
definition RegGridTotalExportEnergy :: int where [reg_simps]: "RegGridTotalExportEnergy = 33173"
definition RegGridExportToday :: int where [reg_simps]: "RegGridExportToday = 33175"
definition RegOverdischargeSOC :: int where [reg_simps]: "RegOverdischargeSOC = 33213"
definition RegForceChargeSOC :: int where [reg_simps]: "RegForceChargeSOC = 33214"
definition RegRTCSet :: int where [reg_simps]: "RegRTCSet = 43000"
definition RegMinSOC :: int where [reg_simps]: "RegMinSOC = 43011"
definition RegForceChargeSOCSetting :: int where [reg_simps]: "RegForceChargeSOCSetting = 43018"
definition RegWorkMode :: int where [reg_simps]: "RegWorkMode = 43110"
definition RegChargeDischargeEnable :: int where [reg_simps]: "RegChargeDischargeEnable = 43114"
definition RegChargeDischargeDirection :: int where [reg_simps]: "RegChargeDischargeDirection = 43115"
definition RegInstantCurrent :: int where [reg_simps]: "RegInstantCurrent = 43116"
definition RegMaxChargeCurrent :: int where [reg_simps]: "RegMaxChargeCurrent = 43117"
definition RegMaxDischargeCurrent :: int where [reg_simps]: "RegMaxDischargeCurrent = 43118"
definition RegTimedChargeCurrent :: int where [reg_simps]: "RegTimedChargeCurrent = 43141"
definition RegTimedDischargeCurrent :: int where [reg_simps]: "RegTimedDischargeCurrent = 43142"
definition RegTimedChargeStartHour :: int where [reg_simps]: "RegTimedChargeStartHour = 43143"
definition RegTimedChargeStartMinute :: int where [reg_simps]: "RegTimedChargeStartMinute = 43144"
definition RegTimedChargeEndHour :: int where [reg_simps]: "RegTimedChargeEndHour = 43145"
definition RegTimedChargeEndMinute :: int where [reg_simps]: "RegTimedChargeEndMinute = 43146"
definition RegTimedDischargeStartHour :: int where [reg_simps]: "RegTimedDischargeStartHour = 43147"
definition RegTimedDischargeStartMin :: int where [reg_simps]: "RegTimedDischargeStartMin = 43148"
definition RegTimedDischargeEndHour :: int where [reg_simps]: "RegTimedDischargeEndHour = 43149"
definition RegTimedDischargeEndMin :: int where [reg_simps]: "RegTimedDischargeEndMin = 43150"
definition RegTimedSlotStride :: int where [reg_simps]: "RegTimedSlotStride = 10"
definition RegTimedSlot2Base :: int where [reg_simps]: "RegTimedSlot2Base = RegTimedChargeCurrent + RegTimedSlotStride"
definition RegTimedSlot3Base :: int where [reg_simps]: "RegTimedSlot3Base = RegTimedChargeCurrent + 2 * RegTimedSlotStride"
definition rtcRegisterCount :: nat where [reg_simps]: "rtcRegisterCount = 6"

end
