(* ===== verification/Blocks.thy ===== *)
theory Blocks
  imports Registers
begin

text \<open>
  \<open>internal/inverter/block.go\<close>: raw register blocks and snapshots. A \<open>Block\<close> is a slice of
  words keyed by the absolute address of its first word, a \<open>Snapshot\<close> the blocks of one poll;
  every read is resolved by absolute address and an address no block covers is
  \<^const>\<open>ErrRegisterOutOfRange\<close>.
\<close>

section \<open>Definitions\<close>

record Block =
  Base :: int
  Regs :: "u16 list"

definition index :: "Block \<Rightarrow> int \<Rightarrow> (int \<times> bool)" where
  "index b addr = (let i = addr - Base b in
     if i < 0 \<or> i \<ge> int (length (Regs b)) then (0, False) else (i, True))"

definition contains :: "Block \<Rightarrow> int \<Rightarrow> bool" where
  "contains b addr = snd (index b addr)"

text \<open>The second result of the Go function (\<open>ok\<close>) is whether this is \<^const>\<open>Some\<close>.\<close>

definition regAt :: "u16 list \<Rightarrow> int \<Rightarrow> int \<Rightarrow> u16 option" where
  "regAt regs base addr = (let i = addr - base in
     if i < 0 \<or> i \<ge> int (length regs) then None else Some (regs ! nat i))"

definition u16 :: "u16 list \<Rightarrow> int \<Rightarrow> int \<Rightarrow> u16 option" where
  "u16 regs base addr = regAt regs base addr"

text \<open>\<open>int16(v)\<close> keeps the bits; the value is read with \<^const>\<open>sint\<close>.\<close>

definition s16 :: "u16 list \<Rightarrow> int \<Rightarrow> int \<Rightarrow> i16 option" where
  "s16 regs base addr = regAt regs base addr"

definition u32 :: "u16 list \<Rightarrow> int \<Rightarrow> int \<Rightarrow> u32 option" where
  "u32 regs base addr =
     (case regAt regs base addr of
        None \<Rightarrow> None
      | Some hi \<Rightarrow>
          (case regAt regs base (addr + 1) of
             None \<Rightarrow> None
           | Some lo \<Rightarrow> Some (push_bit 16 (ucast hi) OR ucast lo)))"

definition s32 :: "u16 list \<Rightarrow> int \<Rightarrow> int \<Rightarrow> i32 option" where
  "s32 regs base addr = u32 regs base addr"

text \<open>The exported methods: a missing word is an error that names the read.\<close>

definition or_out_of_range :: "string \<Rightarrow> int \<Rightarrow> 'a option \<Rightarrow> 'a result" where
  "or_out_of_range verb addr r =
     (case r of
        None \<Rightarrow> Inl (Wrap (verb @ fmt_d addr) ErrRegisterOutOfRange)
      | Some v \<Rightarrow> Inr v)"

definition Block_U16 :: "Block \<Rightarrow> int \<Rightarrow> u16 result" where
  "Block_U16 b addr = or_out_of_range ''u16 '' addr (u16 (Regs b) (Base b) addr)"

definition Block_S16 :: "Block \<Rightarrow> int \<Rightarrow> i16 result" where
  "Block_S16 b addr = or_out_of_range ''s16 '' addr (s16 (Regs b) (Base b) addr)"

definition Block_U32 :: "Block \<Rightarrow> int \<Rightarrow> u32 result" where
  "Block_U32 b addr = or_out_of_range ''u32 '' addr (u32 (Regs b) (Base b) addr)"

definition Block_S32 :: "Block \<Rightarrow> int \<Rightarrow> i32 result" where
  "Block_S32 b addr = or_out_of_range ''s32 '' addr (s32 (Regs b) (Base b) addr)"

type_synonym Snapshot = "Block list"

fun block :: "Snapshot \<Rightarrow> int \<Rightarrow> Block option" where
  "block [] addr = None"
| "block (b # s) addr = (if contains b addr then Some b else block s addr)"

definition Snapshot_U16 :: "Snapshot \<Rightarrow> int \<Rightarrow> u16 result" where
  "Snapshot_U16 s addr =
     (case block s addr of
        None \<Rightarrow> Inl (Wrap (''u16 '' @ fmt_d addr) ErrRegisterOutOfRange)
      | Some b \<Rightarrow> Block_U16 b addr)"

definition Snapshot_S16 :: "Snapshot \<Rightarrow> int \<Rightarrow> i16 result" where
  "Snapshot_S16 s addr =
     (case block s addr of
        None \<Rightarrow> Inl (Wrap (''s16 '' @ fmt_d addr) ErrRegisterOutOfRange)
      | Some b \<Rightarrow> Block_S16 b addr)"

definition Snapshot_U32 :: "Snapshot \<Rightarrow> int \<Rightarrow> u32 result" where
  "Snapshot_U32 s addr =
     (case block s addr of
        None \<Rightarrow> Inl (Wrap (''u32 '' @ fmt_d addr) ErrRegisterOutOfRange)
      | Some b \<Rightarrow> Block_U32 b addr)"

definition Snapshot_S32 :: "Snapshot \<Rightarrow> int \<Rightarrow> i32 result" where
  "Snapshot_S32 s addr =
     (case block s addr of
        None \<Rightarrow> Inl (Wrap (''s32 '' @ fmt_d addr) ErrRegisterOutOfRange)
      | Some b \<Rightarrow> Block_S32 b addr)"

section \<open>Lemmas\<close>

lemma contains_iff: "contains b addr \<longleftrightarrow> Base b \<le> addr \<and> addr < Base b + int (length (Regs b))"
  by (auto simp: contains_def index_def Let_def)

lemma regAt_block: "contains b addr \<Longrightarrow> regAt (Regs b) (Base b) addr = Some (Regs b ! nat (addr - Base b))"
  by (auto simp: contains_iff regAt_def Let_def)

lemma regAt_None_iff: "regAt (Regs b) (Base b) addr = None \<longleftrightarrow> \<not> contains b addr"
  by (auto simp: contains_iff regAt_def Let_def)

lemma regAt_shift: "0 \<le> i \<Longrightarrow> i < int (length regs) \<Longrightarrow> regAt regs base (base + i) = Some (regs ! nat i)"
  by (simp add: regAt_def)

lemma block_SomeD: "block s addr = Some b \<Longrightarrow> b \<in> set s \<and> contains b addr"
  by (induction s) (auto split: if_splits)

lemma block_None_iff: "block s addr = None \<longleftrightarrow> (\<forall>b \<in> set s. \<not> contains b addr)"
  by (induction s) auto

lemma Snapshot_U16_Some:
  "block s addr = Some b \<Longrightarrow> Snapshot_U16 s addr = Inr (Regs b ! nat (addr - Base b))"
  by (auto dest: block_SomeD simp: Snapshot_U16_def Block_U16_def u16_def or_out_of_range_def regAt_block)

lemma Snapshot_S16_eq_U16: "block s addr = Some b \<Longrightarrow> Snapshot_S16 s addr = Snapshot_U16 s addr"
  by (auto dest: block_SomeD
      simp: Snapshot_U16_def Snapshot_S16_def Block_U16_def Block_S16_def u16_def s16_def
        or_out_of_range_def regAt_block)

lemma Snapshot_U16_ok_iff: "is_ok (Snapshot_U16 s addr) \<longleftrightarrow> (\<exists>b \<in> set s. contains b addr)"
proof (cases "block s addr")
  case None
  then show ?thesis using block_None_iff [of s addr] by (auto simp: Snapshot_U16_def)
next
  case (Some b)
  with block_SomeD [OF Some] show ?thesis by (auto simp: Snapshot_U16_Some)
qed

text \<open>Two words, most significant first, as one number.\<close>

lemma word32_of_halves:
  fixes hi lo :: u16
  shows "uint (push_bit 16 (ucast hi) OR ucast lo :: u32) = 65536 * uint hi + uint lo"
proof -
  have disj: "push_bit 16 (ucast hi :: u32) AND ucast lo = 0"
    by (rule bit_word_eqI) (auto simp: bit_simps dest: bit_imp_le_length)
  have sum: "push_bit 16 (ucast hi) OR ucast lo = (push_bit 16 (ucast hi) + ucast lo :: u32)"
    by (simp only: disjunctive_add_eq_or [OF disj])
  have "uint lo < 65536" "uint hi < 65536"
    using unsigned_less [of lo, where 'a = int] unsigned_less [of hi, where 'a = int] by simp_all
  then show ?thesis unfolding sum
    by (simp add: push_bit_eq_mult uint_word_ariths unsigned_ucast_eq take_bit_eq_mod)
qed

lemma uint_u16_bounds: "0 \<le> uint (w :: u16)" "uint (w :: u16) < 65536"
  using unsigned_less [of w, where 'a = int] by simp_all

lemma uint_u32_bounds: "0 \<le> uint (w :: u32)" "uint (w :: u32) < 4294967296"
  using unsigned_less [of w, where 'a = int] by simp_all

lemma half_shift_mod:
  fixes u m :: int
  assumes "0 \<le> u" "u < 2 * m"
  shows "(u + m) mod (2 * m) = (if u < m then u + m else u - m)"
proof (cases "u < m")
  case True
  with assms show ?thesis by simp
next
  case False
  have "u + m = u - m + 2 * m" by simp
  then have "(u + m) mod (2 * m) = (u - m + 2 * m) mod (2 * m)" by (rule arg_cong)
  also have "\<dots> = (u - m) mod (2 * m)" by (rule mod_add_self2)
  also have "\<dots> = u - m" using False assms by (intro mod_pos_pos_trivial) auto
  finally show ?thesis using False by simp
qed

lemma sint_u16_cases: "sint (w :: u16) = (if uint w < 32768 then uint w else uint w - 65536)"
proof -
  have "sint w = (uint w + 32768) mod 65536 - 32768"
    by (simp add: sint_uint signed_take_bit_eq_take_bit_shift take_bit_eq_mod)
  with uint_u16_bounds [of w] half_shift_mod [of "uint w" 32768] show ?thesis by simp
qed

lemma sint_u32_cases: "sint (w :: u32) = (if uint w < 2147483648 then uint w else uint w - 4294967296)"
proof -
  have "sint w = (uint w + 2147483648) mod 4294967296 - 2147483648"
    by (simp add: sint_uint signed_take_bit_eq_take_bit_shift take_bit_eq_mod)
  with uint_u32_bounds [of w] half_shift_mod [of "uint w" 2147483648] show ?thesis by simp
qed

lemma sint_of_halves:
  fixes hi lo :: u16
  shows "sint (push_bit 16 (ucast hi) OR ucast lo :: u32) = 65536 * sint hi + uint lo"
proof (cases "uint hi < 32768")
  case True
  then have "65536 * uint hi + uint lo < 2147483648" using uint_u16_bounds [of lo] by linarith
  with True show ?thesis by (simp add: sint_u32_cases sint_u16_cases word32_of_halves)
next
  case False
  then have "\<not> 65536 * uint hi + uint lo < 2147483648" using uint_u16_bounds [of lo] by linarith
  with False show ?thesis by (simp add: sint_u32_cases sint_u16_cases word32_of_halves)
qed

lemma Snapshot_U32_Some:
  assumes "block s addr = Some b" "contains b (addr + 1)"
  shows "Snapshot_U32 s addr =
    Inr (push_bit 16 (ucast (Regs b ! nat (addr - Base b))) OR ucast (Regs b ! nat (addr + 1 - Base b)))"
  using assms block_SomeD [OF assms(1)]
  by (simp add: Snapshot_U32_def Block_U32_def u32_def or_out_of_range_def regAt_block)

lemma Snapshot_U32_None:
  assumes "block s addr = Some b" "\<not> contains b (addr + 1)"
  shows "Snapshot_U32 s addr = Inl (Wrap (''u32 '' @ fmt_d addr) ErrRegisterOutOfRange)"
  using assms block_SomeD [OF assms(1)] regAt_None_iff [of b "addr + 1"]
  by (simp add: Snapshot_U32_def Block_U32_def u32_def or_out_of_range_def regAt_block)

lemma Snapshot_S32_None:
  assumes "block s addr = Some b" "\<not> contains b (addr + 1)"
  shows "Snapshot_S32 s addr = Inl (Wrap (''s32 '' @ fmt_d addr) ErrRegisterOutOfRange)"
  using assms block_SomeD [OF assms(1)] regAt_None_iff [of b "addr + 1"]
  by (simp add: Snapshot_S32_def Block_S32_def s32_def u32_def or_out_of_range_def regAt_block)

lemma Snapshot_S32_Some:
  assumes "block s addr = Some b" "contains b (addr + 1)"
  shows "Snapshot_S32 s addr = Snapshot_U32 s addr"
  using assms block_SomeD [OF assms(1)]
  by (simp add: Snapshot_S32_def Block_S32_def s32_def u32_def Snapshot_U32_def Block_U32_def
      or_out_of_range_def regAt_block)

section \<open>Properties\<close>

text \<open>
  A 32-bit value of a snapshot is the big-endian join of the word at its address, as the 16-bit
  reader returns it, and the next word of the same block: unsigned \<open>65536 * hi + lo\<close>, and in two's
  complement with the sign of the high word. Where the block that covers the address ends before the
  second word both readers report \<open>ErrRegisterOutOfRange\<close>.
\<close>

theorem snapshot_u32_s32:
  assumes "block s addr = Some b"
  shows "if contains b (addr + 1)
    then \<exists>v hi. Snapshot_U32 s addr = Inr v \<and> Snapshot_S32 s addr = Inr v \<and> Snapshot_U16 s addr = Inr hi \<and>
      uint v = 65536 * uint hi + uint (Regs b ! nat (addr + 1 - Base b)) \<and>
      sint v = 65536 * sint hi + uint (Regs b ! nat (addr + 1 - Base b))
    else Snapshot_U32 s addr = Inl (Wrap (''u32 '' @ fmt_d addr) ErrRegisterOutOfRange) \<and>
      Snapshot_S32 s addr = Inl (Wrap (''s32 '' @ fmt_d addr) ErrRegisterOutOfRange)"
proof (cases "contains b (addr + 1)")
  case True
  with assms show ?thesis
    by (simp add: Snapshot_U32_Some Snapshot_S32_Some Snapshot_U16_Some word32_of_halves sint_of_halves)
next
  case False
  with assms show ?thesis by (simp add: Snapshot_U32_None Snapshot_S32_None)
qed

theorem snapshot_u32_s32_witness:
  "\<exists>v. Snapshot_S32 [\<lparr>Base = 33130, Regs = [0xFFFF, 0xFFF6, 7]\<rparr>] 33130 = Inr v \<and> sint v = - 10"
  using snapshot_u32_s32 [of "[\<lparr>Base = 33130, Regs = [0xFFFF, 0xFFF6, 7]\<rparr>]" 33130
      "\<lparr>Base = 33130, Regs = [0xFFFF, 0xFFF6, 7]\<rparr>"]
  by (auto simp: contains_iff Snapshot_U16_def Block_U16_def u16_def or_out_of_range_def regAt_def)

end
