(* ===== verification/TimedSlots.thy ===== *)
theory TimedSlots
  imports Blocks
begin

text \<open>
  \<open>internal/inverter/schedule.go\<close>: clocks, timed windows and the three timed slots, their decoding
  from a holding snapshot, the strict \<open>HH:MM\<close> parser, and the expansion of a slot into the register
  writes that program it.
\<close>

section \<open>Definitions\<close>

definition maxHour :: nat where "maxHour = 23"
definition maxMinute :: nat where "maxMinute = 59"

record Clock =
  Hour :: u8
  Minute :: u8

definition Clock_String :: "Clock \<Rightarrow> string" where
  "Clock_String c = fmt_02d (unat (Hour c)) @ '':'' @ fmt_02d (unat (Minute c))"

abbreviation Clock_zero :: Clock where
  "Clock_zero \<equiv> \<lparr>Hour = 0, Minute = 0\<rparr>"

record TimedWindow =
  Start :: Clock
  End :: Clock

abbreviation TimedWindow_zero :: TimedWindow where
  "TimedWindow_zero \<equiv> \<lparr>Start = Clock_zero, End = Clock_zero\<rparr>"

definition IsZero :: "TimedWindow \<Rightarrow> bool" where
  "IsZero w \<longleftrightarrow> w = TimedWindow_zero"

record TimedSlot =
  Charge :: TimedWindow
  Discharge :: TimedWindow

abbreviation TimedSlot_zero :: TimedSlot where
  "TimedSlot_zero \<equiv> \<lparr>Charge = TimedWindow_zero, Discharge = TimedWindow_zero\<rparr>"

text \<open>The array \<open>[3]TimedSlot\<close>: a record with one field per element, in register order.\<close>

record TimedSlots =
  Slot0 :: TimedSlot
  Slot1 :: TimedSlot
  Slot2 :: TimedSlot

record timedWindowOffsets =
  startHour :: int
  startMinute :: int
  endHour :: int
  endMinute :: int

definition timedChargeOffsets :: timedWindowOffsets where
  "timedChargeOffsets =
     \<lparr>startHour = RegTimedChargeStartHour - RegTimedChargeCurrent,
      startMinute = RegTimedChargeStartMinute - RegTimedChargeCurrent,
      endHour = RegTimedChargeEndHour - RegTimedChargeCurrent,
      endMinute = RegTimedChargeEndMinute - RegTimedChargeCurrent\<rparr>"

definition timedDischargeOffsets :: timedWindowOffsets where
  "timedDischargeOffsets =
     \<lparr>startHour = RegTimedDischargeStartHour - RegTimedChargeCurrent,
      startMinute = RegTimedDischargeStartMin - RegTimedChargeCurrent,
      endHour = RegTimedDischargeEndHour - RegTimedChargeCurrent,
      endMinute = RegTimedDischargeEndMin - RegTimedChargeCurrent\<rparr>"

definition timedSlotBase :: "int \<Rightarrow> int" where
  "timedSlotBase i = RegTimedChargeCurrent + i * RegTimedSlotStride"

definition decodeClock :: "Snapshot \<Rightarrow> int \<Rightarrow> int \<Rightarrow> Clock result" where
  "decodeClock s hourAddr minuteAddr =
     (case Snapshot_U16 s hourAddr of
        Inl err \<Rightarrow> Inl err
      | Inr hour \<Rightarrow>
          (case Snapshot_U16 s minuteAddr of
             Inl err \<Rightarrow> Inl err
           | Inr minute \<Rightarrow>
               if unat hour > maxHour \<or> unat minute > maxMinute
               then Inl (Errorf (''clock '' @ fmt_nat (unat hour) @ '':'' @ fmt_nat (unat minute)
                      @ '' (registers '' @ fmt_d hourAddr @ ''/'' @ fmt_d minuteAddr
                      @ '') out of range''))
               else Inr \<lparr>Hour = ucast hour, Minute = ucast minute\<rparr>))"

definition decodeTimedWindow :: "Snapshot \<Rightarrow> int \<Rightarrow> timedWindowOffsets \<Rightarrow> TimedWindow result" where
  "decodeTimedWindow s base off =
     (case decodeClock s (base + startHour off) (base + startMinute off) of
        Inl err \<Rightarrow> Inl (Wrap ''start'' err)
      | Inr start \<Rightarrow>
          (case decodeClock s (base + endHour off) (base + endMinute off) of
             Inl err \<Rightarrow> Inl (Wrap ''end'' err)
           | Inr en \<Rightarrow> Inr \<lparr>Start = start, End = en\<rparr>))"

text \<open>The body of the loop of \<open>DecodeTimedSlots\<close> for one index.\<close>

definition decodeTimedSlot :: "Snapshot \<Rightarrow> int \<Rightarrow> TimedSlot result" where
  "decodeTimedSlot s i =
     (let base = timedSlotBase i in
      case decodeTimedWindow s base timedChargeOffsets of
        Inl err \<Rightarrow> Inl (Wrap (''timed slot '' @ fmt_d (i + 1) @ '' charge'') err)
      | Inr charge \<Rightarrow>
          (case decodeTimedWindow s base timedDischargeOffsets of
             Inl err \<Rightarrow> Inl (Wrap (''timed slot '' @ fmt_d (i + 1) @ '' discharge'') err)
           | Inr discharge \<Rightarrow> Inr \<lparr>Charge = charge, Discharge = discharge\<rparr>))"

definition DecodeTimedSlots :: "Snapshot \<Rightarrow> TimedSlots result" where
  "DecodeTimedSlots s =
     (case decodeTimedSlot s 0 of
        Inl err \<Rightarrow> Inl err
      | Inr s0 \<Rightarrow>
          (case decodeTimedSlot s 1 of
             Inl err \<Rightarrow> Inl err
           | Inr s1 \<Rightarrow>
               (case decodeTimedSlot s 2 of
                  Inl err \<Rightarrow> Inl err
                | Inr s2 \<Rightarrow> Inr \<lparr>Slot0 = s0, Slot1 = s1, Slot2 = s2\<rparr>)))"

definition ParseClock :: "string \<Rightarrow> Clock result" where
  "ParseClock s =
     (if length s \<noteq> 5 \<or> s ! 2 \<noteq> CHR '':'' then Inl (Errorf (''invalid clock '' @ fmt_q s @ '': want HH:MM''))
      else case ParseUint (take 2 s) 8 of
        Inl err \<Rightarrow> Inl (Wrap (''invalid clock '' @ fmt_q s) err)
      | Inr hour \<Rightarrow>
          (case ParseUint (drop 3 s) 8 of
             Inl err \<Rightarrow> Inl (Wrap (''invalid clock '' @ fmt_q s) err)
           | Inr minute \<Rightarrow>
               if hour > maxHour \<or> minute > maxMinute
               then Inl (Errorf (''invalid clock '' @ fmt_q s @ '': out of range''))
               else Inr \<lparr>Hour = of_nat hour, Minute = of_nat minute\<rparr>))"

record Register =
  Addr :: int
  Value :: u16

definition timedWindowRegisters :: "int \<Rightarrow> timedWindowOffsets \<Rightarrow> TimedWindow \<Rightarrow> Register list" where
  "timedWindowRegisters base off w =
     [\<lparr>Addr = base + startHour off, Value = ucast (Hour (Start w))\<rparr>,
      \<lparr>Addr = base + startMinute off, Value = ucast (Minute (Start w))\<rparr>,
      \<lparr>Addr = base + endHour off, Value = ucast (Hour (End w))\<rparr>,
      \<lparr>Addr = base + endMinute off, Value = ucast (Minute (End w))\<rparr>]"

definition TimedSlotWriteRegisters :: "int \<Rightarrow> TimedSlot \<Rightarrow> Register list result" where
  "TimedSlotWriteRegisters i slot =
     (if i < 0 \<or> i > 2
      then Inl (Panic (''inverter: TimedSlotWriteRegisters: slot index '' @ fmt_d i
             @ '' out of range [0,2]''))
      else
        (let base = timedSlotBase i;
             charge = timedWindowRegisters base timedChargeOffsets (Charge slot);
             discharge = timedWindowRegisters base timedDischargeOffsets (Discharge slot)
         in if \<not> IsZero (Charge slot) \<and> IsZero (Discharge slot)
            then Inr (discharge @ charge)
            else Inr (charge @ discharge)))"

section \<open>Well-formed clocks, windows and slots\<close>

definition valid_clock :: "Clock \<Rightarrow> bool" where
  "valid_clock c \<longleftrightarrow> unat (Hour c) \<le> maxHour \<and> unat (Minute c) \<le> maxMinute"

definition valid_window :: "TimedWindow \<Rightarrow> bool" where
  "valid_window w \<longleftrightarrow> valid_clock (Start w) \<and> valid_clock (End w)"

definition valid_slot :: "TimedSlot \<Rightarrow> bool" where
  "valid_slot s \<longleftrightarrow> valid_window (Charge s) \<and> valid_window (Discharge s)"

definition valid_slots :: "TimedSlots \<Rightarrow> bool" where
  "valid_slots s \<longleftrightarrow> valid_slot (Slot0 s) \<and> valid_slot (Slot1 s) \<and> valid_slot (Slot2 s)"

section \<open>Register banks\<close>

text \<open>
  A bank of holding registers is a function from addresses to words. \<open>bank_block\<close> is the block a
  read of \<open>n\<close> registers from \<open>base\<close> returns; \<open>apply_regs\<close> is a bank after a list of single-register
  writes, in order.
\<close>

type_synonym bank = "int \<Rightarrow> u16"

definition bank_read :: "bank \<Rightarrow> int \<Rightarrow> nat \<Rightarrow> u16 list" where
  "bank_read bk base n = map (\<lambda>i. bk (base + int i)) [0..<n]"

definition bank_block :: "bank \<Rightarrow> int \<Rightarrow> nat \<Rightarrow> Block" where
  "bank_block bk base n = \<lparr>Base = base, Regs = bank_read bk base n\<rparr>"

fun apply_regs :: "Register list \<Rightarrow> bank \<Rightarrow> bank" where
  "apply_regs [] bk = bk"
| "apply_regs (r # rs) bk = apply_regs rs (bk(Addr r := Value r))"

text \<open>\<open>slots[i] = slot\<close> on the array of slots, for an index in range.\<close>

definition set_slot :: "TimedSlots \<Rightarrow> int \<Rightarrow> TimedSlot \<Rightarrow> TimedSlots" where
  "set_slot slots i slot =
     (if i = 0 then slots\<lparr>Slot0 := slot\<rparr> else if i = 1 then slots\<lparr>Slot1 := slot\<rparr>
      else slots\<lparr>Slot2 := slot\<rparr>)"

section \<open>Lemmas\<close>

subsection \<open>Clocks and their text\<close>

lemma valid_zero [simp]: "valid_clock Clock_zero" "valid_window TimedWindow_zero" "valid_slot TimedSlot_zero"
  by (simp_all add: valid_clock_def valid_window_def valid_slot_def)

lemma IsZero_zero [simp]: "IsZero TimedWindow_zero"
  by (simp add: IsZero_def)

lemma ParseUint_two:
  assumes "ParseUint [c, d] 8 = Inr n"
  shows "n < 100 \<and> [c, d] = [digit_char (n div 10), digit_char (n mod 10)]"
  using assms
  by (auto simp: ParseUint_def split: option.splits if_splits dest!: digit_val_SomeD)

lemma ParseUint_two_digits:
  assumes "n < 100"
  shows "ParseUint [digit_char (n div 10), digit_char (n mod 10)] 8 = Inr n"
proof -
  have "n div 10 < 10" using assms by simp
  then show ?thesis using assms by (simp add: ParseUint_def)
qed

lemma length_5_cases:
  assumes "length s = 5"
  obtains a b c d e where "s = [a, b, c, d, e]"
  using assms by (auto simp: length_Suc_conv numeral_eq_Suc)

lemma unat_of_nat_u8: "n < 256 \<Longrightarrow> unat (of_nat n :: u8) = n"
  by (simp add: unsigned_of_nat take_bit_nat_eq_self)

lemma ParseClock_Inr_iff: "ParseClock s = Inr c \<longleftrightarrow> valid_clock c \<and> s = Clock_String c"
proof
  assume P: "ParseClock s = Inr c"
  then have "length s = 5" "s ! 2 = CHR '':''" by (auto simp: ParseClock_def split: if_splits)
  then obtain h1 h2 m1 m2 where s: "s = [h1, h2, CHR '':'', m1, m2]"
    by (elim length_5_cases) simp
  from P obtain h m where h: "ParseUint [h1, h2] 8 = Inr h" and m: "ParseUint [m1, m2] 8 = Inr m"
    and le: "h \<le> maxHour" "m \<le> maxMinute" and c: "c = \<lparr>Hour = of_nat h, Minute = of_nat m\<rparr>"
    by (auto simp: ParseClock_def s split: sum.splits if_splits)
  then show "valid_clock c \<and> s = Clock_String c"
    using ParseUint_two [OF h] ParseUint_two [OF m]
    by (simp add: valid_clock_def Clock_String_def unat_of_nat_u8 fmt_02d_two s)
next
  assume A: "valid_clock c \<and> s = Clock_String c"
  define h m where "h = unat (Hour c)" and "m = unat (Minute c)"
  with A have le: "h \<le> 23" "m \<le> 59" and s: "s = fmt_02d h @ '':'' @ fmt_02d m"
    by (simp_all add: valid_clock_def Clock_String_def maxHour_def maxMinute_def)
  then have "ParseClock s = Inr \<lparr>Hour = of_nat h, Minute = of_nat m\<rparr>"
    by (simp add: ParseClock_def fmt_02d_two ParseUint_two_digits maxHour_def maxMinute_def)
  then show "ParseClock s = Inr c" by (simp add: h_def m_def)
qed

subsection \<open>Reading a bank\<close>

lemma contains_bank_block [simp]:
  "contains (bank_block bk base n) addr \<longleftrightarrow> base \<le> addr \<and> addr < base + int n"
  by (simp add: contains_iff bank_block_def bank_read_def)

lemma Snapshot_U16_bank:
  assumes "base \<le> addr" "addr < base + int n"
  shows "Snapshot_U16 [bank_block bk base n] addr = Inr (bk addr)"
proof -
  have "block [bank_block bk base n] addr = Some (bank_block bk base n)"
    using assms by simp
  note Snapshot_U16_Some [OF this]
  also have "Regs (bank_block bk base n) ! nat (addr - Base (bank_block bk base n)) = bk addr"
    using assms by (simp add: bank_block_def bank_read_def nat_less_iff)
  finally show ?thesis .
qed

text \<open>The four registers of a window, and the fields the decoder accepts in them.\<close>

definition window_addrs :: "int \<Rightarrow> timedWindowOffsets \<Rightarrow> int list" where
  "window_addrs base off = [base + startHour off, base + startMinute off, base + endHour off, base + endMinute off]"

definition window_at :: "bank \<Rightarrow> int \<Rightarrow> timedWindowOffsets \<Rightarrow> TimedWindow" where
  "window_at bk base off =
     \<lparr>Start = \<lparr>Hour = ucast (bk (base + startHour off)), Minute = ucast (bk (base + startMinute off))\<rparr>,
      End = \<lparr>Hour = ucast (bk (base + endHour off)), Minute = ucast (bk (base + endMinute off))\<rparr>\<rparr>"

definition window_ok :: "bank \<Rightarrow> int \<Rightarrow> timedWindowOffsets \<Rightarrow> bool" where
  "window_ok bk base off \<longleftrightarrow>
     unat (bk (base + startHour off)) \<le> maxHour \<and> unat (bk (base + startMinute off)) \<le> maxMinute \<and>
     unat (bk (base + endHour off)) \<le> maxHour \<and> unat (bk (base + endMinute off)) \<le> maxMinute"

lemma decodeTimedWindow_bank:
  assumes "\<forall>a \<in> set (window_addrs base off). lo \<le> a \<and> a < lo + int n"
  shows "decodeTimedWindow [bank_block bk lo n] base off = Inr w
    \<longleftrightarrow> window_ok bk base off \<and> w = window_at bk base off"
  using assms
  by (auto simp: decodeTimedWindow_def decodeClock_def window_addrs_def Snapshot_U16_bank
      window_ok_def window_at_def)

text \<open>The slots a bank holds, and whether every field of them is in range.\<close>

definition slot_at :: "bank \<Rightarrow> int \<Rightarrow> TimedSlot" where
  "slot_at bk i = \<lparr>Charge = window_at bk (timedSlotBase i) timedChargeOffsets,
                   Discharge = window_at bk (timedSlotBase i) timedDischargeOffsets\<rparr>"

definition slot_ok :: "bank \<Rightarrow> int \<Rightarrow> bool" where
  "slot_ok bk i \<longleftrightarrow> window_ok bk (timedSlotBase i) timedChargeOffsets \<and>
                   window_ok bk (timedSlotBase i) timedDischargeOffsets"

definition slots_at :: "bank \<Rightarrow> TimedSlots" where
  "slots_at bk = \<lparr>Slot0 = slot_at bk 0, Slot1 = slot_at bk 1, Slot2 = slot_at bk 2\<rparr>"

definition slots_ok :: "bank \<Rightarrow> bool" where
  "slots_ok bk \<longleftrightarrow> slot_ok bk 0 \<and> slot_ok bk 1 \<and> slot_ok bk 2"

lemmas offset_defs = timedChargeOffsets_def timedDischargeOffsets_def timedSlotBase_def reg_simps

lemma decodeTimedSlot_bank:
  assumes "\<forall>a. timedSlotBase i + 2 \<le> a \<and> a \<le> timedSlotBase i + 9 \<longrightarrow> lo \<le> a \<and> a < lo + int n"
  shows "decodeTimedSlot [bank_block bk lo n] i = Inr s \<longleftrightarrow> slot_ok bk i \<and> s = slot_at bk i"
proof -
  have c: "\<forall>a \<in> set (window_addrs (timedSlotBase i) timedChargeOffsets). lo \<le> a \<and> a < lo + int n"
    and d: "\<forall>a \<in> set (window_addrs (timedSlotBase i) timedDischargeOffsets). lo \<le> a \<and> a < lo + int n"
    using assms by (auto simp: window_addrs_def timedChargeOffsets_def timedDischargeOffsets_def reg_simps)
  note W = decodeTimedWindow_bank [OF c, of bk] decodeTimedWindow_bank [OF d, of bk]
  show ?thesis
    by (auto simp: decodeTimedSlot_def Let_def bind_Inr_iff W slot_ok_def slot_at_def)
qed

lemma DecodeTimedSlots_bank:
  assumes "lo \<le> 43143" "43170 < lo + int n"
  shows "DecodeTimedSlots [bank_block bk lo n] = Inr s \<longleftrightarrow> slots_ok bk \<and> s = slots_at bk"
proof -
  have D: "decodeTimedSlot [bank_block bk lo n] i = Inr t \<longleftrightarrow> slot_ok bk i \<and> t = slot_at bk i"
    if "i \<in> {0, 1, 2}" for i t
    by (rule decodeTimedSlot_bank) (use that assms in \<open>auto simp: timedSlotBase_def reg_simps\<close>)
  note D0 = D [of 0, simplified] and D1 = D [of 1, simplified] and D2 = D [of 2, simplified]
  show ?thesis
    by (auto simp: DecodeTimedSlots_def bind_Inr_iff D0 D1 D2 slots_ok_def slots_at_def)
qed

lemma window_at_valid: "window_ok bk base off \<Longrightarrow> valid_window (window_at bk base off)"
  by (simp add: window_ok_def window_at_def valid_window_def valid_clock_def unat_ucast_u16_u8
      maxHour_def maxMinute_def)

lemma slots_at_valid: "slots_ok bk \<Longrightarrow> valid_slots (slots_at bk)"
  by (simp add: slots_ok_def slot_ok_def slots_at_def slot_at_def valid_slots_def valid_slot_def
      window_at_valid)

subsection \<open>Writing a slot\<close>

lemma apply_regs_append: "apply_regs (xs @ ys) bk = apply_regs ys (apply_regs xs bk)"
  by (induction xs arbitrary: bk) auto

lemma apply_regs_other: "a \<notin> Addr ` set rs \<Longrightarrow> apply_regs rs bk a = bk a"
  by (induction rs arbitrary: bk) auto

lemma apply_regs_written:
  assumes "distinct (map Addr rs)" "r \<in> set rs"
  shows "apply_regs rs bk (Addr r) = Value r"
  using assms
proof (induction rs arbitrary: bk)
  case (Cons x rs)
  then show ?case by (cases "r = x") (auto simp: apply_regs_other)
qed simp

lemma TimedSlotWriteRegisters_ok: "0 \<le> i \<Longrightarrow> i \<le> 2 \<Longrightarrow> is_ok (TimedSlotWriteRegisters i slot)"
  by (simp add: TimedSlotWriteRegisters_def Let_def)

lemma Addr_timedWindowRegisters [simp]:
  "map Addr (timedWindowRegisters base off w) = window_addrs base off"
  by (simp add: timedWindowRegisters_def window_addrs_def)

lemma window_addrs_charge: "window_addrs base timedChargeOffsets = [base + 2, base + 3, base + 4, base + 5]"
  by (simp add: window_addrs_def timedChargeOffsets_def reg_simps)

lemma window_addrs_discharge:
  "window_addrs base timedDischargeOffsets = [base + 6, base + 7, base + 8, base + 9]"
  by (simp add: window_addrs_def timedDischargeOffsets_def reg_simps)

text \<open>The two orders a slot is written in, and the eight addresses it touches in both.\<close>

lemma TimedSlotWriteRegisters_cases:
  assumes "TimedSlotWriteRegisters i slot = Inr regs"
  obtains "0 \<le> i" "i \<le> 2" "\<not> IsZero (Charge slot)" "IsZero (Discharge slot)"
      "regs = timedWindowRegisters (timedSlotBase i) timedDischargeOffsets (Discharge slot) @
              timedWindowRegisters (timedSlotBase i) timedChargeOffsets (Charge slot)"
  | "0 \<le> i" "i \<le> 2" "IsZero (Charge slot) \<or> \<not> IsZero (Discharge slot)"
      "regs = timedWindowRegisters (timedSlotBase i) timedChargeOffsets (Charge slot) @
              timedWindowRegisters (timedSlotBase i) timedDischargeOffsets (Discharge slot)"
  using assms by (auto simp: TimedSlotWriteRegisters_def Let_def split: if_splits)

lemma TimedSlotWriteRegisters_set:
  assumes "TimedSlotWriteRegisters i slot = Inr regs"
  shows "set regs = set (timedWindowRegisters (timedSlotBase i) timedChargeOffsets (Charge slot)) \<union>
                    set (timedWindowRegisters (timedSlotBase i) timedDischargeOffsets (Discharge slot))"
  using assms by (rule TimedSlotWriteRegisters_cases) auto

lemma TimedSlotWriteRegisters_addrs:
  assumes "TimedSlotWriteRegisters i slot = Inr regs"
  shows "distinct (map Addr regs)" "Addr ` set regs = {timedSlotBase i + 2 .. timedSlotBase i + 9}"
proof -
  show "distinct (map Addr regs)"
    using assms by (rule TimedSlotWriteRegisters_cases)
      (auto simp: window_addrs_charge window_addrs_discharge)
  have "Addr ` set regs = set (map Addr regs)" by simp
  also have "\<dots> = {timedSlotBase i + 2 .. timedSlotBase i + 9}"
    using assms by (rule TimedSlotWriteRegisters_cases)
      (auto simp: window_addrs_charge window_addrs_discharge simp del: set_map)
  finally show "Addr ` set regs = {timedSlotBase i + 2 .. timedSlotBase i + 9}" .
qed

text \<open>A bank that holds every register of a slot's expansion holds the slot.\<close>

lemma window_at_regs:
  assumes "\<forall>r \<in> set (timedWindowRegisters base off w). bk (Addr r) = Value r"
  shows "window_at bk base off = w" "valid_window w \<Longrightarrow> window_ok bk base off"
  using assms
  by (simp_all add: timedWindowRegisters_def window_at_def window_ok_def valid_window_def valid_clock_def)

lemma slot_at_regs:
  assumes "TimedSlotWriteRegisters i slot = Inr regs" "\<forall>r \<in> set regs. bk (Addr r) = Value r"
  shows "slot_at bk i = slot" "valid_slot slot \<Longrightarrow> slot_ok bk i"
  using window_at_regs assms
  by (auto simp: TimedSlotWriteRegisters_set [OF assms(1)] slot_at_def slot_ok_def valid_slot_def ball_Un)

text \<open>Conversely, the expansion of the slot a bank holds repeats the bank's own words.\<close>

lemma window_regs_at:
  assumes "window_ok bk base off" "r \<in> set (timedWindowRegisters base off (window_at bk base off))"
  shows "bk (Addr r) = Value r"
  using assms
  by (auto simp: timedWindowRegisters_def window_at_def window_ok_def maxHour_def maxMinute_def
      ucast_u16_u8_inverse)

lemma slot_regs_at:
  assumes "slot_ok bk i" "TimedSlotWriteRegisters i (slot_at bk i) = Inr regs" "r \<in> set regs"
  shows "bk (Addr r) = Value r"
  using assms window_regs_at
  by (auto simp: TimedSlotWriteRegisters_set [OF assms(2)] slot_at_def slot_ok_def)

text \<open>A slot is read from its eight registers only.\<close>

lemma slot_at_cong:
  assumes "\<And>a. timedSlotBase i + 2 \<le> a \<Longrightarrow> a \<le> timedSlotBase i + 9 \<Longrightarrow> bk a = bk' a"
  shows "slot_at bk i = slot_at bk' i" "slot_ok bk i = slot_ok bk' i"
  using assms
  by (auto simp: slot_at_def slot_ok_def window_at_def window_ok_def timedChargeOffsets_def
      timedDischargeOffsets_def reg_simps)

subsection \<open>Transients of a slot write\<close>

definition both_set :: "TimedSlot \<Rightarrow> bool" where
  "both_set s \<longleftrightarrow> \<not> IsZero (Charge s) \<and> \<not> IsZero (Discharge s)"

lemma apply_zero_writes:
  assumes "\<forall>r \<in> set rs. Value r = 0"
  shows "apply_regs rs bk a = bk a \<or> apply_regs rs bk a = 0"
  using assms
proof (induction rs arbitrary: bk)
  case (Cons r rs)
  have "apply_regs rs (bk(Addr r := 0)) a = (bk(Addr r := 0)) a \<or>
      apply_regs rs (bk(Addr r := 0)) a = 0"
    by (rule Cons.IH) (use Cons.prems in simp)
  with Cons.prems show ?case by (auto split: if_splits)
qed simp

lemma length_timedWindowRegisters [simp]: "length (timedWindowRegisters base off w) = 4"
  by (simp add: timedWindowRegisters_def)

lemma IsZero_window_at:
  "IsZero (window_at bk base off) \<longleftrightarrow> (\<forall>a \<in> set (window_addrs base off). (ucast (bk a) :: u8) = 0)"
  by (auto simp: IsZero_def window_at_def window_addrs_def)

lemma IsZero_after_zero_writes:
  assumes "\<forall>r \<in> set rs. Value r = 0" "IsZero (window_at bk base off)"
  shows "IsZero (window_at (apply_regs rs bk) base off)"
  unfolding IsZero_window_at
proof
  fix a
  assume "a \<in> set (window_addrs base off)"
  then have "(ucast (bk a) :: u8) = 0" using assms(2) by (simp add: IsZero_window_at)
  then show "(ucast (apply_regs rs bk a) :: u8) = 0"
    using apply_zero_writes [OF assms(1), of bk a] by auto
qed

lemma window_at_other:
  assumes "Addr ` set rs \<inter> set (window_addrs base off) = {}"
  shows "window_at (apply_regs rs bk) base off = window_at bk base off"
proof -
  have "apply_regs rs bk a = bk a" if "a \<in> set (window_addrs base off)" for a
    using assms that by (intro apply_regs_other) auto
  then show ?thesis by (simp add: window_at_def window_addrs_def)
qed

text \<open>
  Clearing window \<open>A\<close> and then writing window \<open>B\<close>: whatever the length of the prefix written so
  far, the two windows are never both set, provided they were not at the start.
\<close>

lemma clear_then_write_transient:
  fixes base :: int and A B :: timedWindowOffsets
  defines "zs \<equiv> timedWindowRegisters base A TimedWindow_zero"
  assumes disj: "set (window_addrs base A) \<inter> set (window_addrs base B) = {}"
    and before: "IsZero (window_at bk base A) \<or> IsZero (window_at bk base B)"
  shows "IsZero (window_at (apply_regs (take k (zs @ timedWindowRegisters base B w)) bk) base A) \<or>
         IsZero (window_at (apply_regs (take k (zs @ timedWindowRegisters base B w)) bk) base B)"
proof (cases "k \<le> 4")
  case True
  have zeros: "\<forall>r \<in> set (take k zs). Value r = 0"
    by (auto simp: zs_def timedWindowRegisters_def dest!: in_set_takeD)
  have "Addr ` set (take k zs) \<subseteq> set (map Addr zs)"
    by (auto dest: in_set_takeD)
  then have "Addr ` set (take k zs) \<inter> set (window_addrs base B) = {}"
    using disj unfolding zs_def Addr_timedWindowRegisters by blast
  then have B: "window_at (apply_regs (take k zs) bk) base B = window_at bk base B"
    by (rule window_at_other)
  have "take k (zs @ timedWindowRegisters base B w) = take k zs"
    using True by (simp add: zs_def)
  then show ?thesis using before B IsZero_after_zero_writes [OF zeros] by auto
next
  case False
  define ws where "ws = take (k - 4) (timedWindowRegisters base B w)"
  have split: "take k (zs @ timedWindowRegisters base B w) = zs @ ws"
    using False by (simp add: ws_def zs_def)
  have "Addr ` set ws \<subseteq> set (map Addr (timedWindowRegisters base B w))"
    unfolding set_map ws_def by (rule image_mono) (rule set_take_subset)
  then have "Addr ` set ws \<inter> set (window_addrs base A) = {}"
    using disj unfolding Addr_timedWindowRegisters by blast
  then have "window_at (apply_regs (zs @ ws) bk) base A = window_at (apply_regs zs bk) base A"
    by (simp add: apply_regs_append window_at_other)
  moreover have "IsZero (window_at (apply_regs zs bk) base A)"
    by (simp add: IsZero_def zs_def window_at_def timedWindowRegisters_def)
  ultimately show ?thesis unfolding split by simp
qed

lemma slot_write_transient:
  assumes "TimedSlotWriteRegisters i slot = Inr regs" "\<not> both_set (slot_at bk i)" "\<not> both_set slot"
  shows "\<not> both_set (slot_at (apply_regs (take k regs) bk) i)"
proof -
  let ?C = "timedChargeOffsets" and ?D = "timedDischargeOffsets" and ?b = "timedSlotBase i"
  have disj: "set (window_addrs ?b ?C) \<inter> set (window_addrs ?b ?D) = {}"
    "set (window_addrs ?b ?D) \<inter> set (window_addrs ?b ?C) = {}"
    by (auto simp: window_addrs_charge window_addrs_discharge)
  have before: "IsZero (window_at bk ?b ?C) \<or> IsZero (window_at bk ?b ?D)"
    using assms(2) by (auto simp: both_set_def slot_at_def)
  from assms(1) show ?thesis
  proof (rule TimedSlotWriteRegisters_cases)
    assume "IsZero (Discharge slot)"
      and "regs = timedWindowRegisters ?b ?D (Discharge slot) @ timedWindowRegisters ?b ?C (Charge slot)"
    then show ?thesis
      using clear_then_write_transient [OF disj(2), of bk k "Charge slot"] before
      by (auto simp: both_set_def slot_at_def IsZero_def)
  next
    assume z: "IsZero (Charge slot) \<or> \<not> IsZero (Discharge slot)"
      and regs: "regs = timedWindowRegisters ?b ?C (Charge slot) @ timedWindowRegisters ?b ?D (Discharge slot)"
    with assms(3) have "IsZero (Charge slot)" by (auto simp: both_set_def)
    with regs show ?thesis
      using clear_then_write_transient [OF disj(1), of bk k "Discharge slot"] before
      by (auto simp: both_set_def slot_at_def IsZero_def)
  qed
qed

section \<open>Properties\<close>

text \<open>
  The strict clock parser accepts exactly the texts the clock printer produces for clocks
  within the day, and returns that clock.
\<close>

theorem parse_clock_exact: "ParseClock s = Inr c \<longleftrightarrow> valid_clock c \<and> s = Clock_String c"
  by (rule ParseClock_Inr_iff)

text \<open>
  C32: writing the registers of a valid slot into any of the three positions of a bank whose slots
  decode makes the schedule decode to the old one with that slot replaced, and changes no register
  outside the eight of the slot.
\<close>

theorem slot_write_decodes:
  assumes "DecodeTimedSlots [bank_block bk lo n] = Inr slots" "lo \<le> 43143" "43170 < lo + int n"
    and "TimedSlotWriteRegisters i slot = Inr regs" "valid_slot slot"
  shows "DecodeTimedSlots [bank_block (apply_regs regs bk) lo n] = Inr (set_slot slots i slot) \<and>
    (\<forall>a. a \<notin> {timedSlotBase i + 2 .. timedSlotBase i + 9} \<longrightarrow> apply_regs regs bk a = bk a)"
proof -
  note A = TimedSlotWriteRegisters_addrs [OF assms(4)]
  have other: "apply_regs regs bk a = bk a" if "a \<notin> {timedSlotBase i + 2 .. timedSlotBase i + 9}" for a
    using that A(2) by (intro apply_regs_other) auto
  have i: "i = 0 \<or> i = 1 \<or> i = 2" using assms(4) by (auto simp: TimedSlotWriteRegisters_def split: if_splits)
  have "\<forall>r \<in> set regs. apply_regs regs bk (Addr r) = Value r" using A(1) by (auto intro: apply_regs_written)
  note own = slot_at_regs(1) [OF assms(4) this] slot_at_regs(2) [OF assms(4) this assms(5)]
  have rest: "slot_at (apply_regs regs bk) j = slot_at bk j" "slot_ok (apply_regs regs bk) j = slot_ok bk j"
    if "j \<noteq> i" "j \<in> {0, 1, 2}" for j
    by (rule slot_at_cong; rule other; use that i in \<open>auto simp: timedSlotBase_def reg_simps\<close>)+
  from assms(1) have "slots_ok bk" "slots = slots_at bk"
    using DecodeTimedSlots_bank [OF assms(2,3)] by auto
  then have "DecodeTimedSlots [bank_block (apply_regs regs bk) lo n] = Inr (set_slot slots i slot)"
    using i own rest DecodeTimedSlots_bank [OF assms(2,3)]
    by (auto simp: slots_ok_def slots_at_def set_slot_def)
  with other show ?thesis by blast
qed

theorem slot_write_decodes_witness:
  "\<exists>regs. TimedSlotWriteRegisters 1 (TimedSlot_zero\<lparr>Charge := \<lparr>Start = \<lparr>Hour = 2, Minute = 5\<rparr>, End = \<lparr>Hour = 4, Minute = 0\<rparr>\<rparr>\<rparr>) = Inr regs \<and>
     (\<forall>a. a \<notin> {timedSlotBase 1 + 2 .. timedSlotBase 1 + 9} \<longrightarrow> apply_regs regs (\<lambda>_. 1) a = 1)"
proof -
  let ?slot = "TimedSlot_zero\<lparr>Charge := \<lparr>Start = \<lparr>Hour = 2, Minute = 5\<rparr>, End = \<lparr>Hour = 4, Minute = 0\<rparr>\<rparr>\<rparr>"
  obtain regs where R: "TimedSlotWriteRegisters 1 ?slot = Inr regs"
    using TimedSlotWriteRegisters_ok [of 1 ?slot] by (auto elim: is_okE)
  have "DecodeTimedSlots [bank_block (\<lambda>_. 1) 43110 61] = Inr (slots_at (\<lambda>_. 1))"
    by (subst DecodeTimedSlots_bank) (simp_all add: slots_ok_def slot_ok_def window_ok_def maxHour_def maxMinute_def)
  from slot_write_decodes [OF this _ _ R] R show ?thesis
    by (simp add: valid_slot_def valid_window_def valid_clock_def maxHour_def maxMinute_def)
qed

text \<open>
  While the registers of a slot that does not set both directions are written one by one, over
  a slot that did not either, the inverter never sees a slot with a charge and a discharge window:
  after every prefix of the writes at least one of the two is unset.
\<close>

theorem slot_write_never_both:
  assumes "TimedSlotWriteRegisters i slot = Inr regs" "\<not> both_set (slot_at bk i)" "\<not> both_set slot"
  shows "\<not> both_set (slot_at (apply_regs (take k regs) bk) i)"
  using assms by (rule slot_write_transient)

theorem slot_write_never_both_witness:
  "\<exists>regs. TimedSlotWriteRegisters 2 TimedSlot_zero = Inr regs \<and>
     \<not> both_set (slot_at (apply_regs (take 3 regs) ((\<lambda>_. 0)(43165 := 9))) 2)"
proof -
  obtain regs where R: "TimedSlotWriteRegisters 2 TimedSlot_zero = Inr regs"
    using TimedSlotWriteRegisters_ok [of 2 TimedSlot_zero] by (auto elim: is_okE)
  have "\<not> both_set (slot_at ((\<lambda>_. 0)(43165 := 9)) 2)"
    by (simp add: both_set_def slot_at_def IsZero_window_at window_addrs_discharge timedSlotBase_def reg_simps)
  from slot_write_never_both [OF R this, of 3] R show ?thesis by (auto simp: both_set_def)
qed

text \<open>
  Within one direction the transient is not always a superset of the window being written: on
  the way from an unset slot to a charge window of 10:20 to 10:45 the bank holds 10:20 to 10:00 after
  the third register, an end before the start.
\<close>

theorem slot_write_transient_inverted:
  "\<exists>regs. TimedSlotWriteRegisters 0
       \<lparr>Charge = \<lparr>Start = \<lparr>Hour = 10, Minute = 20\<rparr>, End = \<lparr>Hour = 10, Minute = 45\<rparr>\<rparr>,
        Discharge = TimedWindow_zero\<rparr> = Inr regs \<and>
     slot_at (apply_regs (take 7 regs) (\<lambda>_. 0)) 0 =
       \<lparr>Charge = \<lparr>Start = \<lparr>Hour = 10, Minute = 20\<rparr>, End = \<lparr>Hour = 10, Minute = 0\<rparr>\<rparr>,
        Discharge = TimedWindow_zero\<rparr>"
  by (simp add: TimedSlotWriteRegisters_def IsZero_def timedWindowRegisters_def slot_at_def window_at_def
      offset_defs)

end
