(* ===== verification/Guard.thy ===== *)
theory Guard
  imports TimedSlots
begin

text \<open>
  \<open>internal/controls/guard.go\<close>: the read-before-write guard of one holding register, over the
  interface \<open>HoldingReadWriter\<close>. The interface is a record of world-passing functions; what its
  implementations promise is the locale \<open>holding_bus\<close>, in which the guard is proved once for all of
  them.
\<close>

section \<open>Definitions\<close>

record 'w HoldingReadWriter =
  ReadHolding :: "int \<Rightarrow> int \<Rightarrow> 'w \<Rightarrow> u16 list result \<times> 'w"
  WriteHolding :: "int \<Rightarrow> u16 \<Rightarrow> 'w \<Rightarrow> unit result \<times> 'w"

record Result =
  Skipped :: bool
  Wrote :: bool
  Confirmed :: bool
  Old :: u16
  New :: u16

abbreviation Result_zero :: Result where
  "Result_zero \<equiv> \<lparr>Skipped = False, Wrote = False, Confirmed = False, Old = 0, New = 0\<rparr>"

definition readOne :: "'w HoldingReadWriter \<Rightarrow> int \<Rightarrow> 'w \<Rightarrow> u16 result \<times> 'w" where
  "readOne rw addr w =
     (case ReadHolding rw addr 1 w of
        (Inl err, w) \<Rightarrow> (Inl err, w)
      | (Inr regs, w) \<Rightarrow>
          if length regs < 1 then (Inl (Errorf (''holding '' @ fmt_d addr @ '': empty read response'')), w)
          else (Inr (regs ! 0), w))"

text \<open>The Go function returns a result and an error side by side, as here; \<open>None\<close> is \<open>nil\<close>.\<close>

definition Guard :: "'w HoldingReadWriter \<Rightarrow> int \<Rightarrow> u16 \<Rightarrow> 'w \<Rightarrow> (Result \<times> go_error option) \<times> 'w" where
  "Guard rw addr desired w =
     (case readOne rw addr w of
        (Inl err, w) \<Rightarrow>
          ((Result_zero, Some (Wrap (''guard '' @ fmt_d addr @ '': read current'') err)), w)
      | (Inr current, w) \<Rightarrow>
          if current = desired
          then ((Result_zero\<lparr>Skipped := True, Old := current, New := current\<rparr>, None), w)
          else
            (case WriteHolding rw addr desired w of
               (Inl err, w) \<Rightarrow>
                 ((Result_zero\<lparr>Old := current\<rparr>,
                   Some (Wrap (''guard '' @ fmt_d addr @ '': write '' @ fmt_nat (unat desired)) err)), w)
             | (Inr _, w) \<Rightarrow>
                 (case readOne rw addr w of
                    (Inl err, w) \<Rightarrow>
                      ((Result_zero\<lparr>Wrote := True, Old := current\<rparr>,
                        Some (Wrap (''guard '' @ fmt_d addr @ '': confirm read'') err)), w)
                  | (Inr reread, w) \<Rightarrow>
                      (let res = Result_zero\<lparr>Wrote := True, Old := current, New := reread\<rparr> in
                       if reread \<noteq> desired
                       then ((res, Some (Errorf (''guard '' @ fmt_d addr @ '': re-read ''
                               @ fmt_nat (unat reread) @ '' does not confirm desired ''
                               @ fmt_nat (unat desired)))), w)
                       else ((res\<lparr>Confirmed := True\<rparr>, None), w)))))"

section \<open>The contract of a bus\<close>

text \<open>
  \<open>holding\<close> is the holding bank of the inverter in a world and \<open>wear\<close> the log of the single-register
  writes (function code 6) it has taken. The registers in \<open>stable\<close> change by such writes only; the
  others, the running clock among them, may change by themselves. A read changes nothing and returns
  words of the bank, a prefix of what was asked; a write is taken or not, whatever the caller is told
  (the reply of a write that was taken can be lost), and one that is reported done was taken. What
  the inverter stores for it is not promised.
\<close>

locale holding_bus =
  fixes bus :: "'w HoldingReadWriter" and stable :: "int set"
    and holding :: "'w \<Rightarrow> bank" and wear :: "'w \<Rightarrow> (int \<times> u16) list"
  assumes read_wear: "ReadHolding bus a n w = (r, w') \<Longrightarrow> wear w' = wear w"
    and read_frame: "ReadHolding bus a n w = (r, w') \<Longrightarrow> b \<in> stable \<Longrightarrow> holding w' b = holding w b"
    and read_length: "ReadHolding bus a n w = (Inr regs, w') \<Longrightarrow> int (length regs) \<le> n"
    and read_words: "ReadHolding bus a n w = (Inr regs, w') \<Longrightarrow> i < length regs \<Longrightarrow> int i < n \<Longrightarrow>
      a + int i \<in> stable \<Longrightarrow> regs ! i = holding w (a + int i)"
    and write_wear: "WriteHolding bus a v w = (q, w') \<Longrightarrow> wear w' = wear w \<or> wear w' = wear w @ [(a, v)]"
    and write_frame: "WriteHolding bus a v w = (q, w') \<Longrightarrow> b \<in> stable \<Longrightarrow> b \<noteq> a \<or> wear w' = wear w \<Longrightarrow>
      holding w' b = holding w b"
    and write_ok: "WriteHolding bus a v w = (Inr u, w') \<Longrightarrow> wear w' = wear w @ [(a, v)]"
begin

lemma readOne_frame:
  assumes "readOne bus a w = (r, w')"
  shows "wear w' = wear w" "b \<in> stable \<Longrightarrow> holding w' b = holding w b"
    "r = Inr v \<Longrightarrow> a \<in> stable \<Longrightarrow> v = holding w a"
proof -
  obtain r0 w0 where R: "ReadHolding bus a 1 w = (r0, w0)" by fastforce
  with assms have w': "w' = w0"
    by (auto simp: readOne_def split: sum.splits if_splits)
  show "wear w' = wear w" "b \<in> stable \<Longrightarrow> holding w' b = holding w b"
    using read_wear [OF R] read_frame [OF R] w' by auto
  show "v = holding w a" if "r = Inr v" "a \<in> stable"
  proof -
    from that assms R obtain regs where regs: "r0 = Inr regs" "0 < length regs" "v = regs ! 0"
      by (auto simp: readOne_def split: sum.splits if_splits)
    with read_words [OF R [unfolded regs(1)], of 0] that(2) show ?thesis by simp
  qed
qed

text \<open>
  The ways a guard can end: nothing was written, because the current value could not be read or was
  the desired one; or one write was sent. \<open>wm\<close> is the world right after the write.
\<close>

lemma Guard_cases:
  assumes "Guard bus a v w = ((res, err), w')"
  obtains (unread) "err \<noteq> None" "\<not> Wrote res" "wear w' = wear w" "\<forall>b \<in> stable. holding w' b = holding w b"
  | (skip) "err = None" "\<not> Wrote res" "Skipped res" "wear w' = wear w" "\<forall>b \<in> stable. holding w' b = holding w b"
      "a \<in> stable \<longrightarrow> holding w a = v"
  | (failed) wr wr' where "err \<noteq> None" "\<not> Wrote res" "WriteHolding bus a v wr = (wr', w')" "wear wr = wear w"
      "\<forall>b \<in> stable. holding wr b = holding w b" "a \<in> stable \<longrightarrow> holding w a \<noteq> v"
  | (written) wr wm where "Wrote res" "WriteHolding bus a v wr = (Inr (), wm)" "wear wr = wear w"
      "\<forall>b \<in> stable. holding wr b = holding w b" "a \<in> stable \<longrightarrow> holding w a \<noteq> v"
      "wear w' = wear wm" "\<forall>b \<in> stable. holding w' b = holding wm b"
      "err = None \<longrightarrow> Confirmed res \<and> (a \<in> stable \<longrightarrow> holding w' a = v)"
proof -
  obtain r1 w1 where R1: "readOne bus a w = (r1, w1)" by fastforce
  note F1 = readOne_frame [OF R1]
  show ?thesis
  proof (cases r1)
    case (Inl e)
    with assms R1 F1(1,2) show ?thesis by (intro unread) (auto simp: Guard_def)
  next
    case current: (Inr current)
    then have cur: "a \<in> stable \<Longrightarrow> current = holding w a" using F1(3) by auto
    show ?thesis
    proof (cases "current = v")
      case True
      with assms R1 current cur F1(1,2) show ?thesis by (intro skip) (auto simp: Guard_def)
    next
      case neq: False
      obtain r2 w2 where W: "WriteHolding bus a v w1 = (r2, w2)" by fastforce
      show ?thesis
      proof (cases r2)
        case (Inl e)
        with assms R1 current neq W cur F1(1,2) show ?thesis
          by (intro failed [of w1 r2]) (auto simp: Guard_def)
      next
        case (Inr u)
        obtain r3 w3 where R3: "readOne bus a w2 = (r3, w3)" by fastforce
        note F3 = readOne_frame [OF R3]
        have "w' = w3" "Wrote res" and ok: "err = None \<longrightarrow> Confirmed res \<and> r3 = Inr v"
          using assms R1 current neq W Inr R3 by (auto simp: Guard_def Let_def split: sum.splits if_splits)
        then show ?thesis
          using W Inr cur neq F1(1,2) F3 by (intro written [of w1 w2]) auto
      qed
    qed
  qed
qed

text \<open>What every outcome has in common.\<close>

lemma Guard_frame:
  assumes "Guard bus a v w = ((res, err), w')" "b \<in> stable" "b \<noteq> a"
  shows "holding w' b = holding w b"
  using assms(1)
proof (cases rule: Guard_cases)
  case (failed wr wr')
  with write_frame [OF failed(3) assms(2)] assms(2,3) show ?thesis by simp
next
  case (written wr wm)
  with write_frame [OF written(2) assms(2)] assms(2,3) show ?thesis by simp
qed (use assms(2) in auto)

lemma Guard_wear:
  assumes "Guard bus a v w = ((res, err), w')"
  shows "wear w' = wear w \<or> wear w' = wear w @ [(a, v)]"
    "wear w' \<noteq> wear w \<Longrightarrow> a \<in> stable \<Longrightarrow> holding w a \<noteq> v"
    "Wrote res \<Longrightarrow> wear w' = wear w @ [(a, v)]"
  using assms
  by (cases rule: Guard_cases; force dest: write_wear write_ok)+

lemma Guard_ok:
  assumes "Guard bus a v w = ((res, None), w')" "a \<in> stable"
  shows "holding w' a = v"
  using assms(1) by (cases rule: Guard_cases) (use assms(2) in auto)

lemma Guard_unchanged:
  assumes "Guard bus a v w = ((res, err), w')" "wear w' = wear w" "b \<in> stable"
  shows "holding w' b = holding w b"
  using assms(1)
proof (cases rule: Guard_cases)
  case (failed wr wr')
  with write_frame [OF failed(3) assms(3)] assms(2,3) show ?thesis by simp
next
  case (written wr wm)
  with write_ok [OF written(2)] assms(2) show ?thesis by simp
qed (use assms(3) in auto)

end

text \<open>A bus whose inverter stores what it is sent: a write it has taken is held.\<close>

locale faithful_bus = holding_bus +
  assumes write_held: "WriteHolding bus a v w = (r, w') \<Longrightarrow> wear w' \<noteq> wear w \<Longrightarrow> a \<in> stable \<Longrightarrow> holding w' a = v"
begin

text \<open>Over such a bus a guard either leaves the bank alone or sets the one register.\<close>

lemma Guard_held:
  assumes "Guard bus a v w = ((res, err), w')" "wear w' \<noteq> wear w" "a \<in> stable"
  shows "holding w' a = v"
  using assms(1)
proof (cases rule: Guard_cases)
  case (failed wr wr')
  with write_held [OF failed(3)] assms(2,3) show ?thesis by simp
next
  case (written wr wm)
  with write_held [OF written(2)] assms(2,3) show ?thesis by simp
qed (use assms in auto)

lemma Guard_bank:
  assumes "Guard bus a v w = ((res, err), w')" "a \<in> stable"
  shows "(\<forall>b \<in> stable. holding w' b = holding w b) \<or> (\<forall>b \<in> stable. holding w' b = ((holding w)(a := v)) b)"
    "err = None \<Longrightarrow> \<forall>b \<in> stable. holding w' b = ((holding w)(a := v)) b"
    "Wrote res \<Longrightarrow> \<forall>b \<in> stable. holding w' b = ((holding w)(a := v)) b"
proof -
  have set: "\<forall>b \<in> stable. holding w' b = ((holding w)(a := v)) b" if "holding w' a = v"
    using Guard_frame [OF assms(1)] that by auto
  show "err = None \<Longrightarrow> \<forall>b \<in> stable. holding w' b = ((holding w)(a := v)) b"
    using Guard_ok assms set by blast
  show "Wrote res \<Longrightarrow> \<forall>b \<in> stable. holding w' b = ((holding w)(a := v)) b"
    using Guard_wear(3) [OF assms(1)] Guard_held [OF assms(1) _ assms(2)] set by simp
  show "(\<forall>b \<in> stable. holding w' b = holding w b) \<or> (\<forall>b \<in> stable. holding w' b = ((holding w)(a := v)) b)"
  proof (cases "wear w' = wear w")
    case True
    then show ?thesis using Guard_unchanged [OF assms(1)] by blast
  next
    case False
    then show ?thesis using Guard_held [OF assms(1) _ assms(2)] set by blast
  qed
qed

end

text \<open>
  A bus that is up: in a world where \<open>up\<close> holds every call on an existing register succeeds, a read
  with as many words as were asked, and the bus stays up.
\<close>

locale live_bus = faithful_bus +
  fixes up :: "'a \<Rightarrow> bool"
  assumes up_read: "up w \<Longrightarrow> 0 \<le> a \<Longrightarrow> a < 65536 \<Longrightarrow> 1 \<le> n \<Longrightarrow> n \<le> 125 \<Longrightarrow>
      \<exists>regs w'. ReadHolding bus a n w = (Inr regs, w') \<and> length regs = nat n \<and> up w'"
    and up_write: "up w \<Longrightarrow> 0 \<le> a \<Longrightarrow> a < 65536 \<Longrightarrow> \<exists>w'. WriteHolding bus a v w = (Inr (), w') \<and> up w'"
begin

lemma readOne_up:
  assumes "up w" "0 \<le> a" "a < 65536" "a \<in> stable"
  shows "\<exists>w'. readOne bus a w = (Inr (holding w a), w') \<and> up w'"
proof -
  obtain regs w' where R: "ReadHolding bus a 1 w = (Inr regs, w')" "length regs = 1" "up w'"
    using up_read [OF assms(1-3), of 1] by auto
  then have "readOne bus a w = (Inr (regs ! 0), w')" by (simp add: readOne_def)
  with readOne_frame(3) [OF this] assms(4) R(3) show ?thesis by auto
qed

lemma Guard_up:
  assumes "up w" "0 \<le> a" "a < 65536" "a \<in> stable"
  shows "\<exists>res w'. Guard bus a v w = ((res, None), w') \<and> up w'"
proof -
  obtain w1 where w1: "readOne bus a w = (Inr (holding w a), w1)" "up w1" using readOne_up [OF assms] by blast
  show ?thesis
  proof (cases "holding w a = v")
    case True
    with w1 show ?thesis by (simp add: Guard_def)
  next
    case False
    obtain w2 where w2: "WriteHolding bus a v w1 = (Inr (), w2)" "up w2"
      using up_write [OF w1(2) assms(2,3)] by blast
    have "wear w2 = wear w1 @ [(a, v)]" using write_ok [OF w2(1)] .
    then have v: "holding w2 a = v" using write_held [OF w2(1) _ assms(4)] by simp
    obtain w3 where "readOne bus a w2 = (Inr (holding w2 a), w3)" "up w3"
      using readOne_up [OF w2(2) assms(2-4)] by blast
    with w1 w2 v False show ?thesis by (simp add: Guard_def)
  qed
qed

end

end
