(* ===== verification/Sidecar.thy ===== *)
theory Sidecar
  imports Guard
begin

text \<open>
  \<open>internal/sidecarclient\<close> (the typed client of the register RPCs and its error classes) and the Python
  sidecar it talks to (\<open>sidecar/http_api.py\<close>, \<open>sidecar/errors.py\<close>) with its mock transport
  (\<open>sidecar/mock.py\<close>). Requests and responses are JSON values: their text is the business of the two
  JSON libraries and is not modelled. The client is written against its own interface \<open>httpDoer\<close>, a
  world-passing function, which a sidecar behind a network that may refuse a request or lose a reply
  implements. What a transport promises is the locale \<open>register_transport\<close>: over any such transport the
  client is a \<open>faithful_bus\<close>.
\<close>

section \<open>Messages\<close>

datatype json =
    JNull
  | JBool bool
  | JInt int
  | JString string
  | JList "json list"
  | JObject "(string \<times> json) list"

fun json_field :: "json \<Rightarrow> string \<Rightarrow> json option" where
  "json_field (JObject kvs) key = map_of kvs key"
| "json_field _ key = None"

text \<open>
  A response is its status and its body, \<open>None\<close> for a body that is not JSON; the error of a request
  that got no response is a text.
\<close>

type_synonym response = "int \<times> json option"
type_synonym 'w httpDoer = "string \<Rightarrow> string \<Rightarrow> json option \<Rightarrow> 'w \<Rightarrow> (string + response) \<times> 'w"

section \<open>errors.go\<close>

datatype sentinel =
    ErrBadRequest | ErrTimeout | ErrIllegalAddress | ErrFrame | ErrConnection | ErrNotFound | ErrInternal

definition codeSentinels :: "(string \<times> sentinel) list" where
  "codeSentinels =
     [(''bad_request'', ErrBadRequest),
      (''timeout'', ErrTimeout),
      (''illegal_address'', ErrIllegalAddress),
      (''frame_error'', ErrFrame),
      (''connection_error'', ErrConnection),
      (''not_found'', ErrNotFound),
      (''internal_error'', ErrInternal)]"

definition sentinelForCode :: "string \<Rightarrow> sentinel" where
  "sentinelForCode code = (case map_of codeSentinels code of Some s \<Rightarrow> s | None \<Rightarrow> ErrInternal)"

text \<open>\<open>errors.Is(err, s)\<close> for a sentinel of this package, through \<open>Unwrap\<close> of the \<open>SidecarError\<close>.\<close>

fun is_sentinel :: "go_error \<Rightarrow> sentinel \<Rightarrow> bool" where
  "is_sentinel (SidecarErr code message status) s \<longleftrightarrow> sentinelForCode code = s"
| "is_sentinel (Wrap c e) s = is_sentinel e s"
| "is_sentinel e s = False"

section \<open>client.go\<close>

text \<open>
  Decoding into the Go structs: a missing or null field keeps its zero value, a value of another type
  or out of the field's range is an error.
\<close>

definition json_u16 :: "json \<Rightarrow> u16 option" where
  "json_u16 j = (case j of JInt i \<Rightarrow> if 0 \<le> i \<and> i < 65536 then Some (of_int i) else None
                 | JNull \<Rightarrow> Some 0 | _ \<Rightarrow> None)"

fun json_u16s :: "json list \<Rightarrow> u16 list option" where
  "json_u16s [] = Some []"
| "json_u16s (j # js) =
     (case json_u16 j of
        None \<Rightarrow> None
      | Some v \<Rightarrow> (case json_u16s js of None \<Rightarrow> None | Some vs \<Rightarrow> Some (v # vs)))"

definition json_int_ok :: "json option \<Rightarrow> bool" where
  "json_int_ok j \<longleftrightarrow> (case j of Some (JInt _) \<Rightarrow> True | Some JNull \<Rightarrow> True | None \<Rightarrow> True | _ \<Rightarrow> False)"

definition decode_readResponse :: "json \<Rightarrow> u16 list option" where
  "decode_readResponse j =
     (if \<not> (case j of JObject _ \<Rightarrow> True | JNull \<Rightarrow> True | _ \<Rightarrow> False) then None
      else if \<not> json_int_ok (json_field j ''addr'') \<or> \<not> json_int_ok (json_field j ''count'') then None
      else case json_field j ''regs'' of
        None \<Rightarrow> Some []
      | Some JNull \<Rightarrow> Some []
      | Some (JList js) \<Rightarrow> json_u16s js
      | Some _ \<Rightarrow> None)"

definition decode_writeResponse :: "json \<Rightarrow> bool option" where
  "decode_writeResponse j =
     (if \<not> (case j of JObject _ \<Rightarrow> True | JNull \<Rightarrow> True | _ \<Rightarrow> False) then None
      else if \<not> json_int_ok (json_field j ''addr'') then None
      else if (case json_field j ''value'' of None \<Rightarrow> False | Some v \<Rightarrow> json_u16 v = None) then None
      else case json_field j ''ok'' of
        None \<Rightarrow> Some False
      | Some JNull \<Rightarrow> Some False
      | Some (JBool b) \<Rightarrow> Some b
      | Some _ \<Rightarrow> None)"

definition json_text :: "json option \<Rightarrow> string option" where
  "json_text j = (case j of None \<Rightarrow> Some [] | Some JNull \<Rightarrow> Some [] | Some (JString s) \<Rightarrow> Some s | _ \<Rightarrow> None)"

text \<open>The envelope: its code and message when the body decodes into it.\<close>

definition decode_errorEnvelope :: "json \<Rightarrow> (string \<times> string) option" where
  "decode_errorEnvelope j =
     (case j of
        JNull \<Rightarrow> Some ([], [])
      | JObject _ \<Rightarrow>
          (case json_field j ''error'' of
             None \<Rightarrow> Some ([], [])
           | Some JNull \<Rightarrow> Some ([], [])
           | Some e \<Rightarrow>
               (case e of
                  JObject _ \<Rightarrow>
                    (case (json_text (json_field e ''code''), json_text (json_field e ''message'')) of
                       (Some c, Some m) \<Rightarrow> Some (c, m)
                     | _ \<Rightarrow> None)
                | _ \<Rightarrow> None))
      | _ \<Rightarrow> None)"

definition parseError :: "response \<Rightarrow> go_error" where
  "parseError resp =
     (let unexpected = Errorf (''http '' @ fmt_d (fst resp) @ '': unexpected response body'') in
      case snd resp of
        None \<Rightarrow> unexpected
      | Some body \<Rightarrow>
          (case decode_errorEnvelope body of
             Some (code, message) \<Rightarrow>
               if code \<noteq> [] then SidecarErr code message (fst resp) else unexpected
           | None \<Rightarrow> unexpected))"

text \<open>\<open>do\<close>: one request; \<open>decode\<close> is the struct the body of a 2xx response is decoded into.\<close>

definition Client_do ::
  "'w httpDoer \<Rightarrow> string \<Rightarrow> string \<Rightarrow> json option \<Rightarrow> (json \<Rightarrow> 'a option) \<Rightarrow> 'w \<Rightarrow> 'a result \<times> 'w" where
  "Client_do http meth path reqBody decode w =
     (case http meth path reqBody w of
        (Inl err, w) \<Rightarrow> (Inl (Wrap (''http '' @ meth @ '' '' @ path) (Errorf err)), w)
      | (Inr resp, w) \<Rightarrow>
          if fst resp < 200 \<or> fst resp \<ge> 300 then (Inl (parseError resp), w)
          else
            (case Option.bind (snd resp) decode of
               None \<Rightarrow> (Inl (Errorf ''decode response''), w)
             | Some out \<Rightarrow> (Inr out, w)))"

definition Client_read :: "'w httpDoer \<Rightarrow> string \<Rightarrow> int \<Rightarrow> int \<Rightarrow> 'w \<Rightarrow> u16 list result \<times> 'w" where
  "Client_read http path addr count w =
     Client_do http ''POST'' path (Some (JObject [(''addr'', JInt addr), (''count'', JInt count)]))
       decode_readResponse w"

definition Client_ReadInput :: "'w httpDoer \<Rightarrow> int \<Rightarrow> int \<Rightarrow> 'w \<Rightarrow> u16 list result \<times> 'w" where
  "Client_ReadInput http addr count w =
     (case Client_read http ''/read_input'' addr count w of
        (Inl err, w) \<Rightarrow>
          (Inl (Wrap (''read_input '' @ fmt_d addr @ ''..'' @ fmt_d (addr + count - 1)) err), w)
      | (Inr regs, w) \<Rightarrow> (Inr regs, w))"

definition Client_ReadHolding :: "'w httpDoer \<Rightarrow> int \<Rightarrow> int \<Rightarrow> 'w \<Rightarrow> u16 list result \<times> 'w" where
  "Client_ReadHolding http addr count w =
     (case Client_read http ''/read_holding'' addr count w of
        (Inl err, w) \<Rightarrow>
          (Inl (Wrap (''read_holding '' @ fmt_d addr @ ''..'' @ fmt_d (addr + count - 1)) err), w)
      | (Inr regs, w) \<Rightarrow> (Inr regs, w))"

definition Client_WriteHolding :: "'w httpDoer \<Rightarrow> int \<Rightarrow> u16 \<Rightarrow> 'w \<Rightarrow> unit result \<times> 'w" where
  "Client_WriteHolding http addr value w =
     (let ctx = ''write_holding '' @ fmt_d addr @ ''='' @ fmt_nat (unat value) in
      case Client_do http ''POST'' ''/write_holding''
             (Some (JObject [(''addr'', JInt addr), (''value'', JInt (uint value))]))
             decode_writeResponse w of
        (Inl err, w) \<Rightarrow> (Inl (Wrap ctx err), w)
      | (Inr ok, w) \<Rightarrow>
          if \<not> ok then (Inl (Errorf (ctx @ '': sidecar reported ok=false'')), w) else (Inr (), w))"

definition Client :: "'w httpDoer \<Rightarrow> 'w HoldingReadWriter" where
  "Client http = \<lparr>ReadHolding = Client_ReadHolding http, WriteHolding = Client_WriteHolding http\<rparr>"

section \<open>errors.py\<close>

text \<open>The exceptions of the taxonomy, with the wire code and the status of each class.\<close>

datatype sidecar_error =
    SidecarError string
  | BadRequestError string
  | RequestTimeoutError string
  | IllegalAddressError string
  | FrameError string
  | TransportConnectionError string
  | NotFoundError string

fun error_code :: "sidecar_error \<Rightarrow> string" where
  "error_code (SidecarError m) = ''internal_error''"
| "error_code (BadRequestError m) = ''bad_request''"
| "error_code (RequestTimeoutError m) = ''timeout''"
| "error_code (IllegalAddressError m) = ''illegal_address''"
| "error_code (FrameError m) = ''frame_error''"
| "error_code (TransportConnectionError m) = ''connection_error''"
| "error_code (NotFoundError m) = ''not_found''"

fun error_status :: "sidecar_error \<Rightarrow> int" where
  "error_status (SidecarError m) = 500"
| "error_status (BadRequestError m) = 400"
| "error_status (RequestTimeoutError m) = 504"
| "error_status (IllegalAddressError m) = 502"
| "error_status (FrameError m) = 502"
| "error_status (TransportConnectionError m) = 503"
| "error_status (NotFoundError m) = 404"

fun error_message :: "sidecar_error \<Rightarrow> string" where
  "error_message (SidecarError m) = m"
| "error_message (BadRequestError m) = m"
| "error_message (RequestTimeoutError m) = m"
| "error_message (IllegalAddressError m) = m"
| "error_message (FrameError m) = m"
| "error_message (TransportConnectionError m) = m"
| "error_message (NotFoundError m) = m"

section \<open>mock.py\<close>

text \<open>The dict \<open>_regs\<close>; \<open>taken\<close> is a history variable: the register writes the transport has carried out.\<close>

record MockTransport =
  mock_regs :: "int \<rightharpoonup> int"
  taken :: "(int \<times> u16) list"

text \<open>The constructor: \<open>fixtures\<close> are the address and value pairs of each fixture file, in their order.\<close>

definition MockTransport_init :: "(int \<times> int) list list \<Rightarrow> MockTransport" where
  "MockTransport_init fixtures =
     \<lparr>mock_regs = fold (\<lambda>(addr, value) regs. regs(addr \<mapsto> value AND 0xFFFF)) (concat fixtures) Map.empty, taken = []\<rparr>"

definition mock_read :: "int \<Rightarrow> int \<Rightarrow> MockTransport \<Rightarrow> int list" where
  "mock_read addr count t =
     map (\<lambda>i. case mock_regs t (addr + int i) of Some v \<Rightarrow> v | None \<Rightarrow> 0) [0..<nat count]"

definition mock_write_holding :: "int \<Rightarrow> int \<Rightarrow> MockTransport \<Rightarrow> MockTransport" where
  "mock_write_holding addr value t =
     t\<lparr>mock_regs := (mock_regs t)(addr \<mapsto> value AND 0xFFFF), taken := taken t @ [(addr, of_int value)]\<rparr>"

section \<open>http\_api.py\<close>

text \<open>The interface both transports have; an exception is a value, and the lock makes a call one step.\<close>

record 't Transport =
  tr_read_input :: "int \<Rightarrow> int \<Rightarrow> 't \<Rightarrow> (sidecar_error + int list) \<times> 't"
  tr_read_holding :: "int \<Rightarrow> int \<Rightarrow> 't \<Rightarrow> (sidecar_error + int list) \<times> 't"
  tr_write_holding :: "int \<Rightarrow> int \<Rightarrow> 't \<Rightarrow> (sidecar_error + int) \<times> 't"
  tr_health :: "'t \<Rightarrow> bool \<times> 't"

definition mock_transport :: "MockTransport Transport" where
  "mock_transport =
     \<lparr>tr_read_input = (\<lambda>addr count t. (Inr (mock_read addr count t), t)),
      tr_read_holding = (\<lambda>addr count t. (Inr (mock_read addr count t), t)),
      tr_write_holding = (\<lambda>addr value t. (Inr value, mock_write_holding addr value t)),
      tr_health = (\<lambda>t. (True, t))\<rparr>"

lemma mock_transport_sel [simp]:
  "tr_read_input mock_transport a n t = (Inr (mock_read a n t), t)" "tr_read_holding mock_transport a n t = (Inr (mock_read a n t), t)"
  "tr_write_holding mock_transport a v t = (Inr v, mock_write_holding a v t)" "tr_health mock_transport t = (True, t)"
  by (simp_all add: mock_transport_def)

definition MAX_COUNT :: int where "MAX_COUNT = 125"
definition U16_MAX :: int where "U16_MAX = 0xFFFF"

text \<open>\<open>repr\<close> of a field name.\<close>

definition py_repr :: "string \<Rightarrow> string" where "py_repr key = [CHR 0x27] @ key @ [CHR 0x27]"

definition require_int :: "json \<Rightarrow> string \<Rightarrow> int \<Rightarrow> int \<Rightarrow> sidecar_error + int" where
  "require_int body key lo hi =
     (case json_field body key of
        None \<Rightarrow> Inl (BadRequestError (''missing field: '' @ py_repr key))
      | Some (JInt value) \<Rightarrow>
          if value < lo \<or> value > hi
          then Inl (BadRequestError (py_repr key @ '' must be in '' @ fmt_d lo @ ''..'' @ fmt_d hi @ '', got '' @ fmt_d value))
          else Inr value
      | Some _ \<Rightarrow> Inl (BadRequestError (py_repr key @ '' must be an integer'')))"

definition read_body :: "json option \<Rightarrow> sidecar_error + json" where
  "read_body raw =
     (case raw of
        None \<Rightarrow> Inr (JObject [])
      | Some (JObject kvs) \<Rightarrow> Inr (JObject kvs)
      | Some _ \<Rightarrow> Inl (BadRequestError ''request body must be a JSON object''))"

definition send_error :: "sidecar_error \<Rightarrow> response" where
  "send_error err =
     (error_status err,
      Some (JObject [(''error'',
        JObject [(''code'', JString (error_code err)), (''message'', JString (error_message err))])]))"

definition handle_read :: "(int \<Rightarrow> int \<Rightarrow> 't \<Rightarrow> (sidecar_error + int list) \<times> 't) \<Rightarrow> json option \<Rightarrow> 't \<Rightarrow> (sidecar_error + response) \<times> 't" where
  "handle_read read_fn raw t =
     (case read_body raw of
        Inl e \<Rightarrow> (Inl e, t)
      | Inr body \<Rightarrow>
          (case require_int body ''addr'' 0 U16_MAX of
             Inl e \<Rightarrow> (Inl e, t)
           | Inr addr \<Rightarrow>
               (case require_int body ''count'' 1 MAX_COUNT of
                  Inl e \<Rightarrow> (Inl e, t)
                | Inr count \<Rightarrow>
                    (case read_fn addr count t of
                       (Inl e, t) \<Rightarrow> (Inl e, t)
                     | (Inr regs, t) \<Rightarrow>
                         (Inr (200, Some (JObject [(''addr'', JInt addr), (''count'', JInt count),
                            (''regs'', JList (map JInt regs))])), t)))))"

definition handle_write :: "'t Transport \<Rightarrow> json option \<Rightarrow> 't \<Rightarrow> (sidecar_error + response) \<times> 't" where
  "handle_write tr raw t =
     (case read_body raw of
        Inl e \<Rightarrow> (Inl e, t)
      | Inr body \<Rightarrow>
          (case require_int body ''addr'' 0 U16_MAX of
             Inl e \<Rightarrow> (Inl e, t)
           | Inr addr \<Rightarrow>
               (case require_int body ''value'' 0 U16_MAX of
                  Inl e \<Rightarrow> (Inl e, t)
                | Inr value \<Rightarrow>
                    (case tr_write_holding tr addr value t of
                       (Inl e, t) \<Rightarrow> (Inl e, t)
                     | (Inr _, t) \<Rightarrow>
                         (Inr (200, Some (JObject [(''addr'', JInt addr), (''value'', JInt value),
                            (''ok'', JBool True)])), t)))))"

definition handle_health :: "'t Transport \<Rightarrow> string \<Rightarrow> 't \<Rightarrow> (sidecar_error + response) \<times> 't" where
  "handle_health tr mode t =
     (let (reachable, t) = tr_health tr t in
      (Inr (200, Some (JObject [(''ok'', JBool True), (''inverter_reachable'', JBool reachable),
         (''mode'', JString mode)])), t))"

text \<open>\<open>do_GET\<close> and \<open>do_POST\<close>: the route, with an exception of the taxonomy sent as its envelope.\<close>

definition serve :: "'t Transport \<Rightarrow> string \<Rightarrow> string \<Rightarrow> string \<Rightarrow> json option \<Rightarrow> 't \<Rightarrow> response \<times> 't" where
  "serve tr mode meth path body t =
     (let (r, t) =
        (if meth = ''GET'' then
           (if path = ''/health'' then handle_health tr mode t
            else (Inl (NotFoundError (''unknown route: GET '' @ path)), t))
         else if path = ''/read_input'' then handle_read (tr_read_input tr) body t
         else if path = ''/read_holding'' then handle_read (tr_read_holding tr) body t
         else if path = ''/write_holding'' then handle_write tr body t
         else (Inl (NotFoundError (''unknown route: POST '' @ path)), t))
      in case r of Inl e \<Rightarrow> (send_error e, t) | Inr resp \<Rightarrow> (resp, t))"

section \<open>The sidecar behind a network\<close>

text \<open>
  The fate of the next request: it is answered, it never arrives, or it is carried out and its reply
  is lost. When the list runs out every request is answered.
\<close>

datatype fate = Answered | Refused | ReplyLost

record 't remote =
  transport :: 't
  fates :: "fate list"

definition next_fate :: "'t remote \<Rightarrow> fate \<times> 't remote" where
  "next_fate w = (case fates w of [] \<Rightarrow> (Answered, w) | f # fs \<Rightarrow> (f, w\<lparr>fates := fs\<rparr>))"

definition http_over :: "'t Transport \<Rightarrow> string \<Rightarrow> 't remote httpDoer" where
  "http_over tr mode meth path body w =
     (let (f, w) = next_fate w;
          (resp, t) = serve tr mode meth path body (transport w)
      in case f of
           Refused \<Rightarrow> (Inl ''connection refused'', w)
         | ReplyLost \<Rightarrow> (Inl ''timeout awaiting response'', w\<lparr>transport := t\<rparr>)
         | Answered \<Rightarrow> (Inr resp, w\<lparr>transport := t\<rparr>))"

type_synonym mock_world = "MockTransport remote"

abbreviation mock_http :: "mock_world httpDoer" where
  "mock_http \<equiv> http_over mock_transport ''mock''"

definition mock_bank :: "MockTransport \<Rightarrow> bank" where
  "mock_bank t a = of_int (case mock_regs t a of Some v \<Rightarrow> v | None \<Rightarrow> 0)"

definition mock_holding :: "mock_world \<Rightarrow> bank" where
  "mock_holding w a = of_int (case mock_regs (transport w) a of Some v \<Rightarrow> v | None \<Rightarrow> 0)"

definition mock_wear :: "mock_world \<Rightarrow> (int \<times> u16) list" where
  "mock_wear w = taken (transport w)"

abbreviation mock_client :: "mock_world HoldingReadWriter" where
  "mock_client \<equiv> Client mock_http"

section \<open>The wire\<close>

lemma next_fate_transport: "next_fate w = (f, w') \<Longrightarrow> transport w' = transport w"
  by (auto simp: next_fate_def split: list.splits)

lemma error_status_range: "error_status e < 200 \<or> 300 \<le> error_status e"
  by (cases e) auto

lemma error_code_nonempty [simp]: "error_code e \<noteq> []"
  by (cases e) auto

lemma parseError_send_error: "parseError (send_error e) = SidecarErr (error_code e) (error_message e) (error_status e)"
  by (simp add: parseError_def send_error_def decode_errorEnvelope_def json_text_def)

lemma json_u16s_JInt:
  assumes "json_u16s (map JInt vs) = Some regs"
  shows "regs = map of_int vs"
  using assms by (induction vs arbitrary: regs) (auto simp: json_u16_def split: option.splits if_splits)

lemma json_u16s_in_range: "\<forall>v \<in> set vs. 0 \<le> v \<and> v < 65536 \<Longrightarrow> json_u16s (map JInt vs) = Some (map of_int vs)"
  by (induction vs) (auto simp: json_u16_def)

lemma decode_readResponse_regs:
  "decode_readResponse (JObject [(''addr'', JInt a), (''count'', JInt n), (''regs'', JList js)]) = json_u16s js"
  by (simp add: decode_readResponse_def json_int_ok_def)

lemma decode_writeResponse_ok:
  "decode_writeResponse (JObject [(''addr'', JInt a), (''value'', JInt (uint (v :: u16))), (''ok'', JBool True)]) = Some True"
  using uint_u16_bounds [of v] by (simp add: decode_writeResponse_def json_int_ok_def json_u16_def)

lemma Client_do_world: "snd (Client_do http m p b d w) = snd (http m p b w)"
  by (auto simp: Client_do_def split: prod.splits sum.splits option.splits)

lemma ReadHolding_world: "snd (Client_ReadHolding http a n w) =
    snd (http ''POST'' ''/read_holding'' (Some (JObject [(''addr'', JInt a), (''count'', JInt n)])) w)"
  by (auto simp: Client_ReadHolding_def Client_read_def split: prod.splits sum.splits)
    (metis Client_do_world snd_conv)+

lemma ReadInput_world: "snd (Client_ReadInput http a n w) =
    snd (http ''POST'' ''/read_input'' (Some (JObject [(''addr'', JInt a), (''count'', JInt n)])) w)"
  by (auto simp: Client_ReadInput_def Client_read_def split: prod.splits sum.splits)
    (metis Client_do_world snd_conv)+

text \<open>What a read and a write come to in the sidecar: one call of the transport, or none.\<close>

lemma handle_read_cases:
  assumes "handle_read fn (Some (JObject [(''addr'', JInt a), (''count'', JInt n)])) t = (r, t')"
  obtains (refused) e where "r = Inl e" "t' = t"
  | (raised) e where "fn a n t = (Inl e, t')" "r = Inl e"
  | (answered) ws where "fn a n t = (Inr ws, t')" "1 \<le> n"
      "r = Inr (200, Some (JObject [(''addr'', JInt a), (''count'', JInt n), (''regs'', JList (map JInt ws))]))"
  using assms refused raised answered
  by (auto simp: handle_read_def read_body_def require_int_def split: if_splits prod.splits sum.splits)

lemma handle_write_cases:
  assumes "handle_write tr (Some (JObject [(''addr'', JInt a), (''value'', JInt (uint (v :: u16)))])) t = (r, t')"
  obtains (refused) e where "r = Inl e" "t' = t"
  | (raised) e where "tr_write_holding tr a (uint v) t = (Inl e, t')" "r = Inl e"
  | (answered) x where "tr_write_holding tr a (uint v) t = (Inr x, t')"
      "r = Inr (200, Some (JObject [(''addr'', JInt a), (''value'', JInt (uint v)), (''ok'', JBool True)]))"
  using assms refused raised answered
  by (auto simp: handle_write_def read_body_def require_int_def split: if_splits prod.splits sum.splits)

lemma http_over_cases:
  assumes "http_over tr mode meth path body w = (r, w')"
  obtains (refused) err where "r = Inl err" "transport w' = transport w"
  | (lost) err resp where "r = Inl err" "serve tr mode meth path body (transport w) = (resp, transport w')"
  | (answered) resp where "r = Inr resp" "serve tr mode meth path body (transport w) = (resp, transport w')"
proof -
  obtain f w1 where f: "next_fate w = (f, w1)" by fastforce
  obtain resp t where S: "serve tr mode meth path body (transport w1) = (resp, t)" by fastforce
  have t1: "transport w1 = transport w" by (rule next_fate_transport [OF f])
  have H: "(r, w') = (case f of Refused \<Rightarrow> (Inl ''connection refused'', w1)
      | ReplyLost \<Rightarrow> (Inl ''timeout awaiting response'', w1\<lparr>transport := t\<rparr>) | Answered \<Rightarrow> (Inr resp, w1\<lparr>transport := t\<rparr>))"
    using assms f S by (simp add: http_over_def)
  show ?thesis
  proof (cases f)
    case Answered
    with H S t1 show ?thesis by (intro answered) simp_all
  next
    case Refused
    with H t1 show ?thesis by (intro refused) simp_all
  next
    case ReplyLost
    with H S t1 show ?thesis by (intro lost) simp_all
  qed
qed

text \<open>A write of the client: what it did to the transport, and that success is the transport's success.\<close>

lemma WriteHolding_cases:
  assumes "Client_WriteHolding (http_over tr mode) a v w = (q, w')"
  obtains (kept) "transport w' = transport w" "isl q"
  | (called) r where "tr_write_holding tr a (uint v) (transport w) = (r, transport w')" "isl r \<longrightarrow> isl q"
proof -
  let ?b = "Some (JObject [(''addr'', JInt a), (''value'', JInt (uint v))])"
  obtain r0 w0 where H: "http_over tr mode ''POST'' ''/write_holding'' ?b w = (r0, w0)" by fastforce
  have w0: "w0 = w'" using assms H
    by (auto simp: Client_WriteHolding_def Client_do_def Let_def split: prod.splits sum.splits if_splits option.splits)
  have failed: "isl q" if "isl r0 \<or> (\<exists>e. r0 = Inr (send_error e))"
    using assms H that error_status_range
    by (auto simp: Client_WriteHolding_def Client_do_def send_error_def Let_def split: prod.splits sum.splits if_splits option.splits)
  obtain r1 t1 where W: "handle_write tr ?b (transport w) = (r1, t1)" by fastforce
  then have S: "serve tr mode ''POST'' ''/write_holding'' ?b (transport w) =
      (case r1 of Inl e \<Rightarrow> send_error e | Inr resp \<Rightarrow> resp, t1)"
    by (simp add: serve_def split: sum.splits)
  from H [unfolded w0] show ?thesis
  proof (cases rule: http_over_cases)
    case refused
    then show ?thesis using kept failed by simp
  next
    case (lost err resp)
    then have "t1 = transport w'" "isl q" using S failed by simp_all
    with W show ?thesis by (cases rule: handle_write_cases) (use kept called in auto)
  next
    case (answered resp)
    then have t1: "t1 = transport w'" and r0: "r0 = Inr (case r1 of Inl e \<Rightarrow> send_error e | Inr resp \<Rightarrow> resp)" using S by simp_all
    from W [unfolded t1] show ?thesis
      by (cases rule: handle_write_cases) (use kept called failed r0 in auto)
  qed
qed

lemma ReadHolding_Inr:
  assumes "Client_ReadHolding (http_over tr mode) a n w = (Inr regs, w')"
  obtains ws where "tr_read_holding tr a n (transport w) = (Inr ws, transport w')" "regs = map of_int ws" "1 \<le> n"
proof -
  let ?b = "Some (JObject [(''addr'', JInt a), (''count'', JInt n)])"
  obtain r0 w0 where H: "http_over tr mode ''POST'' ''/read_holding'' ?b w = (r0, w0)" by fastforce
  have w0: "w0 = w'" and ok: "\<exists>resp. r0 = Inr resp \<and> \<not> (fst resp < 200 \<or> fst resp \<ge> 300) \<and> Option.bind (snd resp) decode_readResponse = Some regs"
    using assms H
    by (auto simp: Client_ReadHolding_def Client_read_def Client_do_def split: prod.splits sum.splits if_splits option.splits)
  obtain r1 t1 where R: "handle_read (tr_read_holding tr) ?b (transport w) = (r1, t1)" by fastforce
  then have S: "serve tr mode ''POST'' ''/read_holding'' ?b (transport w) =
      (case r1 of Inl e \<Rightarrow> send_error e | Inr resp \<Rightarrow> resp, t1)"
    by (simp add: serve_def split: sum.splits)
  from H [unfolded w0] have t1: "t1 = transport w'" and r0: "r0 = Inr (case r1 of Inl e \<Rightarrow> send_error e | Inr resp \<Rightarrow> resp)"
    by (cases rule: http_over_cases; use S ok in auto)+
  have "\<exists>resp. r1 = Inr resp" using ok r0 error_status_range by (auto simp: send_error_def split: sum.splits)
  with R [unfolded t1] show ?thesis
  proof (cases rule: handle_read_cases)
    case (answered ws)
    then have "json_u16s (map JInt ws) = Some regs" using ok r0 by (simp add: decode_readResponse_regs)
    from json_u16s_JInt [OF this] answered(1,2) show ?thesis using that by simp
  qed auto
qed

section \<open>Transports\<close>

text \<open>
  What a transport promises of its registers: \<open>regs\<close> are the holding registers behind it and \<open>writes\<close> the
  write frames carried out. A register of \<open>stable\<close> changes by these writes only.
\<close>

locale register_transport =
  fixes tr :: "'t Transport" and stable :: "int set" and regs :: "'t \<Rightarrow> bank" and writes :: "'t \<Rightarrow> (int \<times> u16) list"
  assumes input_quiet: "tr_read_input tr a n t = (r, t') \<Longrightarrow> writes t' = writes t \<and> (\<forall>b \<in> stable. regs t' b = regs t b)"
    and holding_quiet: "tr_read_holding tr a n t = (r, t') \<Longrightarrow> writes t' = writes t \<and> (\<forall>b \<in> stable. regs t' b = regs t b)"
    and health_quiet: "tr_health tr t = (up, t') \<Longrightarrow> writes t' = writes t \<and> (\<forall>b \<in> stable. regs t' b = regs t b)"
    and holding_words: "tr_read_holding tr a n t = (Inr ws, t') \<Longrightarrow> 1 \<le> n \<Longrightarrow>
      length ws = nat n \<and> (\<forall>i < length ws. a + int i \<in> stable \<longrightarrow> of_int (ws ! i) = regs t (a + int i))"
    and write_once: "tr_write_holding tr a (uint v) t = (q, t') \<Longrightarrow>
      isl q \<and> writes t' = writes t \<and> (\<forall>b \<in> stable. regs t' b = regs t b) \<or>
      writes t' = writes t @ [(a, v)] \<and> (\<forall>b \<in> stable. regs t' b = (if b = a then v else regs t b))"
begin

lemma serve_quiet:
  assumes "serve tr mode meth path body t = (resp, t')" "meth = ''GET'' \<or> path \<noteq> ''/write_holding''"
  shows "writes t' = writes t \<and> (\<forall>b \<in> stable. regs t' b = regs t b)"
proof -
  have quiet: "writes t' = writes t \<and> (\<forall>b \<in> stable. regs t' b = regs t b)"
    if "handle_read fn body t = (r, t')" "\<And>a n r t'. fn a n t = (r, t') \<Longrightarrow> writes t' = writes t \<and> (\<forall>b \<in> stable. regs t' b = regs t b)" for fn r t'
    using that by (auto simp: handle_read_def split: sum.splits prod.splits)
  show ?thesis
    using assms quiet [OF _ input_quiet] quiet [OF _ holding_quiet] health_quiet
    by (auto simp: serve_def handle_health_def Let_def split: if_splits sum.splits prod.splits)
qed

lemma http_quiet:
  assumes "http_over tr mode meth path body w = (r, w')" "meth = ''GET'' \<or> path \<noteq> ''/write_holding''"
  shows "writes (transport w') = writes (transport w) \<and> (\<forall>b \<in> stable. regs (transport w') b = regs (transport w) b)"
  using assms(1) by (cases rule: http_over_cases) (use serve_quiet assms(2) in auto)

lemma ReadInput_quiet:
  assumes "Client_ReadInput (http_over tr mode) a n w = (r, w')"
  shows "writes (transport w') = writes (transport w) \<and> (\<forall>b \<in> stable. regs (transport w') b = regs (transport w) b)"
proof -
  let ?b = "Some (JObject [(''addr'', JInt a), (''count'', JInt n)])"
  obtain r0 where "http_over tr mode ''POST'' ''/read_input'' ?b w = (r0, w')"
    using assms ReadInput_world [of "http_over tr mode" a n w] by (metis prod.collapse snd_conv)
  from http_quiet [OF this] show ?thesis by simp
qed

lemma ReadHolding_quiet:
  assumes "Client_ReadHolding (http_over tr mode) a n w = (r, w')"
  shows "writes (transport w') = writes (transport w) \<and> (\<forall>b \<in> stable. regs (transport w') b = regs (transport w) b)"
proof -
  let ?b = "Some (JObject [(''addr'', JInt a), (''count'', JInt n)])"
  obtain r0 where "http_over tr mode ''POST'' ''/read_holding'' ?b w = (r0, w')"
    using assms ReadHolding_world [of "http_over tr mode" a n w] by (metis prod.collapse snd_conv)
  from http_quiet [OF this] show ?thesis by simp
qed

lemma client_faithful: "faithful_bus (Client (http_over tr mode)) stable (regs \<circ> transport) (writes \<circ> transport)"
proof (unfold_locales, unfold Client_def HoldingReadWriter.simps comp_apply)
  fix a n w r w' b
  assume "Client_ReadHolding (http_over tr mode) a n w = (r, w')"
  note Q = ReadHolding_quiet [OF this]
  show "writes (transport w') = writes (transport w)" using Q by simp
  show "regs (transport w') b = regs (transport w) b" if "b \<in> stable" using Q that by simp
next
  fix a n w ws w'
  assume "Client_ReadHolding (http_over tr mode) a n w = (Inr ws, w')"
  then show "int (length ws) \<le> n" by (rule ReadHolding_Inr) (use holding_words in force)
next
  fix a n w ws w' i
  assume "Client_ReadHolding (http_over tr mode) a n w = (Inr ws, w')" "i < length ws" "a + int i \<in> stable"
  then show "ws ! i = regs (transport w) (a + int i)" by (elim ReadHolding_Inr) (use holding_words in fastforce)
next
  fix a v w q w' b
  assume W: "Client_WriteHolding (http_over tr mode) a v w = (q, w')"
  have once: "isl q \<and> writes (transport w') = writes (transport w) \<and> (\<forall>b \<in> stable. regs (transport w') b = regs (transport w) b) \<or>
      writes (transport w') = writes (transport w) @ [(a, v)] \<and>
      (\<forall>b \<in> stable. regs (transport w') b = (if b = a then v else regs (transport w) b))"
    using W by (cases rule: WriteHolding_cases) (use write_once in \<open>auto dest!: write_once\<close>)
  then show "writes (transport w') = writes (transport w) \<or> writes (transport w') = writes (transport w) @ [(a, v)]" by blast
  show "regs (transport w') b = regs (transport w) b" if "b \<in> stable" "b \<noteq> a \<or> writes (transport w') = writes (transport w)"
    using once that by auto
  show "regs (transport w') a = v" if "writes (transport w') \<noteq> writes (transport w)" "a \<in> stable" using once that by auto
next
  fix a v w u w'
  assume W: "Client_WriteHolding (http_over tr mode) a v w = (Inr u, w')"
  then show "writes (transport w') = writes (transport w) @ [(a, v)]"
    by (cases rule: WriteHolding_cases) (use write_once in \<open>auto dest!: write_once\<close>)
qed

end

section \<open>The mock transport\<close>

lemma mock_write_bank: "mock_bank (mock_write_holding a (uint (v :: u16)) t) b = (if b = a then v else mock_bank t b)"
proof -
  have "(0xFFFF :: int) = mask 16" by (simp add: mask_eq_exp_minus_1)
  then have "uint v AND 0xFFFF = uint v"
    using uint_u16_bounds [of v] by (simp only: take_bit_eq_mask [symmetric]) (simp add: take_bit_int_eq_self)
  then show ?thesis by (simp add: mock_bank_def mock_write_holding_def)
qed

lemma mock_write_taken: "taken (mock_write_holding a v t) = taken t @ [(a, of_int v)]"
  by (simp add: mock_write_holding_def)

interpretation mock_tr: register_transport mock_transport UNIV mock_bank taken
  by unfold_locales (auto simp: mock_write_bank mock_write_taken mock_read_def mock_bank_def [of _ "_ + _"])

lemma mock_holding_bank: "mock_holding = mock_bank \<circ> transport" "mock_wear = taken \<circ> transport"
  by (auto simp: mock_holding_def mock_bank_def mock_wear_def fun_eq_iff)

lemma mock_client_simps [simp]:
  "ReadHolding mock_client = Client_ReadHolding mock_http"
  "WriteHolding mock_client = Client_WriteHolding mock_http"
  by (simp_all add: Client_def)

interpretation mock: faithful_bus mock_client UNIV mock_holding mock_wear
  unfolding mock_holding_bank by (rule mock_tr.client_faithful)

text \<open>
  With nothing in the way, and a dict of 16-bit words, the client over the mock sidecar is up.
\<close>

definition mock_up :: "mock_world \<Rightarrow> bool" where
  "mock_up w \<longleftrightarrow> fates w = [] \<and> (\<forall>a v. mock_regs (transport w) a = Some v \<longrightarrow> 0 \<le> v \<and> v < 65536)"

lemma and_u16_range: "0 \<le> (x AND 0xFFFF :: int) \<and> x AND 0xFFFF < 65536"
proof -
  have "(0xFFFF :: int) = mask 16" by (simp add: mask_eq_exp_minus_1)
  then show ?thesis by (simp only: take_bit_eq_mask [symmetric]) (simp add: take_bit_eq_mod)
qed

text \<open>A mock seeded from any fixtures is up: the words are masked.\<close>

lemma MockTransport_init_up: "mock_up \<lparr>transport = MockTransport_init fixtures, fates = []\<rparr>"
proof -
  define words where "words m \<longleftrightarrow> (\<forall>a v. m a = Some v \<longrightarrow> 0 \<le> v \<and> v < 65536)" for m :: "int \<rightharpoonup> int"
  define seed where "seed x m = m(fst x \<mapsto> snd x AND 0xFFFF)" for x :: "int \<times> int" and m :: "int \<rightharpoonup> int"
  have step: "words (seed x m)" if "words m" for x m using that and_u16_range [of "snd x"] unfolding words_def seed_def by simp
  have fold: "words (fold seed seeds m)" if "words m" for seeds m using that by (induction seeds arbitrary: m) (simp_all add: step)
  have "words Map.empty" by (simp add: words_def)
  from fold [OF this] have "words (fold seed (concat fixtures) Map.empty)" .
  moreover have "seed = (\<lambda>(addr, value) regs. regs(addr \<mapsto> value AND 0xFFFF))" by (intro ext) (simp add: seed_def case_prod_unfold)
  ultimately show ?thesis unfolding words_def by (simp add: mock_up_def MockTransport_init_def)
qed

lemma mock_read_up:
  assumes "mock_up w" "0 \<le> a" "a < 65536" "1 \<le> n" "n \<le> 125"
  shows "Client_ReadHolding mock_http a n w = (Inr (map of_int (mock_read a n (transport w))), w)"
proof -
  have r: "\<forall>v \<in> set (mock_read a n (transport w)). 0 \<le> v \<and> v < 65536"
    using assms(1) by (auto simp: mock_up_def mock_read_def split: option.splits)
  have "mock_http ''POST'' ''/read_holding'' (Some (JObject [(''addr'', JInt a), (''count'', JInt n)])) w =
      (Inr (200, Some (JObject [(''addr'', JInt a), (''count'', JInt n),
         (''regs'', JList (map JInt (mock_read a n (transport w))))])), w)"
    using assms by (simp add: http_over_def next_fate_def mock_up_def serve_def handle_read_def read_body_def
        require_int_def U16_MAX_def MAX_COUNT_def)
  then show ?thesis
    by (simp add: Client_ReadHolding_def Client_read_def Client_do_def decode_readResponse_regs json_u16s_in_range [OF r])
qed

lemma mock_write_up:
  assumes "mock_up w" "0 \<le> a" "a < 65536"
  shows "\<exists>w'. Client_WriteHolding mock_http a v w = (Inr (), w') \<and> mock_up w'"
proof -
  let ?w = "w\<lparr>transport := mock_write_holding a (uint v) (transport w)\<rparr>"
  have "mock_http ''POST'' ''/write_holding'' (Some (JObject [(''addr'', JInt a), (''value'', JInt (uint v))])) w =
      (Inr (200, Some (JObject [(''addr'', JInt a), (''value'', JInt (uint v)), (''ok'', JBool True)])), ?w)"
    using assms uint_u16_bounds [of v]
    by (simp add: http_over_def next_fate_def mock_up_def serve_def handle_write_def read_body_def
        require_int_def U16_MAX_def)
  moreover have "decode_writeResponse (JObject [(''addr'', JInt a), (''value'', JInt (uint v)), (''ok'', JBool True)]) = Some True"
    using uint_u16_bounds [of v] by (simp add: decode_writeResponse_def json_int_ok_def json_u16_def)
  ultimately have "Client_WriteHolding mock_http a v w = (Inr (), ?w)"
    by (simp add: Client_WriteHolding_def Client_do_def)
  moreover have "mock_up ?w"
    using assms(1) and_u16_range by (auto simp: mock_up_def mock_write_holding_def)
  ultimately show ?thesis by blast
qed

interpretation mock: live_bus mock_client UNIV mock_holding mock_wear mock_up
proof (unfold_locales, unfold mock_client_simps)
  fix w and a n :: int
  assume "mock_up w" "0 \<le> a" "a < 65536" "1 \<le> n" "n \<le> 125"
  with mock_read_up [OF this] show "\<exists>regs w'. Client_ReadHolding mock_http a n w = (Inr regs, w') \<and>
      length regs = nat n \<and> mock_up w'"
    by (simp add: mock_read_def)
next
  fix w and a :: int and v
  assume "mock_up w" "0 \<le> a" "a < 65536"
  then show "\<exists>w'. Client_WriteHolding mock_http a v w = (Inr (), w') \<and> mock_up w'" by (rule mock_write_up)
qed

section \<open>Properties\<close>

text \<open>The class the contract gives each exception of the sidecar.\<close>

fun error_class :: "sidecar_error \<Rightarrow> sentinel" where
  "error_class (SidecarError m) = ErrInternal"
| "error_class (BadRequestError m) = ErrBadRequest"
| "error_class (RequestTimeoutError m) = ErrTimeout"
| "error_class (IllegalAddressError m) = ErrIllegalAddress"
| "error_class (FrameError m) = ErrFrame"
| "error_class (TransportConnectionError m) = ErrConnection"
| "error_class (NotFoundError m) = ErrNotFound"

text \<open>
  The error classes survive the wire: whatever exception the sidecar answers a request with, the
  client's call fails with an error that is exactly the sentinel of that exception's class, keeping
  its code, message and status.
\<close>

theorem error_class_survives:
  assumes "http meth path body w = (Inr (send_error e), w')"
  shows "Client_do http meth path body decode w =
      (Inl (SidecarErr (error_code e) (error_message e) (error_status e)), w') \<and>
    (is_sentinel (SidecarErr (error_code e) (error_message e) (error_status e)) s \<longleftrightarrow> s = error_class e)"
proof
  show "Client_do http meth path body decode w =
      (Inl (SidecarErr (error_code e) (error_message e) (error_status e)), w')"
    using assms error_status_range [of e] parseError_send_error [of e]
    by (auto simp: Client_do_def) (auto simp: send_error_def)
  show "is_sentinel (SidecarErr (error_code e) (error_message e) (error_status e)) s \<longleftrightarrow> s = error_class e"
    by (cases e) (auto simp: sentinelForCode_def codeSentinels_def)
qed

theorem error_class_survives_witness:
  "fst (Client_read mock_http ''/read_holding'' 43000 126 \<lparr>transport = \<lparr>mock_regs = Map.empty, taken = []\<rparr>, fates = []\<rparr>) =
     Inl (SidecarErr ''bad_request'' (py_repr ''count'' @ '' must be in 1..125, got 126'') 400)"
proof -
  let ?w = "\<lparr>transport = \<lparr>mock_regs = Map.empty, taken = []\<rparr>, fates = []\<rparr>"
    and ?e = "BadRequestError (py_repr ''count'' @ '' must be in '' @ fmt_d 1 @ ''..'' @ fmt_d 125 @ '', got '' @ fmt_d 126)"
  have t: "fmt_d 1 = ''1''" "fmt_d 125 = ''125''" "fmt_d 126 = ''126''" by code_simp+
  have "mock_http ''POST'' ''/read_holding'' (Some (JObject [(''addr'', JInt 43000), (''count'', JInt 126)])) ?w
      = (Inr (send_error ?e), ?w)"
    by (simp add: http_over_def next_fate_def serve_def handle_read_def read_body_def require_int_def
        U16_MAX_def MAX_COUNT_def)
  from error_class_survives [of mock_http "''POST''" "''/read_holding''", OF this, of decode_readResponse] show ?thesis by (simp add: Client_read_def t)
qed

text \<open>
  Over the mock sidecar the client is a bus that keeps the contract the controls are proved
  against: reads leave every register and the write log alone, an acknowledged write is taken once and
  held, and a write whose reply is lost is either taken once or not at all.
\<close>

theorem mock_client_contract: "faithful_bus (Client mock_http) UNIV mock_holding mock_wear"
  by (rule mock.faithful_bus_axioms)

end
