(* ===== verification/Schedule.thy ===== *)
theory Schedule
  imports TimedSlots GoTime
begin

text \<open>
  \<open>internal/schedule\<close>: the logical schedule behind the three timed slots. \<open>schedule.go\<close> reads it (the
  Time-of-Use window rejoined at midnight, the boost of the last slot), \<open>plan.go\<close> builds the
  schedule the inverter should hold (\<open>Desired\<close>), plans a boost (\<open>PlanBoost\<close>) and maps between a
  boost and the options of the Home Assistant select. Minutes are Go \<open>int\<close>s, always between 0 and
  1440 here.
\<close>

section \<open>schedule.go\<close>

definition windowSeparator :: string where
  \<comment> \<open>en dash, U+2013, in UTF-8\<close>
  "windowSeparator = map char_of [226, 128, 147 :: nat]"

definition isMidnight :: "Clock \<Rightarrow> bool" where
  "isMidnight c \<longleftrightarrow> c = Clock_zero"

definition ToU :: "TimedSlots \<Rightarrow> TimedWindow option" where
  "ToU slots =
     (let first = Charge (Slot0 slots); second = Charge (Slot1 slots) in
      if IsZero first then None
      else if IsZero second then Some first
      else if isMidnight (End first) \<and> isMidnight (Start second)
      then Some \<lparr>Start = Start first, End = End second\<rparr>
      else None)"

text \<open>\<open>Mode\<close> is an \<open>int\<close>; \<open>ModeOther\<close> is any value but the three constants.\<close>

datatype Mode = Off | ModeCharge | ModeDischarge | ModeOther int

fun Mode_String :: "Mode \<Rightarrow> string" where
  "Mode_String Off = ''Off''"
| "Mode_String ModeCharge = ''Charge''"
| "Mode_String ModeDischarge = ''Discharge''"
| "Mode_String (ModeOther m) = ''Mode('' @ fmt_d m @ '')''"

record Boost =
  Boost_Mode :: Mode
  Window :: TimedWindow

definition BoostOf :: "TimedSlots \<Rightarrow> Boost" where
  "BoostOf slots =
     (let slot = Slot2 slots in
      if \<not> IsZero (Charge slot) then \<lparr>Boost_Mode = ModeCharge, Window = Charge slot\<rparr>
      else if \<not> IsZero (Discharge slot) then \<lparr>Boost_Mode = ModeDischarge, Window = Discharge slot\<rparr>
      else \<lparr>Boost_Mode = Off, Window = TimedWindow_zero\<rparr>)"

definition endsAt :: "TimedWindow \<Rightarrow> Time \<Rightarrow> Time" where
  "endsAt w now =
     (let en = End w; day = (if isMidnight en then Time_Day now + 1 else Time_Day now)
      in Time_Date (Time_Year now) (Time_Month now) day (uint (Hour en)) (uint (Minute en)) 0 (t_loc now))"

definition EndsAt :: "Boost \<Rightarrow> Time \<Rightarrow> Time" where
  "EndsAt b now = (if Boost_Mode b = Off then Time_zero else endsAt (Window b) now)"

definition Boost_String :: "Boost \<Rightarrow> string" where
  "Boost_String b =
     (if Boost_Mode b = Off then Mode_String Off
      else Mode_String (Boost_Mode b) @ '' until '' @ Clock_String (End (Window b)))"

definition FormatWindow :: "TimedWindow \<Rightarrow> string" where
  "FormatWindow w = Clock_String (Start w) @ windowSeparator @ Clock_String (End w)"

section \<open>plan.go\<close>

definition minutesPerDay :: int where "minutesPerDay = 24 * 60"
definition boostStep :: int where "boostStep = 15"
definition boostDurations :: "int list" where "boostDurations = [15, 30, 45, 60]"

text \<open>The three results of \<open>ParseToUWindow\<close>: an error, or the window and whether it is enabled.\<close>

definition ParseToUWindow :: "string \<Rightarrow> (TimedWindow \<times> bool) result" where
  "ParseToUWindow s =
     (if s = [] then Inr (TimedWindow_zero, False)
      else case Cut (CHR ''-'') s of
        None \<Rightarrow> Inl (Errorf (''invalid time-of-use window '' @ fmt_q s @ '': want HH:MM-HH:MM''))
      | Some (startText, endText) \<Rightarrow>
          (case ParseClock startText of
             Inl err \<Rightarrow> Inl (Wrap (''invalid time-of-use window '' @ fmt_q s @ '': start'') err)
           | Inr start \<Rightarrow>
               (case ParseClock endText of
                  Inl err \<Rightarrow> Inl (Wrap (''invalid time-of-use window '' @ fmt_q s @ '': end'') err)
                | Inr en \<Rightarrow>
                    if start = en
                    then Inl (Errorf (''invalid time-of-use window '' @ fmt_q s
                           @ '': start and end are the same''))
                    else Inr (\<lparr>Start = start, End = en\<rparr>, True))))"

definition minuteOf :: "Time \<Rightarrow> int" where
  "minuteOf now = Time_Hour now * 60 + Time_Minute now"

definition minuteOfDay :: "Clock \<Rightarrow> int" where
  "minuteOfDay c = uint (Hour c) * 60 + uint (Minute c)"

definition endMinuteOfDay :: "Clock \<Rightarrow> int" where
  "endMinuteOfDay c = (if isMidnight c then minutesPerDay else minuteOfDay c)"

text \<open>\<open>uint8(minute / 60)\<close>: the callers keep the minute inside the day, so it is not negative.\<close>

definition clockAt :: "int \<Rightarrow> Clock" where
  "clockAt minute = \<lparr>Hour = of_int (minute div 60), Minute = of_int (minute mod 60)\<rparr>"

definition roundUpToStep :: "int \<Rightarrow> int" where
  "roundUpToStep minutes =
     (if minutes \<le> 0 then minutes else (minutes + boostStep - 1) div boostStep * boostStep)"

definition intersects :: "int \<Rightarrow> int \<Rightarrow> int \<Rightarrow> int \<Rightarrow> bool" where
  "intersects aStart aEnd bStart bEnd \<longleftrightarrow> aStart < bEnd \<and> bStart < aEnd"

definition overlaps :: "TimedWindow \<Rightarrow> int \<Rightarrow> int \<Rightarrow> bool" where
  "overlaps w start en =
     (if IsZero w then False
      else
        (let windowStart = minuteOfDay (Start w); windowEnd = endMinuteOfDay (End w) in
         if windowStart < windowEnd then intersects start en windowStart windowEnd
         else intersects start en windowStart minutesPerDay \<or> intersects start en 0 windowEnd))"

definition ToUSlots :: "TimedWindow \<Rightarrow> TimedSlot \<times> TimedSlot" where
  "ToUSlots tou =
     (if \<not> isMidnight (End tou) \<and> minuteOfDay (Start tou) < minuteOfDay (End tou)
      then (\<lparr>Charge = tou, Discharge = TimedWindow_zero\<rparr>, TimedSlot_zero)
      else
        (let beforeMidnight =
               \<lparr>Charge = \<lparr>Start = Start tou, End = Clock_zero\<rparr>, Discharge = TimedWindow_zero\<rparr>
         in if isMidnight (End tou) then (beforeMidnight, TimedSlot_zero)
            else (beforeMidnight,
                  \<lparr>Charge = \<lparr>Start = Clock_zero, End = End tou\<rparr>, Discharge = TimedWindow_zero\<rparr>)))"

definition live :: "TimedWindow \<Rightarrow> Time \<Rightarrow> bool" where
  "live w now =
     (if IsZero w \<or> isMidnight (End w) then False
      else
        (let nowMinute = minuteOf now in
         minuteOfDay (Start w) \<le> nowMinute \<and> nowMinute < minuteOfDay (End w)))"

definition running :: "TimedSlot \<Rightarrow> Time \<Rightarrow> TimedSlot" where
  "running slot now =
     (let slot = (if \<not> live (Charge slot) now then slot\<lparr>Charge := TimedWindow_zero\<rparr> else slot);
          slot = (if \<not> live (Discharge slot) now then slot\<lparr>Discharge := TimedWindow_zero\<rparr> else slot)
      in slot)"

definition Desired :: "TimedWindow \<Rightarrow> bool \<Rightarrow> TimedSlots \<Rightarrow> Time \<Rightarrow> TimedSlots" where
  "Desired tou assertToU slots now =
     (let desired =
            (if assertToU \<and> \<not> IsZero tou
             then (let (s0, s1) = ToUSlots tou in slots\<lparr>Slot0 := s0, Slot1 := s1\<rparr>)
             else slots)
      in desired\<lparr>Slot2 := running (Slot2 slots) now\<rparr>)"

definition boostOption :: "Mode \<Rightarrow> int \<Rightarrow> string" where
  "boostOption mode minutes = Mode_String mode @ '' '' @ fmt_d minutes @ '' min''"

definition BoostOptions :: "string list" where
  "BoostOptions =
     Mode_String Off #
     concat (map (\<lambda>mode. map (boostOption mode) boostDurations) [ModeCharge, ModeDischarge])"

text \<open>The two nested loops of \<open>ParseBoostOption\<close>: the first candidate whose option is \<open>s\<close>.\<close>

definition boostCandidates :: "(Mode \<times> int) list" where
  "boostCandidates =
     concat (map (\<lambda>mode. map (Pair mode) boostDurations) [ModeCharge, ModeDischarge])"

definition ParseBoostOption :: "string \<Rightarrow> (Mode \<times> int) option" where
  "ParseBoostOption s0 =
     (let s = TrimSpace s0 in
      if s = Mode_String Off then Some (Off, 0)
      else List.find (\<lambda>(mode, minutes). s = boostOption mode minutes) boostCandidates)"

definition PlanBoost :: "Mode \<Rightarrow> int \<Rightarrow> Time \<Rightarrow> TimedWindow \<Rightarrow> bool \<Rightarrow> TimedSlot result" where
  "PlanBoost mode minutes now tou assertToU =
     (if mode \<noteq> ModeCharge \<and> mode \<noteq> ModeDischarge
      then Inl (Errorf (''plan boost: mode '' @ Mode_String mode @ '' has no window to plan''))
      else if minutes \<le> 0 \<or> minutes mod boostStep \<noteq> 0
      then Inl (Errorf (''plan boost: '' @ fmt_d minutes @ '' minutes is not a positive multiple of ''
             @ fmt_d boostStep))
      else
        (let start = minuteOf now;
             en = (start div boostStep + 1) * boostStep + minutes - boostStep in
         if en \<ge> minutesPerDay
         then Inl (Wrap (fmt_d minutes @ '' min boost from '' @ Clock_String (clockAt start))
                ErrCrossesMidnight)
         else
           (let window = \<lparr>Start = clockAt start, End = clockAt en\<rparr> in
            if assertToU \<and> overlaps tou start en
            then Inl (Wrap (''boost '' @ FormatWindow window @ '' against tariff '' @ FormatWindow tou)
                   ErrOverlapsToU)
            else if mode = ModeDischarge
            then Inr \<lparr>Charge = TimedWindow_zero, Discharge = window\<rparr>
            else Inr \<lparr>Charge = window, Discharge = TimedWindow_zero\<rparr>)))"

text \<open>The pointer result is \<^const>\<open>None\<close> where the Go function returns \<open>nil\<close>.\<close>

definition BoostSelectState :: "TimedSlots \<Rightarrow> string option" where
  "BoostSelectState slots =
     (let boost = BoostOf slots in
      if Boost_Mode boost = Off then Some (Mode_String Off)
      else
        (let minutes = roundUpToStep
               (endMinuteOfDay (End (Window boost)) - minuteOfDay (Start (Window boost))) in
         if minutes \<notin> set boostDurations then None
         else Some (boostOption (Boost_Mode boost) minutes)))"

section \<open>Lemmas\<close>

subsection \<open>Clocks and minutes\<close>

lemma minuteOf_bounds: "0 \<le> minuteOf now" "minuteOf now < 1440"
  using Time_field_bounds [of now] by (simp_all add: minuteOf_def)

lemma valid_clock_uint: "valid_clock c \<longleftrightarrow> uint (Hour c) \<le> 23 \<and> uint (Minute c) \<le> 59"
proof -
  have "int (unat (Hour c)) = uint (Hour c)" "int (unat (Minute c)) = uint (Minute c)" by simp_all
  then show ?thesis unfolding valid_clock_def maxHour_def maxMinute_def by linarith
qed

lemma minuteOfDay_nonneg: "0 \<le> minuteOfDay c"
  by (simp add: minuteOfDay_def)

lemma minuteOfDay_bounds: "valid_clock c \<Longrightarrow> minuteOfDay c < 1440"
  by (simp add: minuteOfDay_def valid_clock_uint)

lemma minuteOfDay_inj:
  assumes "valid_clock a" "valid_clock b" "minuteOfDay a = minuteOfDay b"
  shows "a = b"
proof -
  have m: "uint (Minute a) < 60" "uint (Minute b) < 60" "0 \<le> uint (Minute a)" "0 \<le> uint (Minute b)"
    using assms(1,2) by (simp_all add: valid_clock_uint)
  have eq: "uint (Hour a) * 60 + uint (Minute a) = uint (Hour b) * 60 + uint (Minute b)"
    using assms(3) by (simp add: minuteOfDay_def)
  with m have h: "uint (Hour a) = uint (Hour b)" by linarith
  with eq have "uint (Minute a) = uint (Minute b)" by simp
  with h have "Hour a = Hour b" "Minute a = Minute b" by (simp_all only: word_uint_eq_iff)
  then show ?thesis by simp
qed

lemma minuteOfDay_zero [simp]: "minuteOfDay Clock_zero = 0"
  by (simp add: minuteOfDay_def)

lemma minuteOfDay_eq_0_iff: "valid_clock c \<Longrightarrow> minuteOfDay c = 0 \<longleftrightarrow> isMidnight c"
  using minuteOfDay_inj [of c Clock_zero] by (auto simp: isMidnight_def)

lemma endMinuteOfDay_bounds: "valid_clock c \<Longrightarrow> 0 < endMinuteOfDay c \<and> endMinuteOfDay c \<le> 1440"
  using minuteOfDay_bounds [of c] minuteOfDay_nonneg [of c] minuteOfDay_eq_0_iff [of c]
  by (auto simp: endMinuteOfDay_def minutesPerDay_def)

lemma clockAt_props:
  assumes "0 \<le> m" "m < 1440"
  shows "minuteOfDay (clockAt m) = m" "valid_clock (clockAt m)"
proof -
  have h: "0 \<le> m div 60" "m div 60 < 24" using assms by auto
  then have u: "uint (of_int (m div 60) :: u8) = m div 60" "uint (of_int (m mod 60) :: u8) = m mod 60"
    by (simp_all add: unsigned_of_int take_bit_int_eq_self pos_mod_bound [of 60 m, THEN less_trans])
  then show "minuteOfDay (clockAt m) = m" by (simp add: minuteOfDay_def clockAt_def)
  have "m mod 60 \<le> 59" using pos_mod_bound [of 60 m] by simp
  then show "valid_clock (clockAt m)" using h u by (simp add: valid_clock_uint clockAt_def)
qed

lemma isMidnight_clockAt: "0 \<le> m \<Longrightarrow> m < 1440 \<Longrightarrow> isMidnight (clockAt m) \<longleftrightarrow> m = 0"
  using minuteOfDay_eq_0_iff [OF clockAt_props(2), of m] clockAt_props(1) [of m] by auto

lemma IsZero_iff_minutes:
  assumes "valid_window w"
  shows "IsZero w \<longleftrightarrow> minuteOfDay (Start w) = 0 \<and> minuteOfDay (End w) = 0"
  using assms minuteOfDay_eq_0_iff [of "Start w"] minuteOfDay_eq_0_iff [of "End w"]
  by (cases w) (auto simp: IsZero_def valid_window_def isMidnight_def)

subsection \<open>Windows as sets of minutes\<close>

text \<open>
  What a window means: the minutes of the day it covers, an end of 00:00 being the end of the day
  and a window whose start is not before its end running over midnight.
\<close>

definition window_minutes :: "TimedWindow \<Rightarrow> int set" where
  "window_minutes w =
     (if IsZero w then {}
      else if minuteOfDay (Start w) < endMinuteOfDay (End w)
      then {minuteOfDay (Start w) ..< endMinuteOfDay (End w)}
      else {minuteOfDay (Start w) ..< 1440} \<union> {0 ..< endMinuteOfDay (End w)})"

lemma window_minutes_zero [simp]: "window_minutes TimedWindow_zero = {}"
  by (simp add: window_minutes_def)

lemma intersects_iff:
  assumes "s < e" "a < b"
  shows "intersects s e a b \<longleftrightarrow> {s..<e} \<inter> {a..<b} \<noteq> {}"
proof -
  have "intersects s e a b \<longleftrightarrow> max s a < min e b" using assms by (auto simp: intersects_def)
  also have "\<dots> \<longleftrightarrow> {s..<e} \<inter> {a..<b} \<noteq> {}" by (simp only: Int_atLeastLessThan) auto
  finally show ?thesis .
qed

lemma overlaps_iff:
  assumes "valid_window w" "s < e"
  shows "overlaps w s e \<longleftrightarrow> {s..<e} \<inter> window_minutes w \<noteq> {}"
proof -
  have "minuteOfDay (Start w) < 1440" "0 < endMinuteOfDay (End w)"
    using assms(1) minuteOfDay_bounds endMinuteOfDay_bounds by (auto simp: valid_window_def)
  with assms(2) show ?thesis
    by (auto simp: overlaps_def window_minutes_def Let_def minutesPerDay_def intersects_iff Int_Un_distrib)
qed

subsection \<open>The tariff\<close>

text \<open>A window the inverter can hold: unset, or ending after its start within the day.\<close>

definition no_midnight_crossing :: "TimedWindow \<Rightarrow> bool" where
  "no_midnight_crossing w \<longleftrightarrow> IsZero w \<or> minuteOfDay (Start w) < endMinuteOfDay (End w)"

text \<open>The three shapes a tariff takes in the slots: within the day, up to midnight, across it.\<close>

lemma ToUSlots_cases:
  assumes "valid_window tou" "Start tou \<noteq> End tou"
  obtains (inside) "minuteOfDay (Start tou) < minuteOfDay (End tou)" "\<not> isMidnight (End tou)"
      "ToUSlots tou = (\<lparr>Charge = tou, Discharge = TimedWindow_zero\<rparr>, TimedSlot_zero)"
  | (eod) "End tou = Clock_zero" "Start tou \<noteq> Clock_zero"
      "ToUSlots tou = (\<lparr>Charge = tou, Discharge = TimedWindow_zero\<rparr>, TimedSlot_zero)"
  | (crossing) "minuteOfDay (End tou) < minuteOfDay (Start tou)" "End tou \<noteq> Clock_zero" "Start tou \<noteq> Clock_zero"
      "ToUSlots tou = (\<lparr>Charge = \<lparr>Start = Start tou, End = Clock_zero\<rparr>, Discharge = TimedWindow_zero\<rparr>,
                       \<lparr>Charge = \<lparr>Start = Clock_zero, End = End tou\<rparr>, Discharge = TimedWindow_zero\<rparr>)"
proof (cases "isMidnight (End tou)")
  case True
  then have "\<lparr>Start = Start tou, End = Clock_zero\<rparr> = tou" by (simp add: isMidnight_def)
  with True assms(2) show ?thesis
    by (intro eod) (auto simp: ToUSlots_def isMidnight_def Let_def)
next
  case False
  have v: "valid_clock (Start tou)" "valid_clock (End tou)" using assms(1) by (auto simp: valid_window_def)
  have neq: "minuteOfDay (Start tou) \<noteq> minuteOfDay (End tou)" using minuteOfDay_inj [OF v] assms(2) by blast
  show ?thesis
  proof (cases "minuteOfDay (Start tou) < minuteOfDay (End tou)")
    case True
    with False show ?thesis by (intro inside) (auto simp: ToUSlots_def)
  next
    case ge: False
    with neq have lt: "minuteOfDay (End tou) < minuteOfDay (Start tou)" by simp
    moreover from this have "Start tou \<noteq> Clock_zero"
      using minuteOfDay_nonneg [of "End tou"] by auto
    ultimately show ?thesis
      using False ge by (intro crossing) (auto simp: ToUSlots_def isMidnight_def Let_def)
  qed
qed

lemma ToU_ToUSlots:
  assumes "valid_window tou" "Start tou \<noteq> End tou"
  shows "ToU (slots\<lparr>Slot0 := fst (ToUSlots tou), Slot1 := snd (ToUSlots tou)\<rparr>) = Some tou"
proof -
  have "\<not> IsZero tou" using assms(2) by (auto simp: IsZero_def)
  with assms show ?thesis
    by (cases rule: ToUSlots_cases) (auto simp: ToU_def IsZero_def isMidnight_def)
qed

lemma ToUSlots_minutes:
  assumes "valid_window tou" "Start tou \<noteq> End tou"
  shows "window_minutes (Charge (fst (ToUSlots tou))) \<union> window_minutes (Charge (snd (ToUSlots tou)))
         = window_minutes tou"
  using assms
proof (cases rule: ToUSlots_cases)
  case crossing
  let ?s = "minuteOfDay (Start tou)" and ?e = "minuteOfDay (End tou)"
  have "?s < 1440" using assms(1) minuteOfDay_bounds by (auto simp: valid_window_def)
  moreover have "0 < ?e"
    using assms(1) crossing(2) minuteOfDay_nonneg [of "End tou"] minuteOfDay_eq_0_iff [of "End tou"]
    by (auto simp: valid_window_def isMidnight_def order_less_le)
  moreover have "window_minutes \<lparr>Start = Start tou, End = Clock_zero\<rparr> = {?s..<1440}"
    using crossing(3) \<open>?s < 1440\<close>
    by (auto simp: window_minutes_def IsZero_def endMinuteOfDay_def isMidnight_def minutesPerDay_def)
  moreover have "window_minutes \<lparr>Start = Clock_zero, End = End tou\<rparr> = {0..<?e}"
    using crossing(2) \<open>0 < ?e\<close>
    by (auto simp: window_minutes_def IsZero_def endMinuteOfDay_def isMidnight_def)
  moreover have "window_minutes tou = {?s..<1440} \<union> {0..<?e}"
    using crossing(1,2) by (auto simp: window_minutes_def IsZero_def endMinuteOfDay_def isMidnight_def)
  ultimately show ?thesis by (simp add: crossing(4))
qed simp_all

lemma ToUSlots_shape:
  assumes "valid_window tou" "Start tou \<noteq> End tou" "s \<in> {fst (ToUSlots tou), snd (ToUSlots tou)}"
  shows "no_midnight_crossing (Charge s)" "IsZero (Discharge s)" "valid_slot s"
proof -
  have v: "valid_clock (Start tou)" "valid_clock (End tou)" using assms(1) by (auto simp: valid_window_def)
  have mz: "isMidnight Clock_zero" by (simp add: isMidnight_def)
  note b = minuteOfDay_bounds [OF v(1)] endMinuteOfDay_bounds [OF v(2)]
  show "IsZero (Discharge s)"
    using assms by (cases rule: ToUSlots_cases) auto
  show "valid_slot s"
    using assms(1,2) by (cases rule: ToUSlots_cases)
      (use assms(3) v in \<open>auto simp: valid_slot_def valid_window_def\<close>)
  show "no_midnight_crossing (Charge s)"
    using assms(1,2) by (cases rule: ToUSlots_cases)
      (use assms(3) b mz in \<open>auto simp: no_midnight_crossing_def endMinuteOfDay_def minutesPerDay_def\<close>)
qed

lemma digit_char_not_dash: "d < 10 \<Longrightarrow> digit_char d \<noteq> CHR ''-''"
  using digit_val_digit_char [of d] by (auto simp: digit_val_def)

lemma Clock_String_no_dash:
  assumes "valid_clock c"
  shows "CHR ''-'' \<notin> set (Clock_String c)"
proof -
  have "unat (Hour c) < 100" "unat (Minute c) < 100"
    using assms by (simp_all add: valid_clock_def maxHour_def maxMinute_def)
  then show ?thesis
    using digit_char_not_dash by (auto simp: Clock_String_def fmt_02d_two less_mult_imp_div_less dest: sym)
qed

lemma ParseToUWindow_Inr:
  assumes "ParseToUWindow s = Inr (w, en)"
  shows "if en then valid_window w \<and> Start w \<noteq> End w \<and> s = Clock_String (Start w) @ ''-'' @ Clock_String (End w)
         else s = [] \<and> w = TimedWindow_zero"
  using assms
  by (auto simp: ParseToUWindow_def bind_Inr_iff ParseClock_Inr_iff valid_window_def
      split: if_splits option.splits prod.splits dest!: Cut_SomeD)

subsection \<open>The boost slot\<close>

lemma running_eq:
  "running slot now =
     \<lparr>Charge = (if live (Charge slot) now then Charge slot else TimedWindow_zero),
      Discharge = (if live (Discharge slot) now then Discharge slot else TimedWindow_zero)\<rparr>"
  by (simp add: running_def)

lemma live_zero [simp]: "\<not> live TimedWindow_zero now"
  by (simp add: live_def)

lemma live_iff:
  assumes "valid_window w"
  shows "live w now \<longleftrightarrow> minuteOfDay (Start w) \<le> minuteOf now \<and> minuteOf now < minuteOfDay (End w)"
  using assms minuteOf_bounds [of now] minuteOfDay_eq_0_iff [of "End w"]
  by (auto simp: live_def valid_window_def IsZero_def Let_def)

lemma running_idem: "running (running slot now) now = running slot now"
  by (simp add: running_eq)

lemma running_valid: "valid_slot slot \<Longrightarrow> valid_slot (running slot now)"
  by (simp add: running_eq valid_slot_def)

lemma Desired_eq:
  "Desired tou a slots now =
     \<lparr>Slot0 = (if a \<and> \<not> IsZero tou then fst (ToUSlots tou) else Slot0 slots),
      Slot1 = (if a \<and> \<not> IsZero tou then snd (ToUSlots tou) else Slot1 slots),
      Slot2 = running (Slot2 slots) now\<rparr>"
  by (simp add: Desired_def split: prod.splits)

lemma Desired_idem: "Desired tou a (Desired tou a slots now) now = Desired tou a slots now"
  by (simp add: Desired_eq running_idem)

lemma Desired_valid:
  assumes "valid_slots slots" "valid_window tou" "Start tou \<noteq> End tou \<or> IsZero tou"
  shows "valid_slots (Desired tou a slots now)"
  using assms ToUSlots_shape(3) [OF assms(2)] running_valid
  by (auto simp: Desired_eq valid_slots_def)

text \<open>The arithmetic of a plan: it ends on the grid, later than now, after at most its duration.\<close>

lemma plan_end:
  fixes start minutes :: int
  assumes "minutes mod 15 = 0" "0 < minutes"
  defines "en \<equiv> (start div 15 + 1) * 15 + minutes - 15"
  shows "en mod 15 = 0" "start < en" "en - start \<le> minutes" "minutes - 15 < en - start"
proof -
  obtain k where k: "minutes = 15 * k" using assms(1) by auto
  with assms(2) have "1 \<le> k" by simp
  moreover have en: "en = 15 * (start div 15 + k)" by (simp add: en_def k algebra_simps)
  moreover have "start = 15 * (start div 15) + start mod 15" by simp
  moreover have "0 \<le> start mod 15" "start mod 15 < 15" by simp_all
  ultimately show "en mod 15 = 0" "start < en" "en - start \<le> minutes" "minutes - 15 < en - start"
    unfolding k by auto
qed

definition slot_window :: "Mode \<Rightarrow> TimedSlot \<Rightarrow> TimedWindow" where
  "slot_window mode slot = (if mode = ModeDischarge then Discharge slot else Charge slot)"

definition slot_opposite :: "Mode \<Rightarrow> TimedSlot \<Rightarrow> TimedWindow" where
  "slot_opposite mode slot = (if mode = ModeDischarge then Charge slot else Discharge slot)"

lemma PlanBoost_Inr:
  assumes "PlanBoost mode minutes now tou a = Inr slot"
  obtains en where "mode = ModeCharge \<or> mode = ModeDischarge" "0 < minutes" "minutes mod 15 = 0"
    "en = (minuteOf now div 15 + 1) * 15 + minutes - 15" "minuteOf now < en" "en < 1440"
    "slot_window mode slot = \<lparr>Start = clockAt (minuteOf now), End = clockAt en\<rparr>"
    "slot_opposite mode slot = TimedWindow_zero" "a \<longrightarrow> \<not> overlaps tou (minuteOf now) en"
proof -
  define en where "en = (minuteOf now div 15 + 1) * 15 + minutes - 15"
  have P: "mode = ModeCharge \<or> mode = ModeDischarge" "0 < minutes" "minutes mod 15 = 0" "en < 1440"
    "slot_window mode slot = \<lparr>Start = clockAt (minuteOf now), End = clockAt en\<rparr>"
    "slot_opposite mode slot = TimedWindow_zero" "a \<longrightarrow> \<not> overlaps tou (minuteOf now) en"
    using assms
    by (auto simp: PlanBoost_def Let_def boostStep_def minutesPerDay_def en_def
        slot_window_def slot_opposite_def split: if_splits)
  have "minuteOf now < en" unfolding en_def by (rule plan_end(2) [OF P(3,2)])
  then show ?thesis by (intro that [of en] P en_def)
qed

lemma planned_window:
  assumes "PlanBoost mode minutes now tou a = Inr slot"
  defines "w \<equiv> slot_window mode slot"
  shows "valid_window w" "\<not> IsZero w" "\<not> isMidnight (End w)" "minuteOfDay (Start w) = minuteOf now"
    "minuteOfDay (End w) = (minuteOf now div 15 + 1) * 15 + minutes - 15"
    "minuteOf now < minuteOfDay (End w)"
proof -
  from assms(1) obtain en where en: "en = (minuteOf now div 15 + 1) * 15 + minutes - 15"
    "minuteOf now < en" "en < 1440"
    and w: "w = \<lparr>Start = clockAt (minuteOf now), End = clockAt en\<rparr>"
    unfolding w_def by (rule PlanBoost_Inr)
  have b: "0 \<le> en" "0 \<le> minuteOf now" "minuteOf now < 1440" using en(2) minuteOf_bounds [of now] by auto
  note s = clockAt_props [OF b(2,3)] and e = clockAt_props [OF b(1) en(3)]
  show "valid_window w" "minuteOfDay (Start w) = minuteOf now" "minuteOf now < minuteOfDay (End w)"
    "minuteOfDay (End w) = (minuteOf now div 15 + 1) * 15 + minutes - 15"
    using w s e en by (simp_all add: valid_window_def)
  show "\<not> isMidnight (End w)" using w isMidnight_clockAt [OF b(1) en(3)] en(2) b(2) by simp
  then show "\<not> IsZero w" by (auto simp: IsZero_def isMidnight_def)
qed

lemma planned_running:
  assumes "PlanBoost mode minutes now tou a = Inr slot"
    and "minuteOf now \<le> minuteOf now'" "minuteOf now' < minuteOfDay (End (slot_window mode slot))"
  shows "running slot now' = slot"
proof -
  note W = planned_window [OF assms(1)]
  have "live (slot_window mode slot) now'" using W assms(2,3) by (simp add: live_iff)
  moreover have "slot_opposite mode slot = TimedWindow_zero" using assms(1) by (rule PlanBoost_Inr)
  ultimately show ?thesis
    by (cases slot) (auto simp: running_eq slot_window_def slot_opposite_def split: if_splits)
qed

lemma planned_expires:
  assumes "PlanBoost mode minutes now tou a = Inr slot"
    and "minuteOfDay (End (slot_window mode slot)) \<le> minuteOf now' \<or> minuteOf now' < minuteOf now"
  shows "running slot now' = TimedSlot_zero"
proof -
  note W = planned_window [OF assms(1)]
  have "\<not> live (slot_window mode slot) now'" using W assms(2) by (auto simp: live_iff)
  moreover have "slot_opposite mode slot = TimedWindow_zero" using assms(1) by (rule PlanBoost_Inr)
  ultimately show ?thesis
    by (auto simp: running_eq slot_window_def slot_opposite_def split: if_splits)
qed

text \<open>A window with the properties of a planned one is the planned one.\<close>

lemma plan_end_unique:
  fixes start minutes en :: int
  assumes "minutes mod 15 = 0" "en mod 15 = 0" "en - start \<le> minutes" "minutes - 15 < en - start"
  shows "en = (start div 15 + 1) * 15 + minutes - 15"
proof -
  obtain k where k: "minutes = 15 * k" using assms(1) by auto
  obtain l where l: "en = 15 * l" using assms(2) by auto
  have "start div 15 = l - k"
    using assms(3,4) by (intro int_div_pos_eq [of _ _ _ "start - 15 * (l - k)"]) (auto simp: k l)
  then show ?thesis by (simp add: k l)
qed

lemma window_eqI:
  assumes "valid_window v" "valid_window w" "minuteOfDay (Start v) = minuteOfDay (Start w)"
    and "minuteOfDay (End v) = minuteOfDay (End w)"
  shows "v = w"
  using assms minuteOfDay_inj [of "Start v" "Start w"] minuteOfDay_inj [of "End v" "End w"]
  by (cases v; cases w) (simp add: valid_window_def)

lemma slot_eqI:
  assumes "mode = ModeCharge \<or> mode = ModeDischarge"
    and "slot_window mode s = slot_window mode t" "slot_opposite mode s = slot_opposite mode t"
  shows "s = t"
  using assms by (cases s; cases t) (auto simp: slot_window_def slot_opposite_def)

lemma window_minutes_inside:
  assumes "minuteOfDay (Start w) < minuteOfDay (End w)"
  shows "window_minutes w = {minuteOfDay (Start w) ..< minuteOfDay (End w)}"
proof -
  have "\<not> isMidnight (End w)" using assms minuteOfDay_nonneg [of "Start w"] by (auto simp: isMidnight_def)
  moreover from this have "\<not> IsZero w" by (auto simp: IsZero_def isMidnight_def)
  ultimately show ?thesis using assms by (simp add: window_minutes_def endMinuteOfDay_def)
qed

text \<open>What a boost plan promises; \<open>PlanBoost\<close> is shown to implement it.\<close>

definition boost_plan :: "Mode \<Rightarrow> int \<Rightarrow> Time \<Rightarrow> TimedWindow \<Rightarrow> bool \<Rightarrow> TimedSlot \<Rightarrow> bool" where
  "boost_plan mode minutes now tou assertToU slot \<longleftrightarrow>
     (mode = ModeCharge \<or> mode = ModeDischarge) \<and> 0 < minutes \<and> minutes mod 15 = 0 \<and>
     slot_opposite mode slot = TimedWindow_zero \<and>
     (let w = slot_window mode slot; length = minuteOfDay (End w) - minuteOfDay (Start w) in
        valid_window w \<and> minuteOfDay (Start w) = minuteOf now \<and> minuteOfDay (End w) mod 15 = 0 \<and>
        0 < length \<and> minutes - 15 < length \<and> length \<le> minutes \<and>
        (assertToU \<longrightarrow> window_minutes w \<inter> window_minutes tou = {}))"

lemma PlanBoost_sound:
  assumes "valid_window tou" "PlanBoost mode minutes now tou a = Inr slot"
  shows "boost_plan mode minutes now tou a slot"
proof -
  from assms(2) obtain en where P: "mode = ModeCharge \<or> mode = ModeDischarge" "0 < minutes" "minutes mod 15 = 0"
    "en = (minuteOf now div 15 + 1) * 15 + minutes - 15" "minuteOf now < en"
    "slot_opposite mode slot = TimedWindow_zero" "a \<longrightarrow> \<not> overlaps tou (minuteOf now) en"
    by (rule PlanBoost_Inr)
  note W = planned_window [OF assms(2)] and E = plan_end [OF P(3,2), of "minuteOf now"]
  from P(7) have "a \<longrightarrow> {minuteOf now ..< en} \<inter> window_minutes tou = {}"
    using overlaps_iff [OF assms(1) P(5)] by blast
  moreover have "minuteOfDay (Start (slot_window mode slot)) < minuteOfDay (End (slot_window mode slot))"
    using W by simp
  note window_minutes_inside [OF this]
  ultimately show ?thesis
    using P W E unfolding boost_plan_def Let_def by simp
qed

lemma PlanBoost_complete:
  assumes tou: "valid_window tou" and plan: "boost_plan mode minutes now tou a slot"
  shows "PlanBoost mode minutes now tou a = Inr slot"
proof -
  let ?w = "slot_window mode slot" and ?start = "minuteOf now" and ?stop = "minuteOfDay (End (slot_window mode slot))"
  have p: "mode = ModeCharge \<or> mode = ModeDischarge" "0 < minutes" "minutes mod 15 = 0"
    "slot_opposite mode slot = TimedWindow_zero" "valid_window ?w" "minuteOfDay (Start ?w) = ?start"
    "?stop mod 15 = 0" "?start < ?stop" "minutes - 15 < ?stop - ?start" "?stop - ?start \<le> minutes"
    "a \<longrightarrow> window_minutes ?w \<inter> window_minutes tou = {}"
    using plan by (simp_all add: boost_plan_def Let_def)
  note en = plan_end_unique [OF p(3,7,10,9)]
  have lt: "?stop < 1440" using p(5) minuteOfDay_bounds by (auto simp: valid_window_def)
  have no: "\<not> (a \<and> overlaps tou ?start ?stop)"
    using p(11) overlaps_iff [OF tou p(8)] window_minutes_inside [of ?w] p(6,8) by auto
  have w: "\<lparr>Start = clockAt ?start, End = clockAt ?stop\<rparr> = ?w"
    using clockAt_props [of ?start] clockAt_props [of ?stop] minuteOf_bounds [of now] p(8) lt
    by (intro window_eqI) (simp_all add: p(5,6), simp add: valid_window_def)
  have "slot_window mode slot = ?w" "slot_opposite mode slot = TimedWindow_zero" using p(4) by simp_all
  then show ?thesis
    using p(1-3) no lt w unfolding PlanBoost_def boostStep_def minutesPerDay_def en [symmetric] Let_def
    by (cases slot) (auto simp: slot_window_def slot_opposite_def)
qed

subsection \<open>The select\<close>

lemma BoostOf_planned:
  assumes "PlanBoost mode minutes now tou a = Inr slot" "Slot2 slots = slot"
  shows "BoostOf slots = \<lparr>Boost_Mode = mode, Window = slot_window mode slot\<rparr>"
proof -
  have "mode = ModeCharge \<or> mode = ModeDischarge" "slot_opposite mode slot = TimedWindow_zero"
    using assms(1) by (auto elim: PlanBoost_Inr)
  with planned_window(2) [OF assms(1)] assms(2) show ?thesis
    by (auto simp: BoostOf_def Let_def slot_window_def slot_opposite_def)
qed

lemma roundUpToStep_grid:
  assumes "m mod 15 = 0" "d \<le> m" "m - 15 < d" "0 < d"
  shows "roundUpToStep d = m"
proof -
  obtain k where k: "m = 15 * k" using assms(1) by auto
  then have "(d + 15 - 1) div 15 = k" using assms(2,3) by (intro int_div_pos_eq [of _ _ _ "d + 14 - 15 * k"]) auto
  with assms(4) show ?thesis by (simp add: roundUpToStep_def boostStep_def k)
qed

lemma BoostSelectState_planned:
  assumes "PlanBoost mode minutes now tou a = Inr slot" "Slot2 slots = slot"
    and "minutes \<in> set boostDurations"
  shows "BoostSelectState slots = Some (boostOption mode minutes)"
proof -
  note W = planned_window [OF assms(1)]
  have m: "0 < minutes" "minutes mod 15 = 0" "mode \<noteq> Off"
    using assms(1) by (auto elim: PlanBoost_Inr)
  note E = plan_end [OF m(2,1), of "minuteOf now"]
  have "endMinuteOfDay (End (slot_window mode slot)) - minuteOfDay (Start (slot_window mode slot))
      = (minuteOf now div 15 + 1) * 15 + minutes - 15 - minuteOf now"
    using W by (simp add: endMinuteOfDay_def)
  moreover have "roundUpToStep ((minuteOf now div 15 + 1) * 15 + minutes - 15 - minuteOf now) = minutes"
    using E m(2) by (intro roundUpToStep_grid) auto
  ultimately show ?thesis
    using assms(3) m(3) by (simp add: BoostSelectState_def BoostOf_planned [OF assms(1,2)] Let_def)
qed

lemma boostCandidates_eq:
  "boostCandidates =
     [(ModeCharge, 15), (ModeCharge, 30), (ModeCharge, 45), (ModeCharge, 60),
      (ModeDischarge, 15), (ModeDischarge, 30), (ModeDischarge, 45), (ModeDischarge, 60)]"
  by (simp add: boostCandidates_def boostDurations_def)

lemma BoostOptions_eq: "BoostOptions = ''Off'' # map (\<lambda>(mode, minutes). boostOption mode minutes) boostCandidates"
  by (simp add: BoostOptions_def boostCandidates_def boostDurations_def)

lemma ParseBoostOption_eq:
  "ParseBoostOption s = Some (mode, minutes) \<longleftrightarrow>
     TrimSpace s = ''Off'' \<and> mode = Off \<and> minutes = 0 \<or>
     TrimSpace s \<noteq> ''Off'' \<and> List.find (\<lambda>(m, d). TrimSpace s = boostOption m d) boostCandidates = Some (mode, minutes)"
  by (auto simp: ParseBoostOption_def Let_def)

lemma ParseBoostOption_SomeD:
  assumes "ParseBoostOption s = Some (mode, minutes)"
  shows "mode = Off \<and> minutes = 0 \<and> TrimSpace s = ''Off'' \<or>
         (mode, minutes) \<in> set boostCandidates \<and> TrimSpace s = boostOption mode minutes"
  using assms by (auto simp: ParseBoostOption_eq find_Some_iff in_set_conv_nth)

lemma boostOption_texts:
  "map (\<lambda>(mode, minutes). boostOption mode minutes) boostCandidates =
     [''Charge 15 min'', ''Charge 30 min'', ''Charge 45 min'', ''Charge 60 min'',
      ''Discharge 15 min'', ''Discharge 30 min'', ''Discharge 45 min'', ''Discharge 60 min'']"
  by code_simp

lemma BoostOptions_texts:
  "BoostOptions = [''Off'', ''Charge 15 min'', ''Charge 30 min'', ''Charge 45 min'', ''Charge 60 min'',
      ''Discharge 15 min'', ''Discharge 30 min'', ''Discharge 45 min'', ''Discharge 60 min'']"
  by (simp only: BoostOptions_eq boostOption_texts)

lemma BoostOptions_trimmed:
  assumes "s \<in> set BoostOptions"
  shows "TrimSpace s = s"
proof (rule TrimSpace_visible)
  have "list_all (\<lambda>s. s \<noteq> [] \<and> visible (hd s) \<and> visible (last s)) BoostOptions"
    unfolding BoostOptions_texts by (simp add: visible_def)
  then show "s \<noteq> []" "visible (hd s)" "visible (last s)"
    using assms by (auto simp: list_all_iff)
qed

lemma boostOption_simps:
  "boostOption ModeCharge 15 = ''Charge 15 min''" "boostOption ModeCharge 30 = ''Charge 30 min''"
  "boostOption ModeCharge 45 = ''Charge 45 min''" "boostOption ModeCharge 60 = ''Charge 60 min''"
  "boostOption ModeDischarge 15 = ''Discharge 15 min''" "boostOption ModeDischarge 30 = ''Discharge 30 min''"
  "boostOption ModeDischarge 45 = ''Discharge 45 min''" "boostOption ModeDischarge 60 = ''Discharge 60 min''"
  using boostOption_texts by (simp_all add: boostCandidates_eq)

lemma ParseBoostOption_candidate:
  assumes "(mode, minutes) \<in> set boostCandidates"
  shows "ParseBoostOption (boostOption mode minutes) = Some (mode, minutes)"
proof -
  have "boostOption mode minutes \<in> set BoostOptions" using assms by (force simp: BoostOptions_eq)
  then have "TrimSpace (boostOption mode minutes) = boostOption mode minutes" by (rule BoostOptions_trimmed)
  then show ?thesis
    using assms by (auto simp: ParseBoostOption_def boostCandidates_eq boostOption_simps)
qed

lemma ParseBoostOption_Off: "ParseBoostOption ''Off'' = Some (Off, 0)"
  using BoostOptions_trimmed [of "''Off''"] by (simp add: ParseBoostOption_def BoostOptions_texts)

lemma ParseBoostOption_None_iff: "ParseBoostOption s = None \<longleftrightarrow> TrimSpace s \<notin> set BoostOptions"
  by (auto simp: ParseBoostOption_def Let_def find_None_iff BoostOptions_eq)

section \<open>Properties\<close>

text \<open>
  C31: programming a tariff window loses nothing: the two slots it becomes hold windows that do not
  cross midnight and cover exactly the minutes of the tariff, leave both discharge directions unset,
  and read back as the tariff window.
\<close>

theorem tou_slots_faithful:
  assumes "valid_window tou" "Start tou \<noteq> End tou"
  shows "ToU (slots\<lparr>Slot0 := fst (ToUSlots tou), Slot1 := snd (ToUSlots tou)\<rparr>) = Some tou \<and>
    window_minutes (Charge (fst (ToUSlots tou))) \<union> window_minutes (Charge (snd (ToUSlots tou))) = window_minutes tou \<and>
    no_midnight_crossing (Charge (fst (ToUSlots tou))) \<and> no_midnight_crossing (Charge (snd (ToUSlots tou))) \<and>
    IsZero (Discharge (fst (ToUSlots tou))) \<and> IsZero (Discharge (snd (ToUSlots tou)))"
  using ToU_ToUSlots [OF assms] ToUSlots_minutes [OF assms] ToUSlots_shape [OF assms] by auto

theorem tou_slots_faithful_witness:
  "ToU \<lparr>Slot0 = fst (ToUSlots \<lparr>Start = \<lparr>Hour = 23, Minute = 30\<rparr>, End = \<lparr>Hour = 5, Minute = 30\<rparr>\<rparr>),
        Slot1 = snd (ToUSlots \<lparr>Start = \<lparr>Hour = 23, Minute = 30\<rparr>, End = \<lparr>Hour = 5, Minute = 30\<rparr>\<rparr>),
        Slot2 = TimedSlot_zero\<rparr>
   = Some \<lparr>Start = \<lparr>Hour = 23, Minute = 30\<rparr>, End = \<lparr>Hour = 5, Minute = 30\<rparr>\<rparr>"
  using tou_slots_faithful [of "\<lparr>Start = \<lparr>Hour = 23, Minute = 30\<rparr>, End = \<lparr>Hour = 5, Minute = 30\<rparr>\<rparr>"
      "\<lparr>Slot0 = TimedSlot_zero, Slot1 = TimedSlot_zero, Slot2 = TimedSlot_zero\<rparr>"]
  by (simp add: valid_window_def valid_clock_def maxHour_def maxMinute_def)

text \<open>
  The tariff parser accepts the empty text as a disabled tariff and otherwise exactly
  \<open>HH:MM-HH:MM\<close> with two different clocks within the day.
\<close>

theorem parse_tou_window_exact:
  "ParseToUWindow s = Inr (w, en) \<longleftrightarrow>
     (if en then valid_window w \<and> Start w \<noteq> End w \<and> s = Clock_String (Start w) @ ''-'' @ Clock_String (End w)
      else s = [] \<and> w = TimedWindow_zero)"
proof
  assume A: "if en then valid_window w \<and> Start w \<noteq> End w \<and> s = Clock_String (Start w) @ ''-'' @ Clock_String (End w)
      else s = [] \<and> w = TimedWindow_zero"
  show "ParseToUWindow s = Inr (w, en)"
  proof (cases en)
    case True
    with A have v: "valid_clock (Start w)" "valid_clock (End w)" "Start w \<noteq> End w"
      and s: "s = Clock_String (Start w) @ CHR ''-'' # Clock_String (End w)" by (auto simp: valid_window_def)
    have "ParseClock (Clock_String (Start w)) = Inr (Start w)" "ParseClock (Clock_String (End w)) = Inr (End w)"
      using v by (simp_all add: ParseClock_Inr_iff)
    then show ?thesis
      using True v(3) Cut_append [OF Clock_String_no_dash [OF v(1)]] by (simp add: ParseToUWindow_def s)
  next
    case False
    with A show ?thesis by (simp add: ParseToUWindow_def)
  qed
qed (rule ParseToUWindow_Inr)



text \<open>
  The refusals of a plan for a mode and duration the select can ask for: a boost that would
  reach midnight is refused with \<open>ErrCrossesMidnight\<close>, one that ends within the day and meets an
  asserted tariff with \<open>ErrOverlapsToU\<close>, and these are the only refusals.
\<close>

theorem plan_boost_refusals:
  assumes "(mode, minutes) \<in> set boostCandidates"
  shows "let en = (minuteOf now div 15 + 1) * 15 + minutes - 15 in
    case PlanBoost mode minutes now tou assertToU of
      Inl err \<Rightarrow> (errors_Is err ErrCrossesMidnight \<longleftrightarrow> 1440 \<le> en) \<and>
        (errors_Is err ErrOverlapsToU \<longleftrightarrow> en < 1440 \<and> assertToU \<and> overlaps tou (minuteOf now) en) \<and>
        (errors_Is err ErrCrossesMidnight \<or> errors_Is err ErrOverlapsToU)
    | Inr _ \<Rightarrow> en < 1440 \<and> \<not> (assertToU \<and> overlaps tou (minuteOf now) en)"
proof -
  have "mode = ModeCharge \<or> mode = ModeDischarge" "0 < minutes" "minutes mod 15 = 0"
    using assms(1) by (auto simp: boostCandidates_eq)
  then show ?thesis
    by (auto simp: PlanBoost_def Let_def boostStep_def minutesPerDay_def)
qed

theorem plan_boost_refusals_witness:
  "case PlanBoost ModeCharge 60 \<lparr>t_sec = 84600, t_nsec = 0, t_loc = UTC\<rparr> TimedWindow_zero True of
      Inl err \<Rightarrow> errors_Is err ErrCrossesMidnight
    | Inr _ \<Rightarrow> False"
  using plan_boost_refusals [of ModeCharge 60 "\<lparr>t_sec = 84600, t_nsec = 0, t_loc = UTC\<rparr>" True TimedWindow_zero]
  by (auto simp: boostCandidates_eq minuteOf_def Time_Hour_def Time_Minute_def local_sec_def
      zone_offset_def UTC_def split: sum.splits)

text \<open>
  The schedule the manager asserts keeps a planned boost at every later minute of the day
  before its end, and clears it from the minute it ends; after midnight, when the minute of day is
  below the start, it is cleared too.
\<close>

theorem boost_lifetime:
  assumes "PlanBoost mode minutes now tou a = Inr slot" "Slot2 slots = slot"
  shows "Slot2 (Desired tou' a' slots now') =
    (if minuteOf now \<le> minuteOf now' \<and> minuteOf now' < (minuteOf now div 15 + 1) * 15 + minutes - 15
     then slot else TimedSlot_zero)"
  using planned_running [OF assms(1)] planned_expires [OF assms(1)] planned_window(5) [OF assms(1)]
  by (auto simp: Desired_eq assms(2))

theorem boost_lifetime_witness:
  "\<exists>slot. PlanBoost ModeCharge 15 \<lparr>t_sec = 36000, t_nsec = 0, t_loc = UTC\<rparr> TimedWindow_zero False = Inr slot \<and>
     Slot2 (Desired TimedWindow_zero False \<lparr>Slot0 = TimedSlot_zero, Slot1 = TimedSlot_zero, Slot2 = slot\<rparr>
       \<lparr>t_sec = 36900, t_nsec = 0, t_loc = UTC\<rparr>) = TimedSlot_zero"
proof -
  let ?now = "\<lparr>t_sec = 36000, t_nsec = 0, t_loc = UTC\<rparr>"
  have m: "minuteOf ?now = 600" "minuteOf \<lparr>t_sec = 36900, t_nsec = 0, t_loc = UTC\<rparr> = 615"
    by (simp_all add: minuteOf_def Time_Hour_def Time_Minute_def local_sec_def zone_offset_def UTC_def)
  then have "\<exists>slot. PlanBoost ModeCharge 15 ?now TimedWindow_zero False = Inr slot"
    by (simp add: PlanBoost_def boostStep_def minutesPerDay_def)
  then obtain slot where S: "PlanBoost ModeCharge 15 ?now TimedWindow_zero False = Inr slot" ..
  from boost_lifetime [OF S, of "\<lparr>Slot0 = TimedSlot_zero, Slot1 = TimedSlot_zero, Slot2 = slot\<rparr>"] S m
  show ?thesis by simp
qed

text \<open>
  The select round trip: every option Home Assistant offers parses to the mode and minutes it
  names, and once a boost planned from it is programmed the state published for the slots is that
  very option.
\<close>

theorem boost_select_roundtrip:
  assumes "(mode, minutes) \<in> set boostCandidates"
    and "PlanBoost mode minutes now tou a = Inr slot" "Slot2 slots = slot"
  shows "ParseBoostOption (boostOption mode minutes) = Some (mode, minutes) \<and>
    boostOption mode minutes \<in> set BoostOptions \<and> BoostSelectState slots = Some (boostOption mode minutes)"
proof -
  have "minutes \<in> set boostDurations" using assms(1) by (auto simp: boostCandidates_def)
  then show ?thesis
    using ParseBoostOption_candidate [OF assms(1)] BoostSelectState_planned [OF assms(2,3)] assms(1)
    by (force simp: BoostOptions_eq)
qed

theorem boost_select_roundtrip_witness:
  "BoostSelectState \<lparr>Slot0 = TimedSlot_zero, Slot1 = TimedSlot_zero,
     Slot2 = \<lparr>Charge = \<lparr>Start = clockAt 607, End = clockAt 645\<rparr>, Discharge = TimedWindow_zero\<rparr>\<rparr> =
   Some (boostOption ModeCharge 45)"
proof -
  let ?now = "\<lparr>t_sec = 36420, t_nsec = 0, t_loc = UTC\<rparr>"
    and ?slot = "\<lparr>Charge = \<lparr>Start = clockAt 607, End = clockAt 645\<rparr>, Discharge = TimedWindow_zero\<rparr>"
  have "minuteOf ?now = 607"
    by (simp add: minuteOf_def Time_Hour_def Time_Minute_def local_sec_def zone_offset_def UTC_def)
  then have S: "PlanBoost ModeCharge 45 ?now TimedWindow_zero False = Inr ?slot"
    by (simp add: PlanBoost_def boostStep_def minutesPerDay_def)
  from boost_select_roundtrip [OF _ S, of "\<lparr>Slot0 = TimedSlot_zero, Slot1 = TimedSlot_zero, Slot2 = ?slot\<rparr>"]
  show ?thesis by (simp add: boostCandidates_eq)
qed

text \<open>
  The asserted schedule is stable: computing it from itself at the same moment changes nothing,
  the first two slots are the tariff's or, when none is asserted, the inverter's own, and slots with
  fields in range keep them in range.
\<close>

theorem desired_stable:
  assumes "valid_slots slots" "valid_window tou" "Start tou \<noteq> End tou \<or> IsZero tou"
  shows "Desired tou a (Desired tou a slots now) now = Desired tou a slots now \<and>
    valid_slots (Desired tou a slots now) \<and>
    (if a \<and> \<not> IsZero tou then ToU (Desired tou a slots now) = Some tou
     else Slot0 (Desired tou a slots now) = Slot0 slots \<and> Slot1 (Desired tou a slots now) = Slot1 slots)"
proof -
  have "ToU (Desired tou a slots now) = Some tou" if "a" "\<not> IsZero tou"
    using ToU_ToUSlots [OF assms(2), of "Desired tou a slots now"] assms(3) that by (simp add: Desired_eq)
  then show ?thesis using Desired_idem Desired_valid [OF assms] by (simp add: Desired_eq)
qed

theorem desired_stable_witness:
  "ToU (Desired \<lparr>Start = Clock_zero, End = \<lparr>Hour = 5, Minute = 0\<rparr>\<rparr> True
     \<lparr>Slot0 = TimedSlot_zero, Slot1 = TimedSlot_zero, Slot2 = TimedSlot_zero\<rparr> Time_zero)
   = Some \<lparr>Start = Clock_zero, End = \<lparr>Hour = 5, Minute = 0\<rparr>\<rparr>"
  using desired_stable [of "\<lparr>Slot0 = TimedSlot_zero, Slot1 = TimedSlot_zero, Slot2 = TimedSlot_zero\<rparr>"
      "\<lparr>Start = Clock_zero, End = \<lparr>Hour = 5, Minute = 0\<rparr>\<rparr>" True Time_zero]
  by (simp add: valid_slots_def valid_window_def valid_clock_def maxHour_def maxMinute_def IsZero_def)

end
