(* ===== verification/Bitfields.thy ===== *)
theory Bitfields
  imports Registers
begin

text \<open>
  The bitfield and enum registers of \<open>internal/inverter\<close>: the work mode (\<open>workmode.go\<close>), the two
  BMS fault words (\<open>bmsfault.go\<close>) and the status enum (\<open>status.go\<close>).
\<close>

section \<open>Work mode\<close>

definition bitSelfUse :: u16 where "bitSelfUse = 1"
definition bitTimed :: u16 where "bitTimed = 2"
definition bitAllowGridCharge :: u16 where "bitAllowGridCharge = 32"

definition WorkModeTimedOn :: u16 where
  "WorkModeTimedOn = bitSelfUse OR bitTimed OR bitAllowGridCharge"

definition WorkModeTimedOff :: u16 where
  "WorkModeTimedOff = bitSelfUse OR bitAllowGridCharge"

record WorkMode =
  SelfUse :: bool
  Timed :: bool
  AllowGridCharge :: bool
  WorkMode_Raw :: u16

definition DecodeWorkMode :: "u16 \<Rightarrow> WorkMode" where
  "DecodeWorkMode raw =
     \<lparr>SelfUse = (raw AND bitSelfUse \<noteq> 0),
      Timed = (raw AND bitTimed \<noteq> 0),
      AllowGridCharge = (raw AND bitAllowGridCharge \<noteq> 0),
      WorkMode_Raw = raw\<rparr>"

definition setBit :: "u16 \<Rightarrow> u16 \<Rightarrow> bool \<Rightarrow> u16" where
  "setBit raw m on = (if on then raw OR m else raw AND NOT m)"

definition WorkMode_Encode :: "WorkMode \<Rightarrow> u16" where
  "WorkMode_Encode w =
     (let raw = WorkMode_Raw w;
          raw = setBit raw bitSelfUse (SelfUse w);
          raw = setBit raw bitTimed (Timed w);
          raw = setBit raw bitAllowGridCharge (AllowGridCharge w)
      in raw)"

definition WithTimed :: "WorkMode \<Rightarrow> bool \<Rightarrow> WorkMode" where
  "WithTimed w on = DecodeWorkMode (setBit (WorkMode_Raw w) bitTimed on)"

section \<open>BMS fault words\<close>

definition bitBMSOverVoltage :: u16 where "bitBMSOverVoltage = push_bit 1 1"
definition bitBMSUnderVoltage :: u16 where "bitBMSUnderVoltage = push_bit 2 1"
definition bitBMSOverTemp :: u16 where "bitBMSOverTemp = push_bit 3 1"
definition bitBMSUnderTemp :: u16 where "bitBMSUnderTemp = push_bit 4 1"
definition bitBMSChargeOverTemp :: u16 where "bitBMSChargeOverTemp = push_bit 5 1"
definition bitBMSChargeUnderTemp :: u16 where "bitBMSChargeUnderTemp = push_bit 6 1"
definition bitBMSDischargeOverCurrent :: u16 where "bitBMSDischargeOverCurrent = push_bit 7 1"

definition bitBMSChargeOverCurrent :: u16 where "bitBMSChargeOverCurrent = push_bit 0 1"
definition bitBMSInternal :: u16 where "bitBMSInternal = push_bit 3 1"
definition bitBMSModuleUnbalanced :: u16 where "bitBMSModuleUnbalanced = push_bit 4 1"

record BMSFault1 =
  OverVoltage :: bool
  UnderVoltage :: bool
  OverTemp :: bool
  UnderTemp :: bool
  ChargeOverTemp :: bool
  ChargeUnderTemp :: bool
  DischargeOverCurrent :: bool
  BMSFault1_Raw :: u16

definition DecodeBMSFault1 :: "u16 \<Rightarrow> BMSFault1" where
  "DecodeBMSFault1 raw =
     \<lparr>OverVoltage = (raw AND bitBMSOverVoltage \<noteq> 0),
      UnderVoltage = (raw AND bitBMSUnderVoltage \<noteq> 0),
      OverTemp = (raw AND bitBMSOverTemp \<noteq> 0),
      UnderTemp = (raw AND bitBMSUnderTemp \<noteq> 0),
      ChargeOverTemp = (raw AND bitBMSChargeOverTemp \<noteq> 0),
      ChargeUnderTemp = (raw AND bitBMSChargeUnderTemp \<noteq> 0),
      DischargeOverCurrent = (raw AND bitBMSDischargeOverCurrent \<noteq> 0),
      BMSFault1_Raw = raw\<rparr>"

definition BMSFault1_Any :: "BMSFault1 \<Rightarrow> bool" where
  "BMSFault1_Any f \<longleftrightarrow> BMSFault1_Raw f \<noteq> 0"

record BMSFault2 =
  ChargeOverCurrent :: bool
  BMSInternal :: bool
  ModuleUnbalanced :: bool
  BMSFault2_Raw :: u16

definition DecodeBMSFault2 :: "u16 \<Rightarrow> BMSFault2" where
  "DecodeBMSFault2 raw =
     \<lparr>ChargeOverCurrent = (raw AND bitBMSChargeOverCurrent \<noteq> 0),
      BMSInternal = (raw AND bitBMSInternal \<noteq> 0),
      ModuleUnbalanced = (raw AND bitBMSModuleUnbalanced \<noteq> 0),
      BMSFault2_Raw = raw\<rparr>"

definition BMSFault2_Any :: "BMSFault2 \<Rightarrow> bool" where
  "BMSFault2_Any f \<longleftrightarrow> BMSFault2_Raw f \<noteq> 0"

section \<open>Status enum\<close>

definition statusLabels :: "(u16 \<times> string) list" where
  "statusLabels =
     [(0, ''Waiting''),
      (1, ''OpenRun''),
      (2, ''SoftRun''),
      (3, ''Generating''),
      (4, ''Standby''),
      (5, ''StandbySynoch''),
      (6, ''GridToLoad''),
      (15, ''Normal''),
      (4100, ''Grid Off''),
      (4112, ''OV-G-V''),
      (4113, ''UN-G-V''),
      (4114, ''OV-G-F''),
      (4115, ''UN-G-F''),
      (4116, ''Reve-Grid''),
      (4117, ''NO-Grid''),
      (4118, ''G-PHASE''),
      (4119, ''G-F-FLU''),
      (4120, ''OV-G-I''),
      (4121, ''IGFOL-F''),
      (4128, ''OV-DC''),
      (4129, ''OV-BUS''),
      (4130, ''UNB-BUS''),
      (4131, ''UN-BUS''),
      (4132, ''UNB2-BUS''),
      (4133, ''OV-DCA-I''),
      (4134, ''OV-DCB-I''),
      (4135, ''DC-INTF.''),
      (4136, ''Reve-DC''),
      (4137, ''PvMidIso''),
      (4144, ''GRID-INTF.''),
      (4145, ''INI-FAULT''),
      (4146, ''OV-TEM''),
      (4147, ''PV ISO-PRO''),
      (4148, ''ILeak-PRO''),
      (4149, ''RelayChk-FAIL''),
      (4150, ''DSP-B-FAULT''),
      (4151, ''DCInj-FAULT''),
      (4152, ''12Power-FAULT''),
      (4153, ''ILeak-Check''),
      (4154, ''UN-TEM''),
      (4160, ''AFCI-Check''),
      (4161, ''ARC-FAULT''),
      (4162, ''RAM-FAULT''),
      (4163, ''FLASH-FAULT''),
      (4164, ''PC-FAULT''),
      (4165, ''REG-FAULT''),
      (4166, ''GRID-INTF02''),
      (4167, ''IG-AD''),
      (4168, ''IGBT-OV-I''),
      (4176, ''OV-IgTr''),
      (4177, ''OV-Vbatt-H''),
      (4178, ''OV-ILLC''),
      (4179, ''OV-Vbatt''),
      (4180, ''UN-Vbatt''),
      (4181, ''NO-Battery''),
      (4182, ''OV-VBackup''),
      (4183, ''Over-Load''),
      (4184, ''DspSelfChk''),
      (8208, ''Fail Safe''),
      (8209, ''MET_Comm_FAIL''),
      (8210, ''CAN_Comm_FAIL''),
      (8212, ''DSP_Comm_FAIL''),
      (8213, ''Alarm-BMS''),
      (8214, ''BatName-FAIL''),
      (8215, ''Alarm2-BMS''),
      (8216, ''DRM_LINK_FAIL''),
      (8217, ''MET_SEL_FAIL''),
      (8224, ''HighTemp.AMB''),
      (8225, ''LowTemp.AMB''),
      (61456, ''Surge Alarm''),
      (61457, ''Fan Alarm'')]"

definition StatusLabel :: "u16 \<Rightarrow> string" where
  "StatusLabel code =
     (case map_of statusLabels code of
        Some label \<Rightarrow> label
      | None \<Rightarrow> ''0x'' @ fmt_04X code)"

section \<open>Lemmas\<close>

text \<open>Every mask is one bit; the proofs below only use which.\<close>

lemma bit_push_bit_1: "k < 16 \<Longrightarrow> bit (push_bit k 1 :: u16) n \<longleftrightarrow> n = k"
  by (auto simp: bit_exp_iff)

lemma bit_masks:
  "bit bitSelfUse n \<longleftrightarrow> n = 0" "bit bitTimed n \<longleftrightarrow> n = 1" "bit bitAllowGridCharge n \<longleftrightarrow> n = 5"
  "bit bitBMSOverVoltage n \<longleftrightarrow> n = 1" "bit bitBMSUnderVoltage n \<longleftrightarrow> n = 2"
  "bit bitBMSOverTemp n \<longleftrightarrow> n = 3" "bit bitBMSUnderTemp n \<longleftrightarrow> n = 4"
  "bit bitBMSChargeOverTemp n \<longleftrightarrow> n = 5" "bit bitBMSChargeUnderTemp n \<longleftrightarrow> n = 6"
  "bit bitBMSDischargeOverCurrent n \<longleftrightarrow> n = 7" "bit bitBMSChargeOverCurrent n \<longleftrightarrow> n = 0"
  "bit bitBMSInternal n \<longleftrightarrow> n = 3" "bit bitBMSModuleUnbalanced n \<longleftrightarrow> n = 4"
  using bit_push_bit_1 [of 0 n] bit_push_bit_1 [of 1 n] bit_push_bit_1 [of 2 n] bit_push_bit_1 [of 3 n]
    bit_push_bit_1 [of 4 n] bit_push_bit_1 [of 5 n] bit_push_bit_1 [of 6 n] bit_push_bit_1 [of 7 n]
  by (simp_all add: bitSelfUse_def bitTimed_def bitAllowGridCharge_def bitBMSOverVoltage_def
      bitBMSUnderVoltage_def bitBMSOverTemp_def bitBMSUnderTemp_def bitBMSChargeOverTemp_def
      bitBMSChargeUnderTemp_def bitBMSDischargeOverCurrent_def bitBMSChargeOverCurrent_def
      bitBMSInternal_def bitBMSModuleUnbalanced_def)

lemma and_one_bit:
  fixes raw m :: u16
  assumes "\<And>n. bit m n \<longleftrightarrow> n = k"
  shows "raw AND m \<noteq> 0 \<longleftrightarrow> bit raw k"
proof -
  have "raw AND m = 0 \<longleftrightarrow> (\<forall>n. \<not> bit (raw AND m) n)"
    by (auto intro: bit_eqI)
  then show ?thesis by (auto simp: bit_and_iff assms)
qed

lemmas mask_tests = bit_masks [THEN and_one_bit]

lemma DecodeWorkMode_sel [simp]:
  "SelfUse (DecodeWorkMode raw) = bit raw 0"
  "Timed (DecodeWorkMode raw) = bit raw 1"
  "AllowGridCharge (DecodeWorkMode raw) = bit raw 5"
  "WorkMode_Raw (DecodeWorkMode raw) = raw"
  by (simp_all add: DecodeWorkMode_def mask_tests)

lemma bit_setBit:
  assumes "\<And>n. bit m n \<longleftrightarrow> n = k" "k < 16"
  shows "bit (setBit raw m on) n = (if n = k then on else bit raw n)"
proof -
  have m: "bit m n \<longleftrightarrow> n = k" by (rule assms(1))
  have "bit raw n \<Longrightarrow> n < 16" using bit_imp_le_length [of raw n] by simp
  then show ?thesis
    using assms(2) by (cases on) (auto simp: setBit_def bit_or_iff bit_and_iff bit_not_iff m)
qed

lemma bit_WorkMode_Encode:
  "bit (WorkMode_Encode w) n =
     (if n = 0 then SelfUse w else if n = 1 then Timed w
      else if n = 5 then AllowGridCharge w else bit (WorkMode_Raw w) n)"
  by (simp add: WorkMode_Encode_def bit_setBit [OF bit_masks(1)] bit_setBit [OF bit_masks(2)]
      bit_setBit [OF bit_masks(3)])

lemma WorkMode_Raw_WithTimed [simp]: "WorkMode_Raw (WithTimed w on) = setBit (WorkMode_Raw w) bitTimed on"
  by (simp add: WithTimed_def)

lemma bit_WithTimed:
  "bit (WorkMode_Encode (WithTimed (DecodeWorkMode raw) on)) n = (if n = 1 then on else bit raw n)"
  by (simp add: bit_WorkMode_Encode WithTimed_def bit_setBit [OF bit_masks(2)])

lemma DecodeBMSFault1_sel [simp]:
  "OverVoltage (DecodeBMSFault1 raw) = bit raw 1"
  "UnderVoltage (DecodeBMSFault1 raw) = bit raw 2"
  "OverTemp (DecodeBMSFault1 raw) = bit raw 3"
  "UnderTemp (DecodeBMSFault1 raw) = bit raw 4"
  "ChargeOverTemp (DecodeBMSFault1 raw) = bit raw 5"
  "ChargeUnderTemp (DecodeBMSFault1 raw) = bit raw 6"
  "DischargeOverCurrent (DecodeBMSFault1 raw) = bit raw 7"
  "BMSFault1_Raw (DecodeBMSFault1 raw) = raw"
  by (simp_all add: DecodeBMSFault1_def mask_tests)

lemma DecodeBMSFault2_sel [simp]:
  "ChargeOverCurrent (DecodeBMSFault2 raw) = bit raw 0"
  "BMSInternal (DecodeBMSFault2 raw) = bit raw 3"
  "ModuleUnbalanced (DecodeBMSFault2 raw) = bit raw 4"
  "BMSFault2_Raw (DecodeBMSFault2 raw) = raw"
  by (simp_all add: DecodeBMSFault2_def mask_tests)

lemma unat_u16_bound: "unat (w :: u16) < 65536"
  using unsigned_less [of w, where 'a = nat] by simp

lemma fmt_04X_inj: "fmt_04X a = fmt_04X b \<Longrightarrow> a = b"
proof -
  assume eq: "fmt_04X a = fmt_04X b"
  have digits: "unat a div 4096 mod 16 = unat b div 4096 mod 16"
    "unat a div 256 mod 16 = unat b div 256 mod 16"
    "unat a div 16 mod 16 = unat b div 16 mod 16" "unat a mod 16 = unat b mod 16"
    using eq by (auto simp: fmt_04X_def Let_def intro: digit_char_inj)
  have split: "n = 4096 * (n div 4096 mod 16) + 256 * (n div 256 mod 16)
      + 16 * (n div 16 mod 16) + n mod 16" if "n < 65536" for n :: nat
  proof -
    have d: "n div 256 = n div 16 div 16" "n div 4096 = n div 16 div 16 div 16"
      by (simp_all add: div_mult2_eq [symmetric])
    have "n div 4096 < 16" using that by (simp add: div_less_iff_less_mult)
    then have m: "n div 4096 mod 16 = n div 4096" by (rule mod_less)
    show ?thesis
      unfolding m unfolding d
      using mult_div_mod_eq [of 16 n] mult_div_mod_eq [of 16 "n div 16"]
        mult_div_mod_eq [of 16 "n div 16 div 16"] by linarith
  qed
  have "unat a = unat b"
    using split [OF unat_u16_bound, of a] split [OF unat_u16_bound, of b] digits by simp
  then show ?thesis by (rule word_eq_unatI)
qed

lemma statusLabels_distinct: "distinct (map snd statusLabels)"
  by (simp add: statusLabels_def)

lemma statusLabels_no_hex: "list_all (\<lambda>(_, l). take 2 l \<noteq> ''0x'') statusLabels"
  by (simp add: statusLabels_def)

lemma statusLabels_inj: "(a, l) \<in> set statusLabels \<Longrightarrow> (b, l) \<in> set statusLabels \<Longrightarrow> a = b"
  using statusLabels_distinct by (metis distinct_map inj_onD prod.inject snd_conv)

lemma statusLabels_not_hex: "(c, l) \<in> set statusLabels \<Longrightarrow> l \<noteq> ''0x'' @ h"
  using statusLabels_no_hex by (auto simp: list_all_iff)

lemma StatusLabel_cases:
  obtains "(code, StatusLabel code) \<in> set statusLabels"
  | "code \<notin> fst ` set statusLabels" "StatusLabel code = ''0x'' @ fmt_04X code"
  by (cases "map_of statusLabels code")
    (auto simp: StatusLabel_def map_of_eq_None_iff dest: map_of_SomeD)

section \<open>Properties\<close>

text \<open>
  Decoding the work mode and encoding it again is the identity on every 16-bit word, and
  switching the timed flag changes bit 1 and no other bit of the word read, so bits the manager does
  not know survive a write; the two words it documents go over into each other.
\<close>

theorem work_mode_encode:
  "WorkMode_Encode (DecodeWorkMode raw) = raw \<and>
   (\<forall>n. bit (WorkMode_Encode (WithTimed (DecodeWorkMode raw) on)) n = (if n = 1 then on else bit raw n)) \<and>
   Timed (DecodeWorkMode (WorkMode_Encode (WithTimed (DecodeWorkMode raw) on))) = on \<and>
   WorkMode_Encode (WithTimed (DecodeWorkMode WorkModeTimedOn) False) = WorkModeTimedOff \<and>
   WorkMode_Encode (WithTimed (DecodeWorkMode WorkModeTimedOff) True) = WorkModeTimedOn"
proof (intro conjI allI)
  show "WorkMode_Encode (DecodeWorkMode raw) = raw"
    by (rule bit_eqI) (simp add: bit_WorkMode_Encode)
  show "WorkMode_Encode (WithTimed (DecodeWorkMode WorkModeTimedOn) False) = WorkModeTimedOff"
    "WorkMode_Encode (WithTimed (DecodeWorkMode WorkModeTimedOff) True) = WorkModeTimedOn"
    by (rule bit_eqI; auto simp: bit_WithTimed WorkModeTimedOn_def WorkModeTimedOff_def bit_or_iff bit_masks)+
qed (simp_all add: bit_WithTimed)

text \<open>
  The status text identifies the code: two codes with the same text are the same code, known
  codes show the label of the table and every other code shows as \<open>0x\<close> and four hexadecimal digits.
\<close>

theorem status_label_injective:
  "inj StatusLabel \<and>
   (if code \<in> fst ` set statusLabels then (code, StatusLabel code) \<in> set statusLabels
    else StatusLabel code = ''0x'' @ fmt_04X code)"
proof (intro conjI injI)
  fix a b assume eq: "StatusLabel a = StatusLabel b"
  show "a = b"
    by (cases a rule: StatusLabel_cases; cases b rule: StatusLabel_cases)
      (use eq in \<open>auto dest: statusLabels_inj statusLabels_not_hex fmt_04X_inj\<close>)
next
  show "if code \<in> fst ` set statusLabels then (code, StatusLabel code) \<in> set statusLabels
    else StatusLabel code = ''0x'' @ fmt_04X code"
  proof (cases code rule: StatusLabel_cases)
    case 1
    then have "code \<in> fst ` set statusLabels" by (rule image_eqI [rotated]) simp
    with 1 show ?thesis by simp
  qed simp
qed

text \<open>
  A BMS fault word reports a fault exactly when some bit of it is set, whether the decoder names
  the bit or not, and each named flag is its bit of the word.
\<close>

theorem bms_fault_any:
  "(BMSFault1_Any (DecodeBMSFault1 raw) \<longleftrightarrow> (\<exists>n < 16. bit raw n)) \<and>
   (BMSFault2_Any (DecodeBMSFault2 raw) \<longleftrightarrow> (\<exists>n < 16. bit raw n)) \<and>
   DischargeOverCurrent (DecodeBMSFault1 raw) = bit raw 7 \<and> OverVoltage (DecodeBMSFault1 raw) = bit raw 1 \<and>
   ChargeOverCurrent (DecodeBMSFault2 raw) = bit raw 0 \<and> ModuleUnbalanced (DecodeBMSFault2 raw) = bit raw 4"
proof -
  have "raw \<noteq> 0 \<longleftrightarrow> (\<exists>n < 16. bit raw n)"
  proof
    assume "raw \<noteq> 0"
    then obtain n where "bit raw n" by (metis bit_eqI bit_0_eq bot_apply bot_bool_def)
    with bit_imp_le_length [of raw n] show "\<exists>n < 16. bit raw n" by auto
  qed auto
  then show ?thesis by (simp add: BMSFault1_Any_def BMSFault2_Any_def)
qed

end
