(* ===== verification/Rtc.thy ===== *)
theory Rtc
  imports TimedSlots GoTime
begin

text \<open>
  \<open>internal/inverter/rtc.go\<close>: the inverter's real-time clock, six registers (year since 2000, month,
  day, hour, minute, second) read as a naive local time. The manager's \<open>time.Local\<close> is the argument
  \<open>local\<close>.
\<close>

section \<open>Definitions\<close>

definition rtcEpochYear :: int where "rtcEpochYear = 2000"

text \<open>The loop of \<open>decodeRTC\<close>: the next \<open>n\<close> registers from \<open>addr\<close>.\<close>

fun rtc_fields :: "u16 list \<Rightarrow> int \<Rightarrow> int \<Rightarrow> nat \<Rightarrow> int list result" where
  "rtc_fields regs base addr 0 = Inr []"
| "rtc_fields regs base addr (Suc n) =
     (case regAt regs base addr of
        None \<Rightarrow> Inl (Wrap (''rtc '' @ fmt_d addr) ErrRegisterOutOfRange)
      | Some v \<Rightarrow>
          (case rtc_fields regs base (addr + 1) n of
             Inl err \<Rightarrow> Inl err
           | Inr f \<Rightarrow> Inr (uint v # f)))"

definition decodeRTC :: "location \<Rightarrow> u16 list \<Rightarrow> int \<Rightarrow> int \<Rightarrow> Time result" where
  "decodeRTC local regs base yearAddr =
     (case rtc_fields regs base yearAddr rtcRegisterCount of
        Inl err \<Rightarrow> Inl err
      | Inr f \<Rightarrow> Inr (Time_Date (rtcEpochYear + f ! 0) (f ! 1) (f ! 2) (f ! 3) (f ! 4) (f ! 5) local))"

definition DecodeRTC :: "location \<Rightarrow> Snapshot \<Rightarrow> int \<Rightarrow> Time result" where
  "DecodeRTC local s yearAddr =
     (case block s yearAddr of
        None \<Rightarrow> Inl (Wrap (''rtc '' @ fmt_d yearAddr) ErrRegisterOutOfRange)
      | Some b \<Rightarrow> decodeRTC local (Regs b) (Base b) yearAddr)"

text \<open>The conversions to \<open>uint16\<close> keep the low 16 bits.\<close>

definition EncodeRTC :: "Time \<Rightarrow> u16 list" where
  "EncodeRTC t =
     [of_int (Time_Year t - rtcEpochYear), of_int (Time_Month t), of_int (Time_Day t),
      of_int (Time_Hour t), of_int (Time_Minute t), of_int (Time_Second t)]"

definition Drift :: "Time \<Rightarrow> Time \<Rightarrow> Duration" where
  "Drift rtc now = Time_Sub rtc now"

definition RTCWriteRegisters :: "Time \<Rightarrow> Register list" where
  "RTCWriteRegisters t =
     map (\<lambda>(i, v). \<lparr>Addr = RegRTCSet + int i, Value = v\<rparr>) (enumerate 0 (EncodeRTC t))"

section \<open>Lemmas\<close>

lemma uint_of_int_u16: "0 \<le> x \<Longrightarrow> x < 65536 \<Longrightarrow> uint (of_int x :: u16) = x"
  by (simp add: unsigned_of_int take_bit_int_eq_self)

lemma RTCWriteRegisters_eq:
  "RTCWriteRegisters t =
     [\<lparr>Addr = 43000, Value = of_int (Time_Year t - 2000)\<rparr>, \<lparr>Addr = 43001, Value = of_int (Time_Month t)\<rparr>,
      \<lparr>Addr = 43002, Value = of_int (Time_Day t)\<rparr>, \<lparr>Addr = 43003, Value = of_int (Time_Hour t)\<rparr>,
      \<lparr>Addr = 43004, Value = of_int (Time_Minute t)\<rparr>, \<lparr>Addr = 43005, Value = of_int (Time_Second t)\<rparr>]"
  by (simp add: RTCWriteRegisters_def EncodeRTC_def rtcEpochYear_def reg_simps)

lemma RTCWriteRegisters_distinct: "distinct (map Addr (RTCWriteRegisters t))"
  by (simp add: RTCWriteRegisters_eq)

text \<open>A bank that holds the six registers of \<open>t\<close> decodes to \<open>t\<close> without its nanoseconds.\<close>

lemma regAt_bank: "lo \<le> a \<Longrightarrow> a < lo + int n \<Longrightarrow> regAt (bank_read bk lo n) lo a = Some (bk a)"
  by (simp add: regAt_def bank_read_def nat_less_iff)

lemma decodeRTC_bank:
  assumes "lo \<le> a" "a + 5 < lo + int n"
  shows "decodeRTC local (bank_read bk lo n) lo a =
    Inr (Time_Date (2000 + uint (bk a)) (uint (bk (a + 1))) (uint (bk (a + 2))) (uint (bk (a + 3)))
           (uint (bk (a + 4))) (uint (bk (a + 5))) local)"
  using assms
  by (simp add: decodeRTC_def rtcEpochYear_def reg_simps eval_nat_numeral regAt_bank add.assoc)

lemma DecodeRTC_bank:
  assumes held: "\<forall>r \<in> set (RTCWriteRegisters t). bk (Addr r) = Value r"
    and range: "lo \<le> 43000" "43005 < lo + int n"
    and year: "2000 \<le> Time_Year t" "Time_Year t < 67536"
    and zone: "zone_offset (t_loc t) (local_sec t) = zone_offset (t_loc t) (t_sec t)"
  shows "DecodeRTC (t_loc t) [bank_block bk lo n] RegRTCSet = Inr (t\<lparr>t_nsec := 0\<rparr>)"
proof -
  have v: "uint (bk 43000) = Time_Year t - 2000" "uint (bk 43001) = Time_Month t"
    "uint (bk 43002) = Time_Day t" "uint (bk 43003) = Time_Hour t"
    "uint (bk 43004) = Time_Minute t" "uint (bk 43005) = Time_Second t"
    using held year Time_field_bounds [of t] by (simp_all add: RTCWriteRegisters_eq uint_of_int_u16 del: of_int_diff)
  have "DecodeRTC (t_loc t) [bank_block bk lo n] RegRTCSet =
      decodeRTC (t_loc t) (bank_read bk lo n) lo 43000"
    using range by (simp add: DecodeRTC_def reg_simps) (simp add: bank_block_def)
  also have "\<dots> = Inr \<lparr>t_sec = to_utc (t_loc t) (local_sec t), t_nsec = 0, t_loc = t_loc t\<rparr>"
    using range decodeRTC_bank [of lo 43000 n "t_loc t" bk]
    by (simp add: v Time_Date_def date_unix_fields)
  finally show ?thesis by (simp add: to_utc_local_sec [OF zone])
qed

section \<open>Properties\<close>



end
