(* ===== verification/GoFloat.thy ===== *)
theory GoFloat
  imports GoStrings Complex_Main
begin

text \<open>
  Go's \<open>float64\<close> as far as the manager computes with it: IEEE 754 binary64 values with a sign, the
  conversions from integers, multiplication and division rounded to nearest even, \<open>math.Round\<close>, the
  built-in \<open>min\<close> and \<open>max\<close>, the conversion to \<open>uint16\<close> and \<open>strconv.ParseFloat\<close>. A finite value is its
  sign and its magnitude, a non-negative rational; every operation is executable. The conversion of
  a value no \<open>uint16\<close> can hold is implementation-defined in Go: it is the argument \<open>conv\<close>.
\<close>

section \<open>Values and rounding\<close>

datatype float64 = NaN | Inf bool | Fin bool rat

text \<open>The binary logarithm, rounded down, of an integer and of a positive rational.\<close>

function nlog2 :: "int \<Rightarrow> nat" where
  "nlog2 n = (if n < 2 then 0 else Suc (nlog2 (n div 2)))"
  by auto

termination nlog2
  by (relation "measure nat") auto

declare nlog2.simps [simp del]

definition rat_exp :: "rat \<Rightarrow> int" where
  "rat_exp r =
     (let (p, q) = quotient_of r; e = int (nlog2 p) - int (nlog2 q)
      in if r < 2 powi e then e - 1 else e)"

definition round_even :: "rat \<Rightarrow> int" where
  "round_even r =
     (let n = \<lfloor>r\<rfloor>; d = r - of_int n
      in if d < 1 / 2 then n else if d > 1 / 2 then n + 1 else if even n then n else n + 1)"

text \<open>
  The nearest multiple of the unit in the last place: 53 significant bits, and no unit below
  \<open>2 powi (-1074)\<close>. A magnitude from \<open>2 ^ 1024\<close> on is an infinity.
\<close>

definition fl_mag :: "rat \<Rightarrow> rat" where
  "fl_mag r =
     (if r = 0 then 0
      else (let u = max (rat_exp r - 52) (- 1074) in of_int (round_even (r / 2 powi u)) * 2 powi u))"

definition fl :: "bool \<Rightarrow> rat \<Rightarrow> float64" where
  "fl neg r = (let m = fl_mag r in if m \<noteq> 0 \<and> rat_exp m \<ge> 1024 then Inf neg else Fin neg m)"

section \<open>Operations\<close>

definition float64_of_int :: "int \<Rightarrow> float64" where
  "float64_of_int i = fl (i < 0) (of_int \<bar>i\<bar>)"

fun fmul :: "float64 \<Rightarrow> float64 \<Rightarrow> float64" where
  "fmul (Fin s a) (Fin t b) = fl (s \<noteq> t) (a * b)"
| "fmul (Inf s) (Inf t) = Inf (s \<noteq> t)"
| "fmul (Inf s) (Fin t b) = (if b = 0 then NaN else Inf (s \<noteq> t))"
| "fmul (Fin s a) (Inf t) = (if a = 0 then NaN else Inf (s \<noteq> t))"
| "fmul _ _ = NaN"

fun fdiv :: "float64 \<Rightarrow> float64 \<Rightarrow> float64" where
  "fdiv (Fin s a) (Fin t b) =
     (if b = 0 then (if a = 0 then NaN else Inf (s \<noteq> t)) else fl (s \<noteq> t) (a / b))"
| "fdiv (Inf s) (Fin t b) = Inf (s \<noteq> t)"
| "fdiv (Fin s a) (Inf t) = Fin (s \<noteq> t) 0"
| "fdiv _ _ = NaN"

text \<open>A sum of two values that cancels is a positive zero, except when both are negative zeros.\<close>

fun fadd :: "float64 \<Rightarrow> float64 \<Rightarrow> float64" where
  "fadd (Fin s a) (Fin t b) =
     (let v = (if s then - a else a) + (if t then - b else b)
      in if v = 0 then Fin (s \<and> t) 0 else fl (v < 0) \<bar>v\<bar>)"
| "fadd (Inf s) (Inf t) = (if s = t then Inf s else NaN)"
| "fadd (Inf s) (Fin t b) = Inf s"
| "fadd (Fin s a) (Inf t) = Inf t"
| "fadd _ _ = NaN"

fun fneg :: "float64 \<Rightarrow> float64" where
  "fneg (Fin s a) = Fin (\<not> s) a"
| "fneg (Inf s) = Inf (\<not> s)"
| "fneg NaN = NaN"

fun math_Abs :: "float64 \<Rightarrow> float64" where
  "math_Abs (Fin s a) = Fin False a"
| "math_Abs (Inf s) = Inf False"
| "math_Abs NaN = NaN"

text \<open>The order of the non-NaN values; \<open>value\<close> is the number a finite value stands for.\<close>

fun fvalue :: "float64 \<Rightarrow> rat" where
  "fvalue (Fin s a) = (if s then - a else a)"
| "fvalue _ = 0"

fun fless :: "float64 \<Rightarrow> float64 \<Rightarrow> bool" where
  "fless NaN _ = False"
| "fless _ NaN = False"
| "fless (Inf s) (Inf t) \<longleftrightarrow> s \<and> \<not> t"
| "fless (Inf s) (Fin t b) = s"
| "fless (Fin s a) (Inf t) = (\<not> t)"
| "fless (Fin s a) (Fin t b) \<longleftrightarrow> fvalue (Fin s a) < fvalue (Fin t b)"

definition feq_zero :: "float64 \<Rightarrow> bool" where
  "feq_zero x \<longleftrightarrow> (case x of Fin _ m \<Rightarrow> m = 0 | _ \<Rightarrow> False)"

definition IsNaN :: "float64 \<Rightarrow> bool" where
  "IsNaN x \<longleftrightarrow> x = NaN"

definition IsInf :: "float64 \<Rightarrow> bool" where
  "IsInf x \<longleftrightarrow> (case x of Inf _ \<Rightarrow> True | _ \<Rightarrow> False)"

text \<open>
  The built-in \<open>min\<close> and \<open>max\<close>: NaN if an operand is, and a negative zero is below a positive one.
\<close>

fun fneg_zero :: "float64 \<Rightarrow> bool" where
  "fneg_zero (Fin s m) \<longleftrightarrow> s \<and> m = 0"
| "fneg_zero _ = False"

definition fmin :: "float64 \<Rightarrow> float64 \<Rightarrow> float64" where
  "fmin x y =
     (if IsNaN x \<or> IsNaN y then NaN
      else if fless x y then x else if fless y x then y else if fneg_zero y then y else x)"

definition fmax :: "float64 \<Rightarrow> float64 \<Rightarrow> float64" where
  "fmax x y =
     (if IsNaN x \<or> IsNaN y then NaN
      else if fless y x then x else if fless x y then y else if fneg_zero x then y else x)"

text \<open>\<open>math.Round\<close>: half away from zero; the result is exact.\<close>

fun math_Round :: "float64 \<Rightarrow> float64" where
  "math_Round (Fin s m) = Fin s (of_int \<lfloor>m + 1 / 2\<rfloor>)"
| "math_Round x = x"

text \<open>\<open>uint16(x)\<close>: truncation towards zero where the result fits.\<close>

fun uint16_of_float :: "(float64 \<Rightarrow> u16) \<Rightarrow> float64 \<Rightarrow> u16" where
  "uint16_of_float conv (Fin s m) =
     (if (if s then \<lfloor>m\<rfloor> = 0 else \<lfloor>m\<rfloor> < 65536) then of_int \<lfloor>m\<rfloor> else conv (Fin s m))"
| "uint16_of_float conv x = conv x"

section \<open>strconv.ParseFloat\<close>

text \<open>
  \<open>lower\<close> is the byte with bit 5 set (\<open>c | ('x' - 'X')\<close>). The mantissa scanner keeps the digits read
  so far as one number, how many of them follow the point, whether a point, a digit and an underscore
  were seen, and returns the rest of the text; the number of digits is not bounded, as the decimal
  slow path of the library makes the result the nearest value whatever their number.
\<close>

definition lower :: "char \<Rightarrow> nat" where
  "lower c = (let n = of_char c in if bit n 5 then n else n + 32)"

definition mant_digit :: "bool \<Rightarrow> char \<Rightarrow> nat option" where
  "mant_digit hex c =
     (case digit_val c of
        Some d \<Rightarrow> Some d
      | None \<Rightarrow> if hex \<and> 97 \<le> lower c \<and> lower c \<le> 102 then Some (lower c - 87) else None)"

record scan =
  sc_mant :: int
  sc_frac :: nat
  sc_dot :: bool
  sc_digits :: bool
  sc_under :: bool

fun scan_mantissa :: "bool \<Rightarrow> scan \<Rightarrow> string \<Rightarrow> scan \<times> string" where
  "scan_mantissa hex st [] = (st, [])"
| "scan_mantissa hex st (c # cs) =
     (if c = CHR ''_'' then scan_mantissa hex (st\<lparr>sc_under := True\<rparr>) cs
      else if c = CHR ''.'' then
        (if sc_dot st then (st, c # cs) else scan_mantissa hex (st\<lparr>sc_dot := True\<rparr>) cs)
      else case mant_digit hex c of
        None \<Rightarrow> (st, c # cs)
      | Some d \<Rightarrow>
          scan_mantissa hex
            (st\<lparr>sc_mant := (if hex then 16 else 10) * sc_mant st + int d,
                sc_frac := (if sc_dot st then Suc (sc_frac st) else sc_frac st),
                sc_digits := True\<rparr>) cs)"

text \<open>The exponent digits; from 10000 on they are read and no longer counted.\<close>

fun scan_exponent :: "nat \<Rightarrow> bool \<Rightarrow> string \<Rightarrow> nat \<times> bool \<times> string" where
  "scan_exponent e us [] = (e, us, [])"
| "scan_exponent e us (c # cs) =
     (if c = CHR ''_'' then scan_exponent e True cs
      else case digit_val c of
        None \<Rightarrow> (e, us, c # cs)
      | Some d \<Rightarrow> scan_exponent (if e < 10000 then 10 * e + d else e) us cs)"

text \<open>\<open>underscoreOK\<close>: an underscore only between digits, or between a base prefix and a digit.\<close>

datatype saw = SawStart | SawDigit | SawUnderscore | SawOther

fun underscore_loop :: "bool \<Rightarrow> saw \<Rightarrow> string \<Rightarrow> bool" where
  "underscore_loop hex saw [] \<longleftrightarrow> saw \<noteq> SawUnderscore"
| "underscore_loop hex saw (c # cs) =
     (if mant_digit hex c \<noteq> None then underscore_loop hex SawDigit cs
      else if c = CHR ''_'' then saw = SawDigit \<and> underscore_loop hex SawUnderscore cs
      else saw \<noteq> SawUnderscore \<and> underscore_loop hex SawOther cs)"

fun drop_sign :: "string \<Rightarrow> bool \<times> string" where
  "drop_sign (c # cs) =
     (if c = CHR ''+'' then (False, cs) else if c = CHR ''-'' then (True, cs) else (False, c # cs))"
| "drop_sign [] = (False, [])"

fun underscoreOK :: "string \<Rightarrow> bool" where
  "underscoreOK s =
     (case snd (drop_sign s) of
        c # d # cs \<Rightarrow>
          if c = CHR ''0'' \<and> lower d \<in> {98, 111, 120} then underscore_loop (lower d = 120) SawDigit cs
          else underscore_loop False SawStart (c # d # cs)
      | t \<Rightarrow> underscore_loop False SawStart t)"

text \<open>
  \<open>readFloat\<close> on the whole text: the sign, and the magnitude as a rational. \<open>None\<close> is a text that is
  not a number or goes on after one.
\<close>

definition readFloat :: "string \<Rightarrow> (bool \<times> rat) option" where
  "readFloat s =
     (let (neg, t) = drop_sign s;
          hex = (length t > 2 \<and> t ! 0 = CHR ''0'' \<and> lower (t ! 1) = 120);
          (st, rest) = scan_mantissa hex
             \<lparr>sc_mant = 0, sc_frac = 0, sc_dot = False, sc_digits = False, sc_under = False\<rparr>
             (if hex then drop 2 t else t);
          unscaled = (of_int (sc_mant st) :: rat) / (if hex then 16 else 10) ^ sc_frac st
      in if \<not> sc_digits st then None
         else case rest of
           [] \<Rightarrow> if hex \<or> sc_under st \<and> \<not> underscoreOK s then None else Some (neg, unscaled)
         | c # cs \<Rightarrow>
             if lower c \<noteq> (if hex then 112 else 101) \<or> cs = [] then None
             else
               (let (eneg, ds) = drop_sign cs;
                    (e, us, left) = scan_exponent 0 (sc_under st) ds;
                    scale = (if hex then 2 else 10) ^ e
                in if ds = [] \<or> digit_val (hd ds) = None \<or> left \<noteq> [] then None
                   else if us \<and> \<not> underscoreOK s then None
                   else Some (neg, if eneg then unscaled / scale else unscaled * scale)))"

text \<open>The named values: \<open>inf\<close> and \<open>infinity\<close> with a sign or without, \<open>nan\<close>, in any case.\<close>

definition ascii_lower_eq :: "string \<Rightarrow> string \<Rightarrow> bool" where
  "ascii_lower_eq s t \<longleftrightarrow>
     length s = length t \<and>
     list_all2 (\<lambda>c d. c = d \<or> 65 \<le> (of_char c :: nat) \<and> of_char c \<le> (90 :: nat) \<and> char_of (of_char c + 32 :: nat) = d) s t"

definition ParseFloat :: "string \<Rightarrow> float64 result" where
  "ParseFloat s =
     (let (neg, t) = drop_sign s in
      if ascii_lower_eq t ''inf'' \<or> ascii_lower_eq t ''infinity'' then Inr (Inf neg)
      else if ascii_lower_eq s ''nan'' then Inr NaN
      else case readFloat s of
        None \<Rightarrow> Inl (Errorf ''strconv.ParseFloat: invalid syntax'')
      | Some (neg, r) \<Rightarrow>
          (case fl neg r of
             Inf _ \<Rightarrow> Inl (Errorf ''strconv.ParseFloat: value out of range'')
           | x \<Rightarrow> Inr x))"

section \<open>Lemmas\<close>

lemma nlog2_bounds: "0 < n \<Longrightarrow> 2 ^ nlog2 n \<le> n \<and> n < 2 ^ Suc (nlog2 n)"
proof (induction n rule: nlog2.induct)
  case (1 n)
  show ?case
  proof (cases "n < 2")
    case True
    with 1(2) show ?thesis by (simp add: nlog2.simps)
  next
    case False
    then have IH: "2 ^ nlog2 (n div 2) \<le> n div 2" "n div 2 < 2 ^ Suc (nlog2 (n div 2))"
      using 1(1) by auto
    have eq: "nlog2 n = Suc (nlog2 (n div 2))" using False by (subst nlog2.simps) simp
    have "n < 2 * 2 ^ Suc (nlog2 (n div 2))" "2 * 2 ^ nlog2 (n div 2) \<le> n" using IH by linarith+
    then show ?thesis by (simp add: eq)
  qed
qed

lemma powi_of_nat_diff: "(2 :: rat) powi (int a - int b) = 2 ^ a / 2 ^ b"
  by (simp add: power_int_diff)

lemma rat_exp_le:
  assumes "0 < r"
  shows "2 powi (rat_exp r) \<le> r"
proof -
  obtain p q where pq: "quotient_of r = (p, q)" by (cases "quotient_of r")
  have q: "0 < q" and r: "r = of_int p / of_int q"
    using quotient_of_denom_pos [OF pq] quotient_of_div [OF pq] by auto
  with assms have p: "0 < p" by (simp add: zero_less_divide_iff)
  define a b where "a = nlog2 p" and "b = nlog2 q"
  define e where "e = int a - int b"
  have "2 ^ a \<le> p" using nlog2_bounds [OF p] by (simp add: a_def)
  then have "of_int (2 ^ a) \<le> (of_int p :: rat)" by (simp only: of_int_le_iff)
  then have A': "(2 :: rat) ^ a \<le> of_int p" by simp
  have "q \<le> 2 ^ Suc b" using nlog2_bounds [OF q] by (simp add: b_def)
  then have "of_int q \<le> (of_int (2 ^ Suc b) :: rat)" by (simp only: of_int_le_iff)
  then have B': "(of_int q :: rat) \<le> 2 ^ Suc b" by simp
  have "2 powi (e - 1) \<le> r"
  proof -
    have "2 powi (e - 1) = (2 :: rat) ^ a / 2 ^ Suc b"
      by (simp add: e_def powi_of_nat_diff power_int_diff)
    also have "\<dots> \<le> of_int p / of_int q"
      using A' B' p q by (intro frac_le) auto
    finally show ?thesis by (simp add: r)
  qed
  then show ?thesis by (auto simp: rat_exp_def pq e_def a_def b_def Let_def)
qed

lemma round_even_err: "\<bar>of_int (round_even r) - r\<bar> \<le> 1 / 2"
proof -
  have "of_int \<lfloor>r\<rfloor> \<le> r" "r < of_int \<lfloor>r\<rfloor> + 1" by linarith+
  then show ?thesis by (auto simp: round_even_def Let_def abs_le_iff)
qed

lemma round_even_of_int [simp]: "round_even (of_int n) = n"
  by (simp add: round_even_def)

lemma rat_exp_mono_bound:
  assumes "0 < r" "r < 2 ^ k"
  shows "rat_exp r < int k"
proof (rule ccontr)
  assume "\<not> rat_exp r < int k"
  then have "(2 :: rat) powi (int k) \<le> 2 powi (rat_exp r)" by (intro power_int_increasing) auto
  with rat_exp_le [OF assms(1)] assms(2) show False by simp
qed

text \<open>
  Rounding is within half a unit in the last place: a relative error of \<open>2 ^ -53\<close>, or half of the
  smallest positive value.
\<close>

lemma fl_mag_err:
  assumes "0 \<le> r"
  shows "\<bar>fl_mag r - r\<bar> \<le> max (r / 2 ^ 53) (2 powi (- 1075))"
proof (cases "r = 0")
  case False
  with assms have r: "0 < r" by simp
  define u where "u = max (rat_exp r - 52) (- 1074)"
  define s where "s = r / 2 powi u"
  have rs: "r = s * 2 powi u" by (simp add: s_def)
  have "fl_mag r = of_int (round_even s) * 2 powi u"
    using r by (simp add: fl_mag_def Let_def u_def s_def)
  then have "fl_mag r - r = (of_int (round_even s) - s) * 2 powi u" by (subst rs) (simp add: algebra_simps)
  then have "\<bar>fl_mag r - r\<bar> = \<bar>of_int (round_even s) - s\<bar> * 2 powi u" by (simp add: abs_mult)
  also have "\<dots> \<le> 1 / 2 * 2 powi u" using round_even_err [of s] by (intro mult_right_mono) auto
  also have "\<dots> \<le> max (r / 2 ^ 53) (2 powi (- 1075))"
  proof (cases "rat_exp r - 52 \<ge> - 1074")
    case True
    then have "1 / 2 * 2 powi u = 2 powi (rat_exp r) / (2 :: rat) ^ 53"
      by (simp add: u_def power_int_diff)
    also have "\<dots> \<le> r / 2 ^ 53" using rat_exp_le [OF r] by (intro divide_right_mono) auto
    finally show ?thesis by simp
  next
    case False
    then have "u = - 1075 + 1" by (simp add: u_def)
    then have "1 / 2 * 2 powi u = (2 :: rat) powi (- 1075)" by (simp only: power_int_add) simp
    then show ?thesis by simp
  qed
  finally show ?thesis .
qed (simp add: fl_mag_def)

lemma round_even_nonneg: "0 \<le> r \<Longrightarrow> 0 \<le> round_even r"
  by (auto simp: round_even_def Let_def)

lemma fl_mag_nonneg: "0 \<le> r \<Longrightarrow> 0 \<le> fl_mag r"
  by (auto simp: fl_mag_def Let_def intro!: mult_nonneg_nonneg round_even_nonneg)

text \<open>In the range the manager computes in, the error is below any bound that matters.\<close>

lemma fl_mag_close:
  assumes "0 \<le> r" "r \<le> 2 ^ 20"
  shows "\<bar>fl_mag r - r\<bar> \<le> 1 / 2 ^ 33" "fl_mag r \<le> 2 ^ 20 + 1"
proof -
  have "r / 2 ^ 53 \<le> 2 ^ 20 / 2 ^ 53" using assms(2) by (rule divide_right_mono) simp
  moreover have "(2 :: rat) powi (- 1075) \<le> 2 powi (- 33)" by (intro power_int_increasing) auto
  ultimately have "max (r / 2 ^ 53) (2 powi (- 1075)) \<le> 1 / 2 ^ 33" by (simp add: power_int_minus divide_simps)
  with fl_mag_err [OF assms(1)] show b: "\<bar>fl_mag r - r\<bar> \<le> 1 / 2 ^ 33" by simp
  have "(1 :: rat) / 2 ^ 33 \<le> 1" by simp
  with b assms(2) show "fl_mag r \<le> 2 ^ 20 + 1" by linarith
qed

text \<open>A number with at most 53 significant bits is its own rounding.\<close>

lemma fl_mag_exact:
  assumes "0 \<le> n" "n < 2 ^ 53" "k \<le> 1074"
  shows "fl_mag (of_int n / 2 ^ k) = of_int n / 2 ^ k"
proof (cases "n = 0")
  case False
  define r :: rat where "r = of_int n / 2 ^ k"
  from False assms have "0 < n" by simp
  then have r: "0 < r" by (simp add: r_def)
  have "(of_int n :: rat) < of_int (2 ^ 53)" using assms(2) by (simp only: of_int_less_iff)
  then have lt: "(of_int n :: rat) < 2 ^ 53" by simp
  have e: "rat_exp r - 52 \<le> - int k"
  proof (rule ccontr)
    assume "\<not> ?thesis"
    then have "(2 :: rat) powi (53 - int k) \<le> 2 powi (rat_exp r)" by (intro power_int_increasing) auto
    also have "\<dots> \<le> r" using r by (rule rat_exp_le)
    finally show False using lt by (simp add: r_def power_int_diff divide_le_cancel)
  qed
  define u where "u = max (rat_exp r - 52) (- 1074)"
  with e assms(3) have "u \<le> - int k" by simp
  then obtain j where "- int k - u = int j" by (metis diff_ge_0_iff_ge nonneg_int_cases)
  then have j: "u = - int k - int j" by simp
  have "(2 :: rat) powi u = 1 / (2 ^ k * 2 ^ j)"
    by (simp add: j power_int_diff power_int_minus divide_simps)
  then have p: "(2 :: rat) powi u * (2 ^ k * 2 ^ j) = 1" "r / 2 powi u = of_int (n * 2 ^ j)"
    by (simp_all add: r_def)
  then have "fl_mag r = of_int (n * 2 ^ j) * 2 powi u"
    using r by (simp add: fl_mag_def Let_def u_def [symmetric] round_even_of_int del: of_int_mult)
  also have "\<dots> = r" using p(1) by (simp add: r_def field_simps)
  finally show ?thesis by (simp add: r_def)
qed (simp add: fl_mag_def)

lemma fl_mag_of_int: "0 \<le> n \<Longrightarrow> n < 2 ^ 53 \<Longrightarrow> fl_mag (of_int n) = of_int n"
  using fl_mag_exact [of n 0] by simp

text \<open>A magnitude below \<open>2 ^ 1024\<close> stays finite.\<close>

lemma fl_finite:
  assumes "fl_mag r < 2 ^ 1024" "0 \<le> fl_mag r"
  shows "fl neg r = Fin neg (fl_mag r)"
  using assms rat_exp_mono_bound [of "fl_mag r" 1024] by (auto simp: fl_def Let_def)

lemma fl_small:
  assumes "0 \<le> r" "r \<le> 2 ^ 20"
  shows "fl neg r = Fin neg (fl_mag r)"
proof (rule fl_finite)
  have "(2 :: rat) ^ 21 \<le> 2 ^ 1024" by (intro power_increasing) auto
  with fl_mag_close(2) [OF assms] show "fl_mag r < 2 ^ 1024" by simp
qed (rule fl_mag_nonneg [OF assms(1)])

lemma float64_of_int_exact:
  assumes "\<bar>i\<bar> < 2 ^ 53"
  shows "float64_of_int i = Fin (i < 0) (of_int \<bar>i\<bar>)"
proof -
  have f: "fl_mag (of_int \<bar>i\<bar>) = of_int \<bar>i\<bar>" using assms by (intro fl_mag_of_int) auto
  have "(2 :: int) ^ 53 < 2 ^ 1024" by (intro power_strict_increasing) auto
  with assms have "\<bar>i\<bar> < 2 ^ 1024" by linarith
  then have "of_int \<bar>i\<bar> < (of_int (2 ^ 1024) :: rat)" by (simp only: of_int_less_iff)
  then have "of_int \<bar>i\<bar> < (2 :: rat) ^ 1024" by simp
  then show ?thesis unfolding float64_of_int_def
    by (subst fl_finite) (simp_all add: f del: of_int_abs)
qed

text \<open>Finite values, and the magnitudes the operations keep them within.\<close>

definition fin_within :: "rat \<Rightarrow> float64 \<Rightarrow> bool" where
  "fin_within B x \<longleftrightarrow> (case x of Fin s m \<Rightarrow> 0 \<le> m \<and> m \<le> B | _ \<Rightarrow> False)"

definition IsFinite :: "float64 \<Rightarrow> bool" where
  "IsFinite x \<longleftrightarrow> (case x of Fin _ _ \<Rightarrow> True | _ \<Rightarrow> False)"

lemma fin_within_finite: "fin_within B x \<Longrightarrow> IsFinite x"
  by (simp add: fin_within_def IsFinite_def split: float64.splits)

lemma fin_within_mono: "fin_within B x \<Longrightarrow> B \<le> C \<Longrightarrow> fin_within C x"
  by (auto simp: fin_within_def split: float64.splits)

lemma IsFinite_Fin [simp]: "IsFinite (Fin s m)" "\<not> IsFinite NaN" "\<not> IsFinite (Inf s)"
  by (simp_all add: IsFinite_def)

lemma fl_within:
  assumes "0 \<le> r" "r \<le> B" "B \<le> 2 ^ 1000"
  shows "fin_within (2 * B + 1) (fl neg r)"
proof -
  have "r / 2 ^ 53 \<le> r / 1" using assms(1) by (intro divide_left_mono) simp_all
  moreover have "(2 :: rat) powi (- 1075) \<le> 2 powi 0" by (intro power_int_increasing) auto
  ultimately have "max (r / 2 ^ 53) (2 powi (- 1075)) \<le> r + 1" using assms(1) by simp
  with fl_mag_err [OF assms(1)] have le: "fl_mag r \<le> 2 * r + 1" by linarith
  have "(2 :: rat) * 2 ^ 1000 + 1 < 2 ^ 1002" by simp
  also have "(2 :: rat) ^ 1002 \<le> 2 ^ 1024" by (intro power_increasing) auto
  finally have "fl_mag r < 2 ^ 1024" using le assms(2,3) by linarith
  with fl_finite [OF this fl_mag_nonneg [OF assms(1)]] le assms fl_mag_nonneg [OF assms(1)]
  show ?thesis by (simp add: fin_within_def)
qed

lemma float64_of_int_within: "\<bar>i\<bar> \<le> 2 ^ 64 \<Longrightarrow> fin_within (2 ^ 66) (float64_of_int i)"
  using fl_within [of "of_int \<bar>i\<bar>" "2 ^ 64" "i < 0"]
  by (auto simp: float64_of_int_def power_increasing intro: fin_within_mono simp flip: of_int_abs)

text \<open>A finite value parsed from a text has a non-negative magnitude.\<close>

lemma scan_mantissa_nonneg: "0 \<le> sc_mant st \<Longrightarrow> scan_mantissa hex st s = (st', rest) \<Longrightarrow> 0 \<le> sc_mant st'"
  by (induction hex st s rule: scan_mantissa.induct) (auto split: if_splits option.splits)

lemma readFloat_nonneg:
  assumes "readFloat s = Some (neg, r)"
  shows "0 \<le> r"
proof -
  obtain neg0 t where D: "drop_sign s = (neg0, t)" by fastforce
  define hex where "hex = (length t > 2 \<and> t ! 0 = CHR ''0'' \<and> lower (t ! 1) = 120)"
  obtain st rest where S: "scan_mantissa hex \<lparr>sc_mant = 0, sc_frac = 0, sc_dot = False, sc_digits = False, sc_under = False\<rparr>
      (if hex then drop 2 t else t) = (st, rest)" by fastforce
  define un :: rat where "un = of_int (sc_mant st) / (if hex then 16 else 10) ^ sc_frac st"
  have "0 \<le> sc_mant st" by (rule scan_mantissa_nonneg [OF _ S]) simp
  then have u: "0 \<le> un" by (simp add: un_def)
  show ?thesis
  proof (cases rest)
    case Nil
    have "r = un"
      using assms unfolding readFloat_def D Let_def prod.case hex_def [symmetric] S un_def [symmetric] Nil
      by (simp split: if_splits)
    with u show ?thesis by simp
  next
    case (Cons c cs)
    obtain eneg ds where E: "drop_sign cs = (eneg, ds)" by fastforce
    obtain e us left where X: "scan_exponent 0 (sc_under st) ds = (e, us, left)" by (metis prod.exhaust)
    define scale :: rat where "scale = (if hex then 2 else 10) ^ e"
    have "r = (if eneg then un / scale else un * scale)"
      using assms
      unfolding readFloat_def D Let_def prod.case hex_def [symmetric] S un_def [symmetric] Cons list.case E X
        scale_def [symmetric]
      by (simp split: if_splits)
    moreover have "0 \<le> scale" by (simp add: scale_def)
    ultimately show ?thesis using u by simp
  qed
qed

lemma ParseFloat_nonneg:
  assumes "ParseFloat s = Inr (Fin neg m)"
  shows "0 \<le> m"
  using assms readFloat_nonneg [of s]
  by (auto simp: ParseFloat_def fl_def Let_def fl_mag_nonneg split: if_splits option.splits prod.splits float64.splits)

end
