(* ===== verification/Amps.thy ===== *)
theory Amps
  imports GoFloat
begin

text \<open>
  \<open>internal/inverter/controls.go\<close> and the scale helpers of \<open>telemetry.go\<close>: currents as tenths of an
  ampere in a register, and the clamp to the range of the Home Assistant control.
\<close>

section \<open>Definitions\<close>

definition haChargeAmpsMin :: float64 where "haChargeAmpsMin = Fin False 0"
definition haChargeAmpsMax :: float64 where "haChargeAmpsMax = Fin False (125 / 2)"

definition div10 :: "float64 \<Rightarrow> float64" where
  "div10 v = fdiv v (Fin False 10)"

definition div100 :: "float64 \<Rightarrow> float64" where
  "div100 v = fdiv v (Fin False 100)"

definition signedByDirection :: "float64 \<Rightarrow> bool \<Rightarrow> float64" where
  "signedByDirection v charging =
     (let magnitude = math_Abs v in
      if charging \<or> feq_zero magnitude then magnitude else fneg magnitude)"

definition DecodeAmps :: "u16 \<Rightarrow> float64" where
  "DecodeAmps raw = div10 (float64_of_int (uint raw))"

definition EncodeAmps :: "(float64 \<Rightarrow> u16) \<Rightarrow> float64 \<Rightarrow> u16" where
  "EncodeAmps conv amps = uint16_of_float conv (math_Round (fmul amps (Fin False 10)))"

definition ClampHAChargeAmps :: "float64 \<Rightarrow> float64" where
  "ClampHAChargeAmps amps = fmin (fmax amps haChargeAmpsMin) haChargeAmpsMax"

section \<open>Lemmas\<close>

lemma uint_of_int_lt: "0 \<le> x \<Longrightarrow> x < 65536 \<Longrightarrow> uint (of_int x :: u16) = x"
  by (simp add: unsigned_of_int take_bit_int_eq_self)

lemma uint_lt: "uint (w :: u16) < 65536"
  using unsigned_less [of w, where 'a = int] by simp

lemma raw_rat_bounds: "0 \<le> (unsigned (w :: u16) :: rat)" "(unsigned (w :: u16) :: rat) \<le> 65535"
proof -
  have eq: "(unsigned w :: rat) = of_int (uint w)" by simp
  have "(of_int 0 :: rat) \<le> of_int (uint w)" "(of_int (uint w) :: rat) \<le> of_int 65535"
    unfolding of_int_le_iff using uint_lt [of w] by auto
  then show "0 \<le> (unsigned w :: rat)" "(unsigned w :: rat) \<le> 65535" unfolding eq by simp_all
qed

text \<open>Encoding a finite, non-negative current in range: the nearest tenth, up to rounding noise.\<close>

lemma EncodeAmps_Fin:
  assumes "0 \<le> c" "c * 10 \<le> 65535 + 1 / 4"
  shows "uint (EncodeAmps conv (Fin False c)) = \<lfloor>fl_mag (c * 10) + 1 / 2\<rfloor>"
    "\<bar>of_int (uint (EncodeAmps conv (Fin False c))) - c * 10\<bar> \<le> 1 / 2 + 1 / 2 ^ 33"
proof -
  have r: "0 \<le> c * 10" "c * 10 \<le> 2 ^ 20" using assms by simp_all
  note close = fl_mag_close(1) [OF r] and nonneg = fl_mag_nonneg [OF r(1)]
  define k where "k = \<lfloor>fl_mag (c * 10) + 1 / 2\<rfloor>"
  have k: "of_int k \<le> fl_mag (c * 10) + 1 / 2" "fl_mag (c * 10) + 1 / 2 < of_int k + 1"
    unfolding k_def by linarith+
  have "(1 :: rat) / 2 ^ 33 \<le> 1 / 8" by simp
  with k close assms have "of_int k < (65536 :: rat)" by linarith
  then have k2: "k < 65536" by linarith
  have k1: "0 \<le> k" using nonneg by (simp add: k_def)
  have "EncodeAmps conv (Fin False c) = of_int k"
    using k2 by (simp add: EncodeAmps_def fl_small [OF r] k_def)
  then show u: "uint (EncodeAmps conv (Fin False c)) = \<lfloor>fl_mag (c * 10) + 1 / 2\<rfloor>"
    using k1 k2 by (simp add: uint_of_int_lt k_def)
  show "\<bar>of_int (uint (EncodeAmps conv (Fin False c))) - c * 10\<bar> \<le> 1 / 2 + 1 / 2 ^ 33"
    unfolding u using k close unfolding k_def by linarith
qed

lemma DecodeAmps_Fin: "DecodeAmps raw = Fin False (fl_mag (of_int (uint raw) / 10))"
proof -
  have "float64_of_int (uint raw) = Fin False (of_int (uint raw))"
    using uint_lt [of raw] by (subst float64_of_int_exact) auto
  moreover have "0 \<le> (unsigned raw :: rat) / 10" "(unsigned raw :: rat) / 10 \<le> 2 ^ 20"
    using raw_rat_bounds [of raw] by simp_all
  note fl_small [OF this]
  ultimately show ?thesis by (simp add: DecodeAmps_def div10_def)
qed

lemma DecodeAmps_close:
  "\<bar>fl_mag (of_int (uint (raw :: u16)) / 10) - of_int (uint raw) / 10\<bar> \<le> 1 / 2 ^ 33"
  by (rule fl_mag_close(1)) (use raw_rat_bounds [of raw] in simp_all)

lemma Clamp_Fin:
  assumes "0 \<le> m"
  shows "\<exists>c. ClampHAChargeAmps (Fin s m) = Fin False c \<and> c = max 0 (min (fvalue (Fin s m)) (125 / 2))"
  using assms
  by (auto simp: ClampHAChargeAmps_def fmin_def fmax_def IsNaN_def haChargeAmpsMin_def haChargeAmpsMax_def
      split: if_splits)

lemma clamped_bounds:
  assumes "0 \<le> m"
  shows "uint (EncodeAmps conv (ClampHAChargeAmps (Fin neg m))) \<le> 625 \<and>
    \<bar>of_int (uint (EncodeAmps conv (ClampHAChargeAmps (Fin neg m))))
       - max 0 (min (fvalue (Fin neg m)) (125 / 2)) * 10\<bar> \<le> 1 / 2 + 1 / 2 ^ 33"
proof -
  obtain c where c: "ClampHAChargeAmps (Fin neg m) = Fin False c" "c = max 0 (min (fvalue (Fin neg m)) (125 / 2))"
    using Clamp_Fin [OF assms] by blast
  then have b: "0 \<le> c" "c \<le> 125 / 2" by auto
  then have "c * 10 \<le> 65535 + 1 / 4" by simp
  note E = EncodeAmps_Fin [OF b(1) this, of conv]
  have "(1 :: rat) / 2 ^ 33 \<le> 1 / 4" by simp
  with E(2) b have "(of_int (uint (EncodeAmps conv (Fin False c))) :: rat) < 626" by linarith
  then have "uint (EncodeAmps conv (Fin False c)) < 626" by linarith
  with E(2) show ?thesis unfolding c(1) c(2) [symmetric] by simp
qed

lemma clamped_uint_bound: "0 \<le> m \<Longrightarrow> uint (EncodeAmps conv (ClampHAChargeAmps (Fin neg m))) \<le> 625"
  using clamped_bounds by blast

section \<open>Properties\<close>

text \<open>
  C33: decoding a current register and encoding the result gives the register word back, for every
  word: the two roundings of the division and of the multiplication never move it to another tenth.
\<close>

theorem amps_roundtrip: "EncodeAmps conv (DecodeAmps raw) = raw"
proof -
  define n where "n = (of_int (uint raw) :: rat)"
  define x where "x = fl_mag (n / 10)"
  have n: "0 \<le> n" "n \<le> 65535" unfolding n_def using raw_rat_bounds [of raw] by simp_all
  have x: "\<bar>x - n / 10\<bar> \<le> 1 / 2 ^ 33" unfolding x_def n_def by (rule DecodeAmps_close)
  have "0 \<le> x" unfolding x_def by (rule fl_mag_nonneg) (simp add: n)
  have noise: "(1 :: rat) / 2 ^ 33 \<le> 1 / 100" by simp
  with x n have hi: "x * 10 \<le> 65535 + 1 / 4" by linarith
  have r: "0 \<le> x * 10" "x * 10 \<le> 2 ^ 20" using \<open>0 \<le> x\<close> hi by simp_all
  have "\<bar>fl_mag (x * 10) - x * 10\<bar> \<le> 1 / 2 ^ 33" by (rule fl_mag_close(1) [OF r])
  with x noise have "\<bar>fl_mag (x * 10) - n\<bar> < 1 / 2" by linarith
  then have "\<lfloor>fl_mag (x * 10) + 1 / 2\<rfloor> = uint raw" unfolding n_def by (intro floor_unique) linarith+
  with EncodeAmps_Fin(1) [OF \<open>0 \<le> x\<close> hi, of conv]
  have "uint (EncodeAmps conv (DecodeAmps raw)) = uint raw" by (simp add: DecodeAmps_Fin x_def n_def)
  then show ?thesis by (simp only: word_uint_eq_iff)
qed

text \<open>
  A finite current that went through the clamp encodes to at most 625 (62.5 A), within half a
  tenth (and the rounding noise of one multiplication) of the requested current clamped to 0 to 62.5,
  so the conversion to \<open>uint16\<close> is never outside its range.
\<close>

theorem clamped_amps_bounds:
  assumes "0 \<le> m"
  shows "uint (EncodeAmps conv (ClampHAChargeAmps (Fin neg m))) \<le> 625 \<and>
    \<bar>of_int (uint (EncodeAmps conv (ClampHAChargeAmps (Fin neg m))))
       - max 0 (min (fvalue (Fin neg m)) (125 / 2)) * 10\<bar> \<le> 1 / 2 + 1 / 2 ^ 33"
  using assms by (rule clamped_bounds)

theorem clamped_amps_bounds_witness:
  "uint (EncodeAmps (\<lambda>_. 7) (ClampHAChargeAmps (Fin False 1000))) \<le> 625"
  using clamped_amps_bounds [of 1000 "\<lambda>_. 7" False] by simp

end
