(* ===== verification/Handler.thy ===== *)
theory Handler
  imports Sidecar Schedule Bitfields Rtc Amps "HOL-Library.Sublist"
begin

text \<open>
  \<open>internal/controls/handler.go\<close>: the command handler above the guard. Logging has no effect on what
  the handler does and is left out. A panic is an \<open>Inl\<close> with a \<^const>\<open>Panic\<close>; \<open>OnMessage\<close> recovers it.
  The clock \<open>now\<close> reads the time from the world; \<open>conv\<close> is the conversion to \<open>uint16\<close> of a float no
  \<open>uint16\<close> can hold.
\<close>

section \<open>handler.go\<close>

definition keySetChargeCurrent :: string where "keySetChargeCurrent = ''set_charge_current''"
definition keySetDischargeCurrent :: string where "keySetDischargeCurrent = ''set_discharge_current''"
definition keyOptimalIncome :: string where "keyOptimalIncome = ''optimal_income''"
definition keyBoostSelect :: string where "keyBoostSelect = ''boost_select''"
definition keyRTCSync :: string where "keyRTCSync = ''rtc_sync''"

definition boostSlot :: int where "boostSlot = 3 - 1"

record 'w Handler =
  rw :: "'w HoldingReadWriter"
  enabled :: bool
  refresh :: "('w \<Rightarrow> 'w) option"
  now :: "'w \<Rightarrow> Time"
  tou :: TimedWindow
  assertToU :: bool

text \<open>
  The loop of \<open>writeRegisters\<close>: \<open>wrote\<close> is the flag so far; a register whose guard failed without a
  write is tried once more.
\<close>

fun writeRegisters_loop ::
  "'w HoldingReadWriter \<Rightarrow> bool \<Rightarrow> Register list \<Rightarrow> 'w \<Rightarrow> (bool \<times> go_error option) \<times> 'w" where
  "writeRegisters_loop bus wrote [] w = ((wrote, None), w)"
| "writeRegisters_loop bus wrote (reg # regs) w =
     (let ((res, err), w) = Guard bus (Addr reg) (Value reg) w;
          wrote = (wrote \<or> Wrote res);
          ((res, err), w) =
            (if err \<noteq> None \<and> \<not> Wrote res then Guard bus (Addr reg) (Value reg) w else ((res, err), w));
          wrote = (wrote \<or> Wrote res)
      in if err \<noteq> None then ((wrote, err), w) else writeRegisters_loop bus wrote regs w)"

definition writeRegisters :: "'w Handler \<Rightarrow> Register list \<Rightarrow> 'w \<Rightarrow> (bool \<times> go_error option) \<times> 'w" where
  "writeRegisters h regs w = writeRegisters_loop (rw h) False regs w"

definition guardOne :: "'w Handler \<Rightarrow> int \<Rightarrow> u16 \<Rightarrow> 'w \<Rightarrow> 'w" where
  "guardOne h addr value w = snd (Guard (rw h) addr value w)"

definition setCurrent :: "(float64 \<Rightarrow> u16) \<Rightarrow> 'w Handler \<Rightarrow> int \<Rightarrow> string \<Rightarrow> 'w \<Rightarrow> bool result \<times> 'w" where
  "setCurrent conv h addr payload w =
     (case ParseFloat (TrimSpace payload) of
        Inl err \<Rightarrow> (Inr False, w)
      | Inr parsed \<Rightarrow>
          if IsNaN parsed \<or> IsInf parsed then (Inr False, w)
          else (Inr True, guardOne h addr (EncodeAmps conv (ClampHAChargeAmps parsed)) w))"

text \<open>The two results \<open>on\<close> and \<open>ok\<close>; \<open>None\<close> is \<open>ok == false\<close>.\<close>

definition parseRunStop :: "string \<Rightarrow> bool option" where
  "parseRunStop payload =
     (let s = ToUpper (TrimSpace payload) in
      if s = ''RUN'' then Some True else if s = ''STOP'' then Some False else None)"

definition setOptimalIncome :: "'w Handler \<Rightarrow> string \<Rightarrow> 'w \<Rightarrow> bool result \<times> 'w" where
  "setOptimalIncome h payload w =
     (case parseRunStop payload of
        None \<Rightarrow> (Inr False, w)
      | Some on \<Rightarrow>
          (case readOne (rw h) RegWorkMode w of
             (Inl err, w) \<Rightarrow> (Inr True, w)
           | (Inr cur, w) \<Rightarrow>
               (let desired = WorkMode_Encode (WithTimed (DecodeWorkMode cur) on)
                in (Inr True, guardOne h RegWorkMode desired w))))"

definition setBoost :: "'w Handler \<Rightarrow> string \<Rightarrow> 'w \<Rightarrow> bool result \<times> 'w" where
  "setBoost h payload w =
     (case ParseBoostOption payload of
        None \<Rightarrow> (Inr False, w)
      | Some (mode, minutes) \<Rightarrow>
          if mode = Off then
            (case TimedSlotWriteRegisters boostSlot TimedSlot_zero of
               Inl panic \<Rightarrow> (Inl panic, w)
             | Inr regs \<Rightarrow> (Inr True, snd (writeRegisters h regs w)))
          else
            (case readOne (rw h) RegWorkMode w of
               (Inl err, w) \<Rightarrow> (Inr True, w)
             | (Inr cur, w) \<Rightarrow>
                 if \<not> Timed (DecodeWorkMode cur) then (Inr True, w)
                 else
                   (case PlanBoost mode minutes (now h w) (tou h) (assertToU h) of
                      Inl err \<Rightarrow> (Inr True, w)
                    | Inr slot \<Rightarrow>
                        (case TimedSlotWriteRegisters boostSlot slot of
                           Inl panic \<Rightarrow> (Inl panic, w)
                         | Inr regs \<Rightarrow> (Inr True, snd (writeRegisters h regs w))))))"

definition syncRTCTo :: "'w Handler \<Rightarrow> 'w \<Rightarrow> (bool \<times> go_error option) \<times> 'w" where
  "syncRTCTo h w = writeRegisters h (RTCWriteRegisters (now h w)) w"

definition syncRTC :: "'w Handler \<Rightarrow> 'w \<Rightarrow> bool result \<times> 'w" where
  "syncRTC h w = (Inr True, snd (syncRTCTo h w))"

definition SyncRTC :: "'w Handler \<Rightarrow> 'w \<Rightarrow> (bool \<times> go_error option) \<times> 'w" where
  "SyncRTC h w = syncRTCTo h w"

definition commandKey :: "string \<Rightarrow> string option" where
  "commandKey topic =
     (let segs = Split (CHR ''/'') topic in
      if length segs < 2 then None
      else if segs ! (length segs - 1) \<noteq> ''set'' then None
      else
        (let key = segs ! (length segs - 2) in
         if key = '''' then None else Some key))"

definition route :: "(float64 \<Rightarrow> u16) \<Rightarrow> 'w Handler \<Rightarrow> string \<Rightarrow> string \<Rightarrow> 'w \<Rightarrow> bool result \<times> 'w" where
  "route conv h key payload w =
     (if key = keySetChargeCurrent then setCurrent conv h RegTimedChargeCurrent payload w
      else if key = keySetDischargeCurrent then setCurrent conv h RegTimedDischargeCurrent payload w
      else if key = keyOptimalIncome then setOptimalIncome h payload w
      else if key = keyBoostSelect then setBoost h payload w
      else if key = keyRTCSync then syncRTC h w
      else (Inr False, w))"

text \<open>The deferred \<open>recover\<close> ends the call where the panic happened.\<close>

definition OnMessage :: "(float64 \<Rightarrow> u16) \<Rightarrow> 'w Handler \<Rightarrow> string \<Rightarrow> string \<Rightarrow> 'w \<Rightarrow> 'w" where
  "OnMessage conv h topic payload w =
     (case commandKey topic of
        None \<Rightarrow> w
      | Some key \<Rightarrow>
          if \<not> enabled h then w
          else
            (case route conv h key payload w of
               (Inl panic, w) \<Rightarrow> w
             | (Inr touched, w) \<Rightarrow>
                 (case refresh h of
                    Some f \<Rightarrow> if touched then f w else w
                  | None \<Rightarrow> w)))"

definition Apply :: "(float64 \<Rightarrow> u16) \<Rightarrow> 'w Handler \<Rightarrow> string \<Rightarrow> string \<Rightarrow> 'w \<Rightarrow> 'w" where
  "Apply conv h topic payload w = OnMessage conv h topic payload w"

section \<open>Guarded writes\<close>

text \<open>One register of a sequence: the guard, and once more when it failed without a write.\<close>

definition guardRetry :: "'w HoldingReadWriter \<Rightarrow> int \<Rightarrow> u16 \<Rightarrow> 'w \<Rightarrow> (bool \<times> go_error option) \<times> 'w" where
  "guardRetry bus a v w =
     (let ((res, err), w1) = Guard bus a v w in
      if err \<noteq> None \<and> \<not> Wrote res
      then (let ((res2, err2), w2) = Guard bus a v w1 in ((Wrote res2, err2), w2))
      else ((Wrote res, err), w1))"

lemma loop_Cons:
  "writeRegisters_loop bus wrote (r # rs) w =
     (let ((wr, err), w1) = guardRetry bus (Addr r) (Value r) w in
      if err \<noteq> None then ((wrote \<or> wr, err), w1) else writeRegisters_loop bus (wrote \<or> wr) rs w1)"
  by (auto simp: guardRetry_def Let_def split: prod.splits)

declare writeRegisters_loop.simps(2) [simp del]

lemma guardRetry_cases:
  assumes "guardRetry bus a v w = ((wr, err), w')"
  obtains (once) res where "Guard bus a v w = ((res, err), w')" "wr = Wrote res" "err = None \<or> Wrote res"
  | (twice) res e w1 res2 where "Guard bus a v w = ((res, Some e), w1)" "\<not> Wrote res"
      "Guard bus a v w1 = ((res2, err), w')" "wr = Wrote res2"
proof -
  obtain res e w1 where G: "Guard bus a v w = ((res, e), w1)" by (metis prod.exhaust)
  obtain res2 e2 w2 where G2: "Guard bus a v w1 = ((res2, e2), w2)" by (metis prod.exhaust)
  show ?thesis
    using assms G G2 once [of res] twice [of res _ w1 res2]
    by (cases e) (auto simp: guardRetry_def split: if_splits)
qed

text \<open>The loop stops at the first register whose attempts fail; \<open>k\<close> registers are behind it then.\<close>

lemma loop_stops:
  assumes "writeRegisters_loop bus wrote regs w = ((wr, err), w')"
  shows "err = None \<or> (\<exists>k w1 wr1. k < length regs \<and>
    writeRegisters_loop bus wrote (take k regs) w = ((wr1, None), w1) \<and>
    snd (guardRetry bus (Addr (regs ! k)) (Value (regs ! k)) w1) = w' \<and>
    snd (fst (guardRetry bus (Addr (regs ! k)) (Value (regs ! k)) w1)) = err)"
  using assms
proof (induction regs arbitrary: wrote w)
  case (Cons r rs)
  obtain wr1 e1 w1 where A: "guardRetry bus (Addr r) (Value r) w = ((wr1, e1), w1)" by (metis prod.exhaust)
  show ?case
  proof (cases e1)
    case (Some e)
    then show ?thesis using Cons.prems A by (auto simp: loop_Cons intro!: exI [of _ 0])
  next
    case None
    with Cons.prems A have "writeRegisters_loop bus (wrote \<or> wr1) rs w1 = ((wr, err), w')"
      by (simp add: loop_Cons)
    from Cons.IH [OF this] show ?thesis
    proof
      assume "\<exists>k w2 wr2. k < length rs \<and>
        writeRegisters_loop bus (wrote \<or> wr1) (take k rs) w1 = ((wr2, None), w2) \<and>
        snd (guardRetry bus (Addr (rs ! k)) (Value (rs ! k)) w2) = w' \<and>
        snd (fst (guardRetry bus (Addr (rs ! k)) (Value (rs ! k)) w2)) = err"
      then obtain k w2 wr2 where "k < length rs"
        "writeRegisters_loop bus (wrote \<or> wr1) (take k rs) w1 = ((wr2, None), w2)"
        "snd (guardRetry bus (Addr (rs ! k)) (Value (rs ! k)) w2) = w'"
        "snd (fst (guardRetry bus (Addr (rs ! k)) (Value (rs ! k)) w2)) = err" by blast
      then show ?thesis using A None by (intro disjI2 exI [of _ "Suc k"] exI) (auto simp: loop_Cons)
    qed simp
  qed
qed simp

context holding_bus
begin

lemma guardRetry_frame:
  assumes "guardRetry bus a v w = ((wr, err), w')" "b \<in> stable" "b \<noteq> a"
  shows "holding w' b = holding w b"
  using assms(1)
proof (cases rule: guardRetry_cases)
  case (once res)
  then show ?thesis using Guard_frame assms(2,3) by blast
next
  case (twice res e w1 res2)
  then show ?thesis using Guard_frame [OF twice(1) assms(2,3)] Guard_frame [OF twice(3) assms(2,3)] by simp
qed

lemma guardRetry_ok:
  assumes "guardRetry bus a v w = ((wr, None), w')" "a \<in> stable"
  shows "holding w' a = v"
  using assms(1) by (cases rule: guardRetry_cases) (use Guard_ok assms(2) in blast)+

lemma loop_frame:
  assumes "writeRegisters_loop bus wrote regs w = ((wr, err), w')" "b \<in> stable" "b \<notin> Addr ` set regs"
  shows "holding w' b = holding w b"
  using assms
proof (induction regs arbitrary: wrote w)
  case (Cons r rs)
  obtain wr1 e1 w1 where A: "guardRetry bus (Addr r) (Value r) w = ((wr1, e1), w1)" by (metis prod.exhaust)
  then have "holding w1 b = holding w b" using guardRetry_frame Cons.prems(2,3) by auto
  then show ?case using Cons A by (cases e1) (auto simp: loop_Cons)
qed simp

lemma loop_ok:
  assumes "writeRegisters_loop bus wrote regs w = ((wr, None), w')"
    and "distinct (map Addr regs)" "Addr ` set regs \<subseteq> stable" "r \<in> set regs"
  shows "holding w' (Addr r) = Value r"
  using assms
proof (induction regs arbitrary: wrote w)
  case (Cons x rs)
  obtain wr1 e1 w1 where A: "guardRetry bus (Addr x) (Value x) w = ((wr1, e1), w1)" by (metis prod.exhaust)
  with Cons.prems(1) have e1: "e1 = None"
    and L: "writeRegisters_loop bus (wrote \<or> wr1) rs w1 = ((wr, None), w')"
    by (auto simp: loop_Cons split: if_splits)
  show ?case
  proof (cases "r \<in> set rs")
    case True
    then show ?thesis using Cons.IH [OF L] Cons.prems by simp
  next
    case False
    with Cons.prems(4) have "r = x" by simp
    have "Addr x \<notin> Addr ` set rs" using Cons.prems(2) by auto
    moreover have "holding w1 (Addr x) = Value x"
      using guardRetry_ok [OF A [unfolded e1]] Cons.prems(3) by auto
    ultimately show ?thesis using loop_frame [OF L, of "Addr x"] Cons.prems(3) \<open>r = x\<close> by auto
  qed
qed simp

end

lemma apply_regs_cong:
  assumes "\<And>b. b \<in> S \<Longrightarrow> bk b = bk' b" "b \<in> S"
  shows "apply_regs rs bk b = apply_regs rs bk' b"
  using assms
proof (induction rs arbitrary: bk bk')
  case (Cons r rs)
  have "apply_regs rs (bk(Addr r := Value r)) b = apply_regs rs (bk'(Addr r := Value r)) b"
    by (rule Cons.IH) (use Cons.prems in auto)
  then show ?case by simp
qed simp

context faithful_bus
begin

lemma guardRetry_wear:
  assumes "guardRetry bus a v w = ((wr, err), w')" "a \<in> stable"
  shows "wear w' = wear w \<or> wear w' = wear w @ [(a, v)] \<and> holding w a \<noteq> v"
  using assms(1)
proof (cases rule: guardRetry_cases)
  case (once res)
  then show ?thesis using Guard_wear(1,2) assms(2) by metis
next
  case (twice res e w1 res2)
  show ?thesis
  proof (cases "wear w1 = wear w")
    case True
    then show ?thesis
      using Guard_wear(1,2) [OF twice(3)] Guard_unchanged [OF twice(1) True assms(2)] assms(2) by metis
  next
    case False
    then have "holding w1 a = v" "wear w1 = wear w @ [(a, v)]" "holding w a \<noteq> v"
      using Guard_held [OF twice(1) False assms(2)] Guard_wear(1,2) [OF twice(1)] assms(2) by auto
    then show ?thesis using Guard_wear(2) [OF twice(3)] assms(2) by auto
  qed
qed

lemma guardRetry_bank:
  assumes "guardRetry bus a v w = ((wr, err), w')" "a \<in> stable"
  shows "(\<forall>b \<in> stable. holding w' b = holding w b) \<or> (\<forall>b \<in> stable. holding w' b = ((holding w)(a := v)) b)"
    "err = None \<Longrightarrow> \<forall>b \<in> stable. holding w' b = ((holding w)(a := v)) b"
proof -
  show "err = None \<Longrightarrow> \<forall>b \<in> stable. holding w' b = ((holding w)(a := v)) b"
    using guardRetry_ok guardRetry_frame assms by fastforce
  show "(\<forall>b \<in> stable. holding w' b = holding w b) \<or> (\<forall>b \<in> stable. holding w' b = ((holding w)(a := v)) b)"
    using assms(1)
  proof (cases rule: guardRetry_cases)
    case (once res)
    then show ?thesis using Guard_bank(1) assms(2) by blast
  next
    case (twice res e w1 res2)
    show ?thesis using Guard_bank(1) [OF twice(1) assms(2)] Guard_bank(1) [OF twice(3) assms(2)] by auto
  qed
qed

text \<open>The bank a sequence leaves behind is the one after a prefix of its registers.\<close>

lemma loop_bank:
  assumes "writeRegisters_loop bus wrote regs w = ((wr, err), w')" "Addr ` set regs \<subseteq> stable"
  shows "\<exists>k \<le> length regs. (\<forall>b \<in> stable. holding w' b = apply_regs (take k regs) (holding w) b) \<and>
    (err = None \<longrightarrow> k = length regs)"
  using assms
proof (induction regs arbitrary: wrote w)
  case (Cons r rs)
  obtain wr1 e1 w1 where A: "guardRetry bus (Addr r) (Value r) w = ((wr1, e1), w1)" by (metis prod.exhaust)
  have st: "Addr r \<in> stable" "Addr ` set rs \<subseteq> stable" using Cons.prems(2) by auto
  note B = guardRetry_bank [OF A st(1)]
  show ?case
  proof (cases e1)
    case (Some e)
    then have "w' = w1" "err = Some e" using Cons.prems(1) A by (auto simp: loop_Cons)
    with B(1) show ?thesis
      by (auto intro: exI [of _ 0] exI [of _ "Suc 0"])
  next
    case None
    with Cons.prems(1) A have L: "writeRegisters_loop bus (wrote \<or> wr1) rs w1 = ((wr, err), w')"
      by (simp add: loop_Cons)
    from Cons.IH [OF this st(2)] obtain k where k: "k \<le> length rs" "err = None \<longrightarrow> k = length rs"
      "\<forall>b \<in> stable. holding w' b = apply_regs (take k rs) (holding w1) b" by blast
    have "apply_regs (take k rs) (holding w1) b = apply_regs (take k rs) ((holding w)(Addr r := Value r)) b"
      if "b \<in> stable" for b
      by (rule apply_regs_cong [of stable]) (use B(2) [OF None] that in auto)
    with k show ?thesis by (intro exI [of _ "Suc k"]) auto
  qed
qed simp

text \<open>The writes it costs: at most one for every register whose value differs, in order.\<close>

lemma loop_wear:
  assumes "writeRegisters_loop bus wrote regs w = ((wr, err), w')" "Addr ` set regs \<subseteq> stable"
    and "distinct (map Addr regs)"
  shows "\<exists>frames. wear w' = wear w @ frames \<and>
    subseq frames (map (\<lambda>r. (Addr r, Value r)) (filter (\<lambda>r. holding w (Addr r) \<noteq> Value r) regs))"
  using assms
proof (induction regs arbitrary: wrote w)
  case (Cons r rs)
  obtain wr1 e1 w1 where A: "guardRetry bus (Addr r) (Value r) w = ((wr1, e1), w1)" by (metis prod.exhaust)
  have st: "Addr r \<in> stable" "Addr ` set rs \<subseteq> stable" using Cons.prems(2) by auto
  define cost where "cost w rs = map (\<lambda>r. (Addr r, Value r)) (filter (\<lambda>r. holding w (Addr r) \<noteq> Value r) rs)" for w and rs :: "Register list"
  obtain f where f: "wear w1 = wear w @ f" "f = [] \<or> f = [(Addr r, Value r)] \<and> holding w (Addr r) \<noteq> Value r"
    using guardRetry_wear [OF A st(1)] by auto
  then have f1: "subseq f (cost w [r])" by (auto simp: cost_def)
  show ?case
  proof (cases e1)
    case (Some e)
    then have "w' = w1" using Cons.prems(1) A by (auto simp: loop_Cons)
    moreover have "subseq f (cost w (r # rs))"
      using f(2) by (auto simp: cost_def)
    ultimately show ?thesis using f(1) by (auto simp: cost_def)
  next
    case None
    with Cons.prems(1) A have L: "writeRegisters_loop bus (wrote \<or> wr1) rs w1 = ((wr, err), w')"
      by (simp add: loop_Cons)
    have "distinct (map Addr rs)" using Cons.prems(3) by simp
    from Cons.IH [OF L st(2) this] obtain g where g: "wear w' = wear w1 @ g" "subseq g (cost w1 rs)"
      by (auto simp: cost_def)
    have "holding w1 (Addr s) = holding w (Addr s)" if "s \<in> set rs" for s
    proof -
      have "Addr s \<in> Addr ` set rs" "Addr r \<notin> Addr ` set rs" using that Cons.prems(3) by simp_all
      then have "Addr s \<in> stable" "Addr s \<noteq> Addr r" using st(2) by auto
      then show ?thesis by (rule guardRetry_frame [OF A])
    qed
    then have "cost w1 rs = cost w rs" by (auto simp: cost_def intro!: arg_cong [where f = "map _"] filter_cong)
    then have "subseq (f @ g) (cost w [r] @ cost w rs)" using f1 g(2) by (auto intro: list_emb_append_mono)
    then show ?thesis using f(1) g(1) by (intro exI [of _ "f @ g"]) (auto simp: cost_def split: if_splits)
  qed
qed simp

end

section \<open>Commands\<close>

text \<open>The registers a command may write: the clock, the work mode, the two currents and the boost slot.\<close>

definition command_registers :: "int set" where
  "command_registers = {43000..43005} \<union> {43110, 43141, 43142} \<union> {43163..43170}"

lemma boost_regs_ok: "\<exists>regs. TimedSlotWriteRegisters boostSlot slot = Inr regs"
  using TimedSlotWriteRegisters_ok [of 2 slot] by (auto simp: boostSlot_def elim: is_okE)

lemma boost_regs_addrs:
  assumes "TimedSlotWriteRegisters boostSlot slot = Inr regs"
  shows "Addr ` set regs = {43163..43170}" "distinct (map Addr regs)"
  using TimedSlotWriteRegisters_addrs [OF assms] by (simp_all add: boostSlot_def timedSlotBase_def reg_simps)

lemma rtc_regs_addrs: "Addr ` set (RTCWriteRegisters t) = {43000..43005}"
  by (auto simp: RTCWriteRegisters_eq)

text \<open>The ways a boost command ends: without a write, or with a sequence for the boost slot.\<close>

lemma setBoost_cases:
  assumes "setBoost h payload w = (r, w')"
  obtains (dropped) "w' = w" "r = Inr False"
  | (refused) r1 where "readOne (rw h) RegWorkMode w = (r1, w')" "r = Inr True"
  | (cleared) regs where "TimedSlotWriteRegisters boostSlot TimedSlot_zero = Inr regs"
      "w' = snd (writeRegisters h regs w)" "r = Inr True" "ParseBoostOption payload = Some (Off, 0)"
  | (planned) mode minutes cur w1 slot regs where "ParseBoostOption payload = Some (mode, minutes)" "mode \<noteq> Off"
      "readOne (rw h) RegWorkMode w = (Inr cur, w1)" "Timed (DecodeWorkMode cur)"
      "PlanBoost mode minutes (now h w1) (tou h) (assertToU h) = Inr slot"
      "TimedSlotWriteRegisters boostSlot slot = Inr regs" "w' = snd (writeRegisters h regs w1)" "r = Inr True"
proof (cases "ParseBoostOption payload")
  case None
  with assms show ?thesis by (intro dropped) (auto simp: setBoost_def)
next
  case (Some p)
  obtain mode minutes where p: "p = (mode, minutes)" by (cases p)
  obtain r1 w1 where R: "readOne (rw h) RegWorkMode w = (r1, w1)" by fastforce
  show ?thesis
  proof (cases "mode = Off")
    case True
    with Some p have "ParseBoostOption payload = Some (Off, 0)"
      using ParseBoostOption_SomeD [of payload mode minutes] by (auto simp: boostCandidates_eq)
    with assms boost_regs_ok [of TimedSlot_zero] show ?thesis
      by (auto simp: setBoost_def intro: cleared)
  next
    case False
    show ?thesis
    proof (cases "\<exists>cur slot. r1 = Inr cur \<and> Timed (DecodeWorkMode cur) \<and>
        PlanBoost mode minutes (now h w1) (tou h) (assertToU h) = Inr slot")
      case True
      then obtain cur slot where c: "r1 = Inr cur" "Timed (DecodeWorkMode cur)"
        "PlanBoost mode minutes (now h w1) (tou h) (assertToU h) = Inr slot" by blast
      obtain regs where regs: "TimedSlotWriteRegisters boostSlot slot = Inr regs" using boost_regs_ok by blast
      have "(r, w') = (Inr True, snd (writeRegisters h regs w1))"
        using assms Some p False R c regs by (simp add: setBoost_def)
      with Some p False R c regs show ?thesis by (intro planned) auto
    next
      case no: False
      have "(r, w') = (Inr True, w1)"
        using assms Some p False R no by (auto simp: setBoost_def split: sum.splits if_splits)
      then show ?thesis using R by (intro refused) auto
    qed
  qed
qed

lemma route_never_panics: "\<exists>b. fst (route conv h key payload w) = Inr b"
proof -
  obtain r w' where B: "setBoost h payload w = (r, w')" by fastforce
  then have "\<exists>b. r = Inr b" by (cases rule: setBoost_cases) auto
  with B show ?thesis
    by (auto simp: route_def setCurrent_def setOptimalIncome_def syncRTC_def Let_def
        split: sum.splits option.splits prod.splits)
qed

context holding_bus
begin

lemma writeRegisters_frame:
  assumes "rw h = bus" "b \<in> stable" "b \<notin> Addr ` set regs"
  shows "holding (snd (writeRegisters h regs w)) b = holding w b"
proof -
  obtain wr err w' where L: "writeRegisters_loop bus False regs w = ((wr, err), w')" by (metis prod.exhaust)
  show ?thesis using loop_frame [OF L assms(2,3)] L assms(1) by (simp add: writeRegisters_def)
qed

lemma guardOne_frame:
  assumes "rw h = bus" "b \<in> stable" "b \<noteq> a"
  shows "holding (guardOne h a v w) b = holding w b"
proof -
  obtain res err w' where G: "Guard bus a v w = ((res, err), w')" by (metis prod.exhaust)
  show ?thesis using Guard_frame [OF G assms(2,3)] G assms(1) by (simp add: guardOne_def)
qed

lemma readOne_snd_frame: "rw h = bus \<Longrightarrow> readOne (rw h) a w = (r, w') \<Longrightarrow> b \<in> stable \<Longrightarrow> holding w' b = holding w b"
  using readOne_frame(2) by simp

lemma setBoost_frame:
  assumes "rw h = bus" "setBoost h payload w = (r, w')" "b \<in> stable" "b \<notin> {43163..43170}"
  shows "holding w' b = holding w b"
  using assms(2)
proof (cases rule: setBoost_cases)
  case (cleared regs)
  then show ?thesis using writeRegisters_frame [OF assms(1,3)] boost_regs_addrs(1) assms(4) by metis
next
  case (planned mode minutes cur w1 slot regs)
  then show ?thesis
    using writeRegisters_frame [OF assms(1,3)] boost_regs_addrs(1) assms(4)
      readOne_snd_frame [OF assms(1) planned(3) assms(3)] by metis
qed (use readOne_snd_frame [OF assms(1) _ assms(3)] in auto)

lemma setOptimalIncome_frame:
  assumes "rw h = bus" "setOptimalIncome h payload w = (r, w')" "b \<in> stable" "b \<noteq> 43110"
  shows "holding w' b = holding w b"
proof -
  obtain r1 w1 where R: "readOne (rw h) 43110 w = (r1, w1)" by fastforce
  have "holding w1 b = holding w b" by (rule readOne_snd_frame [OF assms(1) R assms(3)])
  then show ?thesis
    using assms(2) R guardOne_frame [OF assms(1,3,4)]
    by (auto simp: setOptimalIncome_def reg_simps Let_def split: option.splits sum.splits)
qed

lemma setCurrent_frame:
  assumes "rw h = bus" "setCurrent conv h a payload w = (r, w')" "b \<in> stable" "b \<noteq> a"
  shows "holding w' b = holding w b"
  using assms(2) guardOne_frame [OF assms(1,3,4)]
  by (auto simp: setCurrent_def split: sum.splits if_splits)

lemma route_frame:
  assumes "rw h = bus" "route conv h key payload w = (r, w')" "b \<in> stable" "b \<notin> command_registers"
  shows "holding w' b = holding w b"
proof -
  have b: "b \<notin> {43163..43170}" "b \<noteq> 43110" "b \<noteq> 43141" "b \<noteq> 43142" "b \<notin> Addr ` set (RTCWriteRegisters t)" for t
    using assms(4) unfolding command_registers_def rtc_regs_addrs by auto
  show ?thesis
    using assms(2) setCurrent_frame [OF assms(1) _ assms(3)] setOptimalIncome_frame [OF assms(1) _ assms(3) b(2)]
      setBoost_frame [OF assms(1) _ assms(3) b(1)] writeRegisters_frame [OF assms(1,3) b(5)] b(3,4)
    by (auto simp: route_def syncRTC_def syncRTCTo_def reg_simps split: if_splits)
qed

end

text \<open>Over a faithful bus the writes of a sequence are the ones of a prefix.\<close>

context faithful_bus
begin

lemma writeRegisters_bank:
  assumes "rw h = bus" "Addr ` set regs \<subseteq> stable"
  shows "\<exists>k \<le> length regs. \<forall>b \<in> stable. holding (snd (writeRegisters h regs w)) b = apply_regs (take k regs) (holding w) b"
proof -
  obtain wr err w' where L: "writeRegisters_loop bus False regs w = ((wr, err), w')" by (metis prod.exhaust)
  show ?thesis using loop_bank [OF L assms(2)] L assms(1) by (auto simp: writeRegisters_def)
qed

lemma guardOne_bank:
  assumes "rw h = bus" "a \<in> stable"
  shows "holding (guardOne h a v w) a = holding w a \<or> holding (guardOne h a v w) a = v"
proof -
  obtain res err w' where G: "Guard bus a v w = ((res, err), w')" by (metis prod.exhaust)
  show ?thesis using Guard_bank(1) [OF G assms(2)] G assms by (auto simp: guardOne_def)
qed

lemma setBoost_bank:
  assumes "rw h = bus" "setBoost h payload w = (r, w')" "{43163..43170} \<subseteq> stable"
  shows "\<exists>k slot regs. TimedSlotWriteRegisters boostSlot slot = Inr regs \<and> \<not> both_set slot \<and>
    (\<forall>b \<in> stable. holding w' b = apply_regs (take k regs) (holding w) b)"
  using assms(2)
proof (cases rule: setBoost_cases)
  case dropped
  obtain regs where "TimedSlotWriteRegisters boostSlot TimedSlot_zero = Inr regs" using boost_regs_ok by blast
  with dropped show ?thesis
    by (intro exI [of _ 0] exI [of _ TimedSlot_zero] exI [of _ regs]) (simp add: both_set_def)
next
  case (refused r1)
  obtain regs where "TimedSlotWriteRegisters boostSlot TimedSlot_zero = Inr regs" using boost_regs_ok by blast
  with readOne_snd_frame [OF assms(1) refused(1)] show ?thesis
    by (intro exI [of _ 0] exI [of _ TimedSlot_zero] exI [of _ regs]) (simp add: both_set_def)
next
  case (cleared regs)
  then obtain k where "\<forall>b \<in> stable. holding w' b = apply_regs (take k regs) (holding w) b"
    using writeRegisters_bank [OF assms(1), of regs w] boost_regs_addrs(1) [OF cleared(1)] assms(3) by auto
  with cleared(1) show ?thesis
    by (intro exI [of _ k] exI [of _ TimedSlot_zero] exI [of _ regs]) (simp add: both_set_def)
next
  case (planned mode minutes cur w1 slot regs)
  then obtain k where k: "\<forall>b \<in> stable. holding w' b = apply_regs (take k regs) (holding w1) b"
    using writeRegisters_bank [OF assms(1), of regs w1] boost_regs_addrs(1) [OF planned(6)] assms(3) by auto
  have "apply_regs (take k regs) (holding w1) b = apply_regs (take k regs) (holding w) b" if "b \<in> stable" for b
    using that by (intro apply_regs_cong [of stable]) (auto intro: readOne_snd_frame [OF assms(1) planned(3)])
  moreover have "\<not> both_set slot"
    using planned(5) by (auto simp: both_set_def slot_opposite_def split: if_splits elim!: PlanBoost_Inr)
  ultimately show ?thesis using k planned(6) by (intro exI [of _ k] exI [of _ slot] exI [of _ regs]) auto
qed

lemma setOptimalIncome_bits:
  assumes "rw h = bus" "setOptimalIncome h payload w = (r, w')" "43110 \<in> stable" "n \<noteq> 1"
  shows "bit (holding w' 43110) n = bit (holding w 43110) n"
proof -
  obtain r1 w1 where R: "readOne (rw h) 43110 w = (r1, w1)" by fastforce
  have h1: "holding w1 43110 = holding w 43110" by (rule readOne_snd_frame [OF assms(1) R assms(3)])
  show ?thesis
  proof (cases "\<exists>on cur. parseRunStop payload = Some on \<and> r1 = Inr cur")
    case True
    then obtain on cur where c: "parseRunStop payload = Some on" "r1 = Inr cur" by blast
    let ?v = "WorkMode_Encode (WithTimed (DecodeWorkMode cur) on)"
    have "w' = guardOne h 43110 ?v w1" using assms(2) c R by (simp add: setOptimalIncome_def reg_simps)
    moreover have "cur = holding w 43110" using readOne_frame(3) R c(2) assms(1,3) by auto
    ultimately show ?thesis
      using guardOne_bank [OF assms(1,3), of ?v w1] h1 assms(4) by (auto simp: bit_WithTimed)
  next
    case False
    then have "w' = w \<or> w' = w1"
      using assms(2) R by (auto simp: setOptimalIncome_def reg_simps split: option.splits sum.splits)
    with h1 show ?thesis by auto
  qed
qed

lemma setCurrent_bounds:
  assumes "rw h = bus" "setCurrent conv h a payload w = (r, w')" "a \<in> stable"
  shows "holding w' a = holding w a \<or> uint (holding w' a) \<le> 625"
proof (cases "\<exists>neg m. ParseFloat (TrimSpace payload) = Inr (Fin neg m)")
  case True
  then obtain neg m where p: "ParseFloat (TrimSpace payload) = Inr (Fin neg m)" by blast
  have "uint (EncodeAmps conv (ClampHAChargeAmps (Fin neg m))) \<le> 625"
    by (rule clamped_uint_bound [OF ParseFloat_nonneg [OF p]])
  with assms p guardOne_bank [OF assms(1,3), of "EncodeAmps conv (ClampHAChargeAmps (Fin neg m))" w] show ?thesis
    by (auto simp: setCurrent_def IsNaN_def IsInf_def)
next
  case False
  then have "w' = w"
    using assms(2) by (auto simp: setCurrent_def IsNaN_def IsInf_def split: sum.splits if_splits float64.splits)
  then show ?thesis by simp
qed

end

text \<open>What a routed command may do to the work mode and to the two currents.\<close>

context faithful_bus
begin

lemma syncRTC_frame:
  assumes "rw h = bus" "syncRTC h w = (r, w')" "b \<in> stable" "b \<notin> {43000..43005}"
  shows "holding w' b = holding w b"
  using assms writeRegisters_frame [OF assms(1,3), of "RTCWriteRegisters (now h w)" w]
  by (auto simp: syncRTC_def syncRTCTo_def rtc_regs_addrs)

lemma route_work_mode:
  assumes "rw h = bus" "route conv h key payload w = (r, w')" "43110 \<in> stable" "n \<noteq> 1"
  shows "bit (holding w' 43110) n = bit (holding w 43110) n"
  using assms(2) setCurrent_frame [OF assms(1) _ assms(3)] setOptimalIncome_bits [OF assms(1) _ assms(3,4)]
    setBoost_frame [OF assms(1) _ assms(3)] syncRTC_frame [OF assms(1) _ assms(3)]
  by (auto simp: route_def reg_simps split: if_splits)

lemma route_current:
  assumes "rw h = bus" "route conv h key payload w = (r, w')" "a \<in> stable" "a = 43141 \<or> a = 43142"
  shows "holding w' a = holding w a \<or> uint (holding w' a) \<le> 625"
proof -
  have other: "holding w' a = holding w a" if "setCurrent conv h a' payload w = (r, w')" "a \<noteq> a'" for a'
    using setCurrent_frame [OF assms(1) that(1) assms(3)] that(2) by simp
  have own: "holding w' a = holding w a \<or> uint (holding w' a) \<le> 625" if "setCurrent conv h a payload w = (r, w')"
    by (rule setCurrent_bounds [OF assms(1) that assms(3)])
  show ?thesis
    using assms(2,4) own other [of 43141] other [of 43142] setOptimalIncome_frame [OF assms(1) _ assms(3)]
      setBoost_frame [OF assms(1) _ assms(3)] syncRTC_frame [OF assms(1) _ assms(3)]
    by (auto simp: route_def reg_simps split: if_splits)
qed

end

lemma OnMessage_cases:
  obtains (dropped) "OnMessage conv h topic payload w = w"
  | (routed) key r w1 where "enabled h" "commandKey topic = Some key" "route conv h key payload w = (r, w1)"
      "OnMessage conv h topic payload w = w1 \<or> (\<exists>f. refresh h = Some f \<and> OnMessage conv h topic payload w = f w1)"
proof (cases "commandKey topic")
  case None
  then show ?thesis by (intro dropped) (simp add: OnMessage_def)
next
  case (Some key)
  obtain r w1 where R: "route conv h key payload w = (r, w1)" by fastforce
  show ?thesis
  proof (cases "enabled h")
    case True
    with Some R show ?thesis by (intro routed [of key r w1]) (auto simp: OnMessage_def split: sum.splits option.splits)
  next
    case False
    with Some show ?thesis by (intro dropped) (simp add: OnMessage_def)
  qed
qed

context live_bus
begin

lemma guardRetry_up:
  assumes "up w" "0 \<le> a" "a < 65536" "a \<in> stable"
  shows "\<exists>wr w'. guardRetry bus a v w = ((wr, None), w') \<and> up w'"
  using Guard_up [OF assms, of v] by (auto simp: guardRetry_def)

lemma loop_up:
  assumes "up w" "Addr ` set regs \<subseteq> stable \<inter> {0..<65536}"
  shows "\<exists>wr w'. writeRegisters_loop bus wrote regs w = ((wr, None), w') \<and> up w'"
  using assms
proof (induction regs arbitrary: wrote w)
  case (Cons r rs)
  obtain wr w1 where A: "guardRetry bus (Addr r) (Value r) w = ((wr, None), w1)" "up w1"
    using guardRetry_up [OF Cons.prems(1), of "Addr r" "Value r"] Cons.prems(2) by auto
  with Cons.IH [OF A(2), of "wrote \<or> wr"] Cons.prems(2) show ?case by (simp add: loop_Cons)
qed simp

lemma setBoost_up:
  assumes "rw h = bus" "up w" "{43110} \<union> {43163..43170} \<subseteq> stable"
    and "ParseBoostOption payload = Some (mode, minutes)" "mode \<noteq> Off" "bit (holding w 43110) 1"
    and "\<And>w. now h w = t" "PlanBoost mode minutes t (tou h) (assertToU h) = Inr slot"
  shows "\<exists>w'. setBoost h payload w = (Inr True, w') \<and> up w' \<and> slot_at (holding w') 2 = slot"
proof -
  obtain w1 where R: "readOne bus 43110 w = (Inr (holding w 43110), w1)" "up w1"
    using readOne_up [OF assms(2), of 43110] assms(3) by auto
  obtain regs where regs: "TimedSlotWriteRegisters boostSlot slot = Inr regs" using boost_regs_ok by blast
  note A = boost_regs_addrs [OF regs]
  have "Addr ` set regs \<subseteq> stable \<inter> {0..<65536}" using A(1) assms(3) by auto
  from loop_up [OF R(2) this, of False] obtain wr w' where L: "writeRegisters_loop bus False regs w1 = ((wr, None), w')" "up w'"
    by blast
  have "\<forall>r \<in> set regs. holding w' (Addr r) = Value r"
    using loop_ok [OF L(1) A(2)] A(1) assms(3) by auto
  then have "slot_at (holding w') 2 = slot" using slot_at_regs(1) regs by (simp add: boostSlot_def)
  moreover have "setBoost h payload w = (Inr True, w')"
    using assms R(1) regs L(1) by (simp add: setBoost_def reg_simps writeRegisters_def)
  ultimately show ?thesis using L(2) by blast
qed

end

section \<open>Topics\<close>

lemma glue_snoc2: "glue sep (pre @ [a, b]) = (if pre = [] then a @ sep # b else glue sep pre @ sep # a @ sep # b)"
  by (induction sep pre rule: glue.induct) auto

lemma Split_snoc: "sep \<notin> set a \<Longrightarrow> Split sep (p @ sep # a) = Split sep p @ [a]"
  by (simp add: Split_append_sep Split_no_sep)

lemma list_snoc2:
  assumes "2 \<le> length xs"
  obtains pre where "xs = pre @ [xs ! (length xs - 2), xs ! (length xs - 1)]"
proof -
  obtain ys b where ys: "xs = ys @ [b]" using assms by (cases xs rule: rev_cases) auto
  then obtain pre a where "ys = pre @ [a]" using assms by (cases ys rule: rev_cases) auto
  with ys show ?thesis by (intro that [of pre]) (simp add: nth_append)
qed

lemma commandKey_Some_iff:
  "commandKey topic = Some key \<longleftrightarrow>
     key \<noteq> [] \<and> CHR ''/'' \<notin> set key \<and> (topic = key @ ''/set'' \<or> (\<exists>prefix. topic = prefix @ ''/'' @ key @ ''/set''))"
proof
  let ?segs = "Split (CHR ''/'') topic"
  assume A: "commandKey topic = Some key"
  then have c: "2 \<le> length ?segs" "?segs ! (length ?segs - 1) = ''set''" "?segs ! (length ?segs - 2) = key" "key \<noteq> []"
    by (auto simp: commandKey_def Let_def split: if_splits)
  obtain pre where pre: "?segs = pre @ [key, ''set'']" using list_snoc2 [OF c(1)] c(2,3) by metis
  have "key \<in> set ?segs" unfolding pre by simp
  then have "CHR ''/'' \<notin> set key" by (rule Split_pieces)
  moreover have "topic = glue (CHR ''/'') (pre @ [key, ''set''])" by (metis glue_Split pre)
  ultimately show "key \<noteq> [] \<and> CHR ''/'' \<notin> set key \<and>
      (topic = key @ ''/set'' \<or> (\<exists>prefix. topic = prefix @ ''/'' @ key @ ''/set''))"
    using c(4) by (auto simp: glue_snoc2 split: if_splits)
next
  assume A: "key \<noteq> [] \<and> CHR ''/'' \<notin> set key \<and>
      (topic = key @ ''/set'' \<or> (\<exists>prefix. topic = prefix @ ''/'' @ key @ ''/set''))"
  then have key: "CHR ''/'' \<notin> set key" by simp
  have "Split (CHR ''/'') topic = [key, ''set''] \<or> (\<exists>pre. Split (CHR ''/'') topic = pre @ [key, ''set''])"
    using A Split_snoc [of "CHR ''/''" "''set''" key] Split_no_sep [OF key]
      Split_snoc [of "CHR ''/''" "''set''" "_ @ CHR ''/'' # key"] Split_snoc [OF key]
    by auto
  with A show "commandKey topic = Some key" by (auto simp: commandKey_def nth_append)
qed

section \<open>Properties\<close>

text \<open>
  C10: the guard of one holding register, over any bus that keeps the contract. It changes no other
  register; it sends at most one write, and none when the register already holds the desired value;
  a result that reports a write means one was taken; and a guard that returns no error leaves the
  register at the desired value, whatever the inverter made of the write.
\<close>

theorem guard_contract:
  assumes "holding_bus bus S holding wear" "Guard bus a v w = ((res, err), w')"
  shows "(\<forall>b \<in> S. b \<noteq> a \<longrightarrow> holding w' b = holding w b) \<and>
    (wear w' = wear w \<or> wear w' = wear w @ [(a, v)]) \<and>
    (a \<in> S \<and> holding w a = v \<longrightarrow> wear w' = wear w) \<and>
    (Wrote res \<longrightarrow> wear w' = wear w @ [(a, v)]) \<and>
    (err = None \<and> a \<in> S \<longrightarrow> holding w' a = v)"
  using holding_bus.Guard_frame [OF assms] holding_bus.Guard_wear [OF assms]
    holding_bus.Guard_ok [OF assms(1), of a v w res w'] assms(2) by blast

theorem guard_contract_witness:
  "\<exists>res err w'. Guard mock_client 43141 250
       \<lparr>transport = \<lparr>mock_regs = [43141 \<mapsto> 250], taken = []\<rparr>, fates = [Answered]\<rparr> = ((res, err), w') \<and>
     mock_wear w' = []"
proof -
  let ?w = "\<lparr>transport = \<lparr>mock_regs = [43141 \<mapsto> 250], taken = []\<rparr>, fates = [Answered]\<rparr>"
  obtain res err w' where G: "Guard mock_client 43141 250 ?w = ((res, err), w')" by (metis prod.exhaust)
  from guard_contract [OF mock.holding_bus_axioms G] G show ?thesis
    by (auto simp: mock_holding_def mock_wear_def)
qed

text \<open>
  C6: a sequence of guarded writes over a bus whose inverter holds what it takes, however many calls
  fail and replies are lost. The bank it leaves is the one after a prefix of the registers, all of
  them when no error is returned, so nothing past the register that failed is touched; and the writes
  it cost are at most one for each register whose value differed, in their order, the retry included.
\<close>

theorem write_registers_contract:
  assumes "faithful_bus bus S holding wear" "rw h = bus"
    and "Addr ` set regs \<subseteq> S" "distinct (map Addr regs)" "writeRegisters h regs w = ((wrote, err), w')"
  shows "(\<exists>k \<le> length regs. (\<forall>b \<in> S. holding w' b = apply_regs (take k regs) (holding w) b) \<and>
      (err = None \<longrightarrow> k = length regs)) \<and>
    (\<exists>frames. wear w' = wear w @ frames \<and>
      subseq frames (map (\<lambda>r. (Addr r, Value r)) (filter (\<lambda>r. holding w (Addr r) \<noteq> Value r) regs)))"
proof -
  have "writeRegisters_loop bus False regs w = ((wrote, err), w')" using assms(2,5) by (simp add: writeRegisters_def)
  with faithful_bus.loop_bank [OF assms(1) this assms(3)] faithful_bus.loop_wear [OF assms(1) this assms(3,4)]
  show ?thesis by blast
qed

theorem write_registers_contract_witness:
  "\<exists>wrote err w'. writeRegisters \<lparr>rw = mock_client, enabled = True, refresh = None, now = \<lambda>_. Time_zero,
        tou = TimedWindow_zero, assertToU = False\<rparr> [\<lparr>Addr = 43141, Value = 5\<rparr>]
       \<lparr>transport = \<lparr>mock_regs = Map.empty, taken = []\<rparr>, fates = [Answered, ReplyLost]\<rparr> = ((wrote, err), w') \<and>
     length (mock_wear w') \<le> 1"
proof -
  let ?h = "\<lparr>rw = mock_client, enabled = True, refresh = None, now = \<lambda>_. Time_zero, tou = TimedWindow_zero, assertToU = False\<rparr>"
    and ?w = "\<lparr>transport = \<lparr>mock_regs = Map.empty, taken = []\<rparr>, fates = [Answered, ReplyLost]\<rparr>"
    and ?regs = "[\<lparr>Addr = 43141, Value = 5\<rparr>]"
  obtain wrote err w' where W: "writeRegisters ?h ?regs ?w = ((wrote, err), w')" by (metis prod.exhaust)
  from write_registers_contract [OF mock.faithful_bus_axioms _ _ _ W] obtain frames
    where f: "mock_wear w' = mock_wear ?w @ frames"
      "subseq frames (map (\<lambda>r. (Addr r, Value r)) (filter (\<lambda>r. mock_holding ?w (Addr r) \<noteq> Value r) ?regs))"
    by auto
  from list_emb_length [OF f(2)] have "length frames \<le> 1" by (simp split: if_splits)
  with f(1) W show ?thesis by (auto simp: mock_wear_def)
qed

text \<open>
  The topic of a command: the key is extracted exactly from a topic whose last two levels are a
  non-empty key and \<open>set\<close>.
\<close>

theorem command_key_exact:
  "commandKey topic = Some key \<longleftrightarrow>
     key \<noteq> [] \<and> CHR ''/'' \<notin> set key \<and> (topic = key @ ''/set'' \<or> (\<exists>prefix. topic = prefix @ ''/'' @ key @ ''/set''))"
  by (rule commandKey_Some_iff)

text \<open>
  C13: what any message can do to the inverter, whatever its topic and payload and whatever fails on
  the way. Registers outside the clock, the work mode, the two currents and the boost slot keep their
  values; of the work mode only bit 1 can change; and a current is left alone or set to at most 62.5 A.
  With controls disabled, or an unroutable topic, nothing happens at all, and no message panics.
\<close>

theorem on_message_confined:
  assumes "faithful_bus bus S holding wear" "rw h = bus"
    and "\<And>f w b. refresh h = Some f \<Longrightarrow> b \<in> S \<Longrightarrow> holding (f w) b = holding w b"
  shows "(\<forall>b \<in> S - command_registers. holding (OnMessage conv h topic payload w) b = holding w b) \<and>
    (43110 \<in> S \<longrightarrow> (\<forall>n. n \<noteq> 1 \<longrightarrow> bit (holding (OnMessage conv h topic payload w) 43110) n = bit (holding w 43110) n)) \<and>
    (\<forall>a \<in> S \<inter> {43141, 43142}. holding (OnMessage conv h topic payload w) a = holding w a \<or>
       uint (holding (OnMessage conv h topic payload w) a) \<le> 625) \<and>
    (\<not> enabled h \<or> commandKey topic = None \<longrightarrow> OnMessage conv h topic payload w = w) \<and>
    (\<forall>key. \<exists>b. fst (route conv h key payload w) = Inr b)"
proof -
  note B = faithful_bus.axioms(1) [OF assms(1)]
  have off: "\<not> enabled h \<or> commandKey topic = None \<longrightarrow> OnMessage conv h topic payload w = w"
    by (auto simp: OnMessage_def split: option.splits)
  have never: "\<forall>key. \<exists>b. fst (route conv h key payload w) = Inr b" by (simp add: route_never_panics)
  show ?thesis
  proof (cases rule: OnMessage_cases [of conv h topic payload w])
    case dropped
    then show ?thesis using never by simp
  next
    case (routed key r w1)
    have eq: "holding (OnMessage conv h topic payload w) b = holding w1 b" if "b \<in> S" for b
      using routed(4) assms(3) that by auto
    show ?thesis
      using eq holding_bus.route_frame [OF B assms(2) routed(3)]
        faithful_bus.route_work_mode [OF assms(1,2) routed(3)] faithful_bus.route_current [OF assms(1,2) routed(3)]
      by (intro conjI off never) auto
  qed
qed

theorem on_message_confined_witness:
  "mock_holding (OnMessage (\<lambda>_. 0) \<lparr>rw = mock_client, enabled = True, refresh = None, now = \<lambda>_. Time_zero,
       tou = TimedWindow_zero, assertToU = False\<rparr> ''solis/set_charge_current/set'' ''999''
       \<lparr>transport = \<lparr>mock_regs = [43117 \<mapsto> 1000], taken = []\<rparr>, fates = [Refused, ReplyLost]\<rparr>) 43117 = 1000"
  using on_message_confined [OF mock.faithful_bus_axioms, of
      "\<lparr>rw = mock_client, enabled = True, refresh = None, now = \<lambda>_. Time_zero, tou = TimedWindow_zero, assertToU = False\<rparr>"
      "\<lambda>_. 0" "''solis/set_charge_current/set''" "''999''"
      "\<lparr>transport = \<lparr>mock_regs = [43117 \<mapsto> 1000], taken = []\<rparr>, fates = [Refused, ReplyLost]\<rparr>"]
  by (auto simp: command_registers_def mock_holding_def [of "\<lparr>transport = _, fates = _\<rparr>"])

text \<open>
  A boost is refused while Optimal Income is off: with bit 1 of the work mode clear, a command that
  asks for a boost writes nothing and leaves every register as it is.
\<close>

theorem boost_needs_timed:
  assumes "holding_bus bus S holding wear" "rw h = bus" "43110 \<in> S" "\<not> bit (holding w 43110) 1"
    and "ParseBoostOption payload = Some (mode, minutes)" "mode \<noteq> Off" "setBoost h payload w = (r, w')"
  shows "r = Inr True \<and> wear w' = wear w \<and> (\<forall>b \<in> S. holding w' b = holding w b)"
proof -
  obtain r1 w1 where R: "readOne bus 43110 w = (r1, w1)" by fastforce
  note F = holding_bus.readOne_frame [OF assms(1) R]
  have "(r, w') = (Inr True, w1)"
    using assms(2-7) R F(3) by (auto simp: setBoost_def reg_simps split: sum.splits)
  then show ?thesis using F(1,2) by auto
qed

theorem boost_needs_timed_witness:
  "\<exists>r w'. setBoost \<lparr>rw = mock_client, enabled = True, refresh = None, now = \<lambda>_. Time_zero,
       tou = TimedWindow_zero, assertToU = False\<rparr> (boostOption ModeCharge 30)
       \<lparr>transport = \<lparr>mock_regs = [43110 \<mapsto> 33], taken = []\<rparr>, fates = []\<rparr> = (r, w') \<and> mock_wear w' = []"
proof -
  let ?h = "\<lparr>rw = mock_client, enabled = True, refresh = None, now = \<lambda>_. Time_zero, tou = TimedWindow_zero, assertToU = False\<rparr>"
    and ?w = "\<lparr>transport = \<lparr>mock_regs = [43110 \<mapsto> 33], taken = []\<rparr>, fates = []\<rparr>"
  obtain r w' where B: "setBoost ?h (boostOption ModeCharge 30) ?w = (r, w')" by fastforce
  have "ParseBoostOption (boostOption ModeCharge 30) = Some (ModeCharge, 30)"
    by (rule ParseBoostOption_candidate) (simp add: boostCandidates_eq)
  from boost_needs_timed [OF mock.holding_bus_axioms _ _ _ this _ B] B show ?thesis
    by (auto simp: mock_holding_def mock_wear_def)
qed

text \<open>
  C12: a boost is programmed: over a bus that is up, with Optimal Income on and a plan the schedule
  accepts, the command ends with the planned slot in the inverter and the select reading as the
  option that was asked for.
\<close>

theorem boost_programmed:
  assumes "live_bus bus S holding wear up" "rw h = bus" "up w" "{43110} \<union> {43163..43170} \<subseteq> S"
    and "(mode, minutes) \<in> set boostCandidates" "bit (holding w 43110) 1" "\<And>w. now h w = t"
    and "PlanBoost mode minutes t (tou h) (assertToU h) = Inr slot"
  shows "\<exists>w'. setBoost h (boostOption mode minutes) w = (Inr True, w') \<and> up w' \<and> slot_at (holding w') 2 = slot \<and>
    BoostSelectState (slots_at (holding w')) = Some (boostOption mode minutes)"
proof -
  have "mode \<noteq> Off" "minutes \<in> set boostDurations" using assms(5) by (auto simp: boostCandidates_def)
  with live_bus.setBoost_up [OF assms(1-4) ParseBoostOption_candidate [OF assms(5)] _ assms(6-8)]
  obtain w' where w': "setBoost h (boostOption mode minutes) w = (Inr True, w')" "up w'" "slot_at (holding w') 2 = slot"
    by blast
  have "Slot2 (slots_at (holding w')) = slot" using w'(3) by (simp add: slots_at_def)
  from BoostSelectState_planned [OF assms(8) this \<open>minutes \<in> set boostDurations\<close>] w' show ?thesis by blast
qed

theorem boost_programmed_witness:
  "\<exists>w'. setBoost \<lparr>rw = mock_client, enabled = True, refresh = None, now = \<lambda>_. \<lparr>t_sec = 36420, t_nsec = 0, t_loc = UTC\<rparr>,
       tou = TimedWindow_zero, assertToU = False\<rparr> (boostOption ModeCharge 45)
       \<lparr>transport = \<lparr>mock_regs = [43110 \<mapsto> 35], taken = []\<rparr>, fates = []\<rparr> = (Inr True, w') \<and>
     BoostSelectState (slots_at (mock_holding w')) = Some (boostOption ModeCharge 45)"
proof -
  let ?now = "\<lparr>t_sec = 36420, t_nsec = 0, t_loc = UTC\<rparr>"
  let ?h = "\<lparr>rw = mock_client, enabled = True, refresh = None, now = \<lambda>_. ?now, tou = TimedWindow_zero, assertToU = False\<rparr>"
    and ?w = "\<lparr>transport = \<lparr>mock_regs = [43110 \<mapsto> 35], taken = []\<rparr>, fates = []\<rparr>"
    and ?slot = "\<lparr>Charge = \<lparr>Start = clockAt 607, End = clockAt 645\<rparr>, Discharge = TimedWindow_zero\<rparr>"
  have "minuteOf ?now = 607"
    by (simp add: minuteOf_def Time_Hour_def Time_Minute_def local_sec_def zone_offset_def UTC_def)
  then have S: "PlanBoost ModeCharge 45 ?now (tou ?h) (assertToU ?h) = Inr ?slot"
    by (simp add: PlanBoost_def boostStep_def minutesPerDay_def)
  have "mock_up ?w" by (simp add: mock_up_def)
  moreover have "bit (mock_holding ?w 43110) 1" by (simp add: mock_holding_def)
  ultimately show ?thesis
    using boost_programmed [OF mock.live_bus_axioms _ _ _ _ _ _ S, of ?w] by (auto simp: boostCandidates_eq)
qed

end
