(* ===== verification/Reconcile.thy ===== *)
theory Reconcile
  imports Handler
begin

text \<open>
  \<open>internal/controls/setpoints.go\<close> and \<open>reconcile.go\<close>: the read of the control state and the reconcile
  that makes the timed slots match the schedule the manager asserts.
\<close>

section \<open>reconcile.go\<close>

text \<open>\<open>have[reg.Addr]\<close>: the map of one slot's registers, zero for a key it does not have.\<close>

definition have_map :: "Register list \<Rightarrow> int \<Rightarrow> u16" where
  "have_map regs addr = (case map_of (map (\<lambda>r. (Addr r, Value r)) (rev regs)) addr of Some v \<Rightarrow> v | None \<Rightarrow> 0)"

definition slotDiff :: "int \<Rightarrow> TimedSlot \<Rightarrow> TimedSlot \<Rightarrow> Register list result" where
  "slotDiff i desired current =
     (case TimedSlotWriteRegisters i current of
        Inl panic \<Rightarrow> Inl panic
      | Inr cur \<Rightarrow>
          (case TimedSlotWriteRegisters i desired of
             Inl panic \<Rightarrow> Inl panic
           | Inr des \<Rightarrow> Inr (filter (\<lambda>reg. Value reg \<noteq> have_map cur (Addr reg)) des)))"

definition scheduleDiff :: "TimedSlots \<Rightarrow> TimedSlots \<Rightarrow> Register list result" where
  "scheduleDiff desired current =
     (case slotDiff 0 (Slot0 desired) (Slot0 current) of
        Inl panic \<Rightarrow> Inl panic
      | Inr d0 \<Rightarrow>
          (case slotDiff 1 (Slot1 desired) (Slot1 current) of
             Inl panic \<Rightarrow> Inl panic
           | Inr d1 \<Rightarrow>
               (case slotDiff 2 (Slot2 desired) (Slot2 current) of
                  Inl panic \<Rightarrow> Inl panic
                | Inr d2 \<Rightarrow> Inr (d0 @ d1 @ d2))))"

definition Reconcile :: "'w Handler \<Rightarrow> TimedSlots \<Rightarrow> 'w \<Rightarrow> (bool \<times> go_error option) \<times> 'w" where
  "Reconcile h slots w =
     (if \<not> enabled h then ((False, None), w)
      else
        (let desired = Desired (tou h) (assertToU h) slots (now h w) in
         case scheduleDiff desired slots of
           Inl panic \<Rightarrow> ((False, Some panic), w)
         | Inr diff \<Rightarrow>
             if length diff = 0 then ((False, None), w) else writeRegisters h diff w))"

section \<open>setpoints.go\<close>

definition setpointBlockCount :: int where "setpointBlockCount = 61"

record Setpoints =
  SetChargeCurrent :: float64
  SetDischargeCurrent :: float64
  MaxChargeCurrent :: float64
  MaxDischargeCurrent :: float64
  OptimalIncome :: bool
  Slots :: TimedSlots

definition ReadSetpoints :: "'w HoldingReadWriter \<Rightarrow> 'w \<Rightarrow> Setpoints result \<times> 'w" where
  "ReadSetpoints bus w =
     (case ReadHolding bus RegWorkMode setpointBlockCount w of
        (Inl err, w) \<Rightarrow> (Inl (Wrap ''read setpoints'' err), w)
      | (Inr regs, w) \<Rightarrow>
          if int (length regs) < setpointBlockCount
          then (Inl (Errorf (''read setpoints: short block, got '' @ fmt_nat (length regs)
                  @ '' registers want '' @ fmt_d setpointBlockCount)), w)
          else
            (let chargeIdx = nat (RegTimedChargeCurrent - RegWorkMode);
                 dischargeIdx = nat (RegTimedDischargeCurrent - RegWorkMode);
                 maxChargeIdx = nat (RegMaxChargeCurrent - RegWorkMode);
                 maxDischargeIdx = nat (RegMaxDischargeCurrent - RegWorkMode)
             in case DecodeTimedSlots [\<lparr>Base = RegWorkMode, Regs = regs\<rparr>] of
                  Inl err \<Rightarrow> (Inl (Wrap ''read setpoints: decode slots'' err), w)
                | Inr slots \<Rightarrow>
                    (Inr \<lparr>SetChargeCurrent = DecodeAmps (regs ! chargeIdx),
                          SetDischargeCurrent = DecodeAmps (regs ! dischargeIdx),
                          MaxChargeCurrent = DecodeAmps (regs ! maxChargeIdx),
                          MaxDischargeCurrent = DecodeAmps (regs ! maxDischargeIdx),
                          OptimalIncome = Timed (DecodeWorkMode (regs ! 0)),
                          Slots = slots\<rparr>, w)))"

section \<open>The registers of a schedule\<close>

definition slot_regs :: "int \<Rightarrow> TimedSlot \<Rightarrow> Register list" where
  "slot_regs i slot = (case TimedSlotWriteRegisters i slot of Inr regs \<Rightarrow> regs | Inl _ \<Rightarrow> [])"

definition schedule_regs :: "TimedSlots \<Rightarrow> Register list" where
  "schedule_regs d = slot_regs 0 (Slot0 d) @ slot_regs 1 (Slot1 d) @ slot_regs 2 (Slot2 d)"

definition slot_addrs :: "int set" where
  "slot_addrs = {43143..43150} \<union> {43153..43160} \<union> {43163..43170}"

lemma slot_regs_eq: "i \<in> {0, 1, 2} \<Longrightarrow> TimedSlotWriteRegisters i slot = Inr (slot_regs i slot)"
  using TimedSlotWriteRegisters_ok [of i slot] by (auto simp: slot_regs_def elim!: is_okE)

lemma slot_regs_addrs:
  assumes "i \<in> {0, 1, 2}"
  shows "distinct (map Addr (slot_regs i slot))" "Addr ` set (slot_regs i slot) = {43143 + 10 * i .. 43150 + 10 * i}"
  using TimedSlotWriteRegisters_addrs [OF slot_regs_eq [OF assms, of slot]]
  by (simp_all add: timedSlotBase_def reg_simps)

lemma schedule_regs_addrs: "distinct (map Addr (schedule_regs d))" "Addr ` set (schedule_regs d) = slot_addrs"
proof -
  show "Addr ` set (schedule_regs d) = slot_addrs"
    by (simp add: schedule_regs_def image_Un slot_regs_addrs slot_addrs_def Un_assoc)
  show "distinct (map Addr (schedule_regs d))"
    using slot_regs_addrs(1) [of 0] slot_regs_addrs(1) [of 1] slot_regs_addrs(1) [of 2]
      slot_regs_addrs(2) [of 0 "Slot0 d"] slot_regs_addrs(2) [of 1 "Slot1 d"] slot_regs_addrs(2) [of 2 "Slot2 d"]
    by (auto simp: schedule_regs_def)
qed

text \<open>The expansion of the slots a bank holds gives the bank's words back.\<close>

lemma have_map_bank:
  assumes "i \<in> {0, 1, 2}" "slot_ok bk i" "a \<in> {43143 + 10 * i .. 43150 + 10 * i}"
  shows "have_map (slot_regs i (slot_at bk i)) a = bk a"
proof -
  let ?regs = "slot_regs i (slot_at bk i)"
  note A = slot_regs_addrs [OF assms(1), of "slot_at bk i"]
  have "a \<in> Addr ` set ?regs" unfolding A(2) by (rule assms(3))
  then obtain r where r: "r \<in> set ?regs" "Addr r = a" by (rule imageE) simp
  have "map fst (map (\<lambda>r. (Addr r, Value r)) (rev ?regs)) = rev (map Addr ?regs)" by (simp add: comp_def rev_map)
  then have "distinct (map fst (map (\<lambda>r. (Addr r, Value r)) (rev ?regs)))" using A(1) by simp
  moreover have "(Addr r, Value r) \<in> (\<lambda>r. (Addr r, Value r)) ` set ?regs" using r(1) by (rule imageI)
  then have "(a, Value r) \<in> set (map (\<lambda>r. (Addr r, Value r)) (rev ?regs))" by (simp add: r(2))
  ultimately have "map_of (map (\<lambda>r. (Addr r, Value r)) (rev ?regs)) a = Some (Value r)"
    by (rule map_of_is_SomeI)
  moreover have "bk a = Value r"
    using slot_regs_at [OF assms(2) slot_regs_eq [OF assms(1)] r(1)] r(2) by simp
  ultimately show ?thesis by (simp add: have_map_def)
qed

lemma slotDiff_bank:
  assumes "i \<in> {0, 1, 2}" "slot_ok bk i"
  shows "slotDiff i d (slot_at bk i) = Inr (filter (\<lambda>r. bk (Addr r) \<noteq> Value r) (slot_regs i d))"
proof -
  have "have_map (slot_regs i (slot_at bk i)) (Addr r) = bk (Addr r)" if "r \<in> set (slot_regs i d)" for r
    using have_map_bank [OF assms] slot_regs_addrs(2) [OF assms(1), of d] that by blast
  then show ?thesis
    using slot_regs_eq [OF assms(1)] by (auto simp: slotDiff_def intro!: filter_cong)
qed

lemma scheduleDiff_bank:
  assumes "slots_ok bk"
  shows "scheduleDiff d (slots_at bk) = Inr (filter (\<lambda>r. bk (Addr r) \<noteq> Value r) (schedule_regs d))"
  using assms by (simp add: scheduleDiff_def slots_ok_def slots_at_def slotDiff_bank schedule_regs_def)

lemma schedule_held:
  assumes "\<forall>r \<in> set (schedule_regs d). bk (Addr r) = Value r"
  shows "slots_at bk = d" "valid_slots d \<Longrightarrow> slots_ok bk"
proof -
  have "\<forall>r \<in> set (slot_regs 0 (Slot0 d)). bk (Addr r) = Value r" "\<forall>r \<in> set (slot_regs 1 (Slot1 d)). bk (Addr r) = Value r"
    "\<forall>r \<in> set (slot_regs 2 (Slot2 d)). bk (Addr r) = Value r"
    using assms by (auto simp: schedule_regs_def)
  note H = this [THEN slot_at_regs(1) [OF slot_regs_eq, rotated]] this [THEN slot_at_regs(2) [OF slot_regs_eq, rotated]]
  show "slots_at bk = d" using H by (simp add: slots_at_def)
  show "valid_slots d \<Longrightarrow> slots_ok bk" using H by (simp add: slots_ok_def valid_slots_def)
qed

lemma schedule_regs_at:
  assumes "slots_ok bk" "r \<in> set (schedule_regs (slots_at bk))"
  shows "bk (Addr r) = Value r"
  using assms slot_regs_at [OF _ slot_regs_eq]
  by (auto simp: schedule_regs_def slots_at_def slots_ok_def)

text \<open>Writing only the registers that differ passes through the same banks as writing all.\<close>

lemma apply_filter:
  assumes "distinct (map Addr regs)"
  shows "\<exists>j. apply_regs (take k (filter (\<lambda>r. bk (Addr r) \<noteq> Value r) regs)) bk = apply_regs (take j regs) bk"
  using assms
proof (induction regs arbitrary: bk k)
  case (Cons r rs)
  show ?case
  proof (cases "bk (Addr r) = Value r")
    case True
    obtain j where "apply_regs (take k (filter (\<lambda>r. bk (Addr r) \<noteq> Value r) rs)) bk = apply_regs (take j rs) bk"
      using Cons.IH [of k bk] Cons.prems by auto
    with True show ?thesis by (intro exI [of _ "Suc j"]) (simp add: fun_upd_idem)
  next
    case False
    show ?thesis
    proof (cases k)
      case 0
      then show ?thesis by (intro exI [of _ 0]) simp
    next
      case (Suc m)
      let ?bk = "bk(Addr r := Value r)"
      have "filter (\<lambda>s. bk (Addr s) \<noteq> Value s) rs = filter (\<lambda>s. ?bk (Addr s) \<noteq> Value s) rs"
        using Cons.prems by (intro filter_cong) (auto simp: image_iff)
      moreover have "distinct (map Addr rs)" using Cons.prems by simp
      from Cons.IH [OF this, of m ?bk]
      obtain j where "apply_regs (take m (filter (\<lambda>s. ?bk (Addr s) \<noteq> Value s) rs)) ?bk = apply_regs (take j rs) ?bk" ..
      ultimately show ?thesis using False Suc by (intro exI [of _ "Suc j"]) simp
    qed
  qed
qed simp

section \<open>Slots that never set both directions\<close>

lemma slot_at_other:
  assumes "i \<in> {0, 1, 2}" "Addr ` set rs \<inter> {43143 + 10 * i .. 43150 + 10 * i} = {}"
  shows "slot_at (apply_regs rs bk) i = slot_at bk i"
  by (rule slot_at_cong(1), rule apply_regs_other) (use assms in \<open>auto simp: timedSlotBase_def reg_simps\<close>)

lemma take_addrs: "Addr ` set (take k rs) \<subseteq> Addr ` set rs"
  by (intro image_mono set_take_subset)

text \<open>The slot of a schedule at one position of the array.\<close>

definition nth_slot :: "TimedSlots \<Rightarrow> int \<Rightarrow> TimedSlot" where
  "nth_slot d i = (if i = 0 then Slot0 d else if i = 1 then Slot1 d else Slot2 d)"

text \<open>Writes of the registers of the other slots, cut off anywhere, come in front of those of a slot or behind them.\<close>

lemma slot_regs_other:
  assumes "i \<in> {0, 1, 2}" "j \<in> {0, 1, 2}" "j \<noteq> i" "a \<in> {43143 + 10 * i .. 43150 + 10 * i}"
  shows "apply_regs (take m (slot_regs j (nth_slot d j))) bk a = bk a"
proof (rule apply_regs_other)
  have "Addr ` set (take m (slot_regs j (nth_slot d j))) \<subseteq> {43143 + 10 * j .. 43150 + 10 * j}"
    using take_addrs [of m "slot_regs j (nth_slot d j)"] slot_regs_addrs(2) [OF assms(2), of "nth_slot d j"] by simp
  then show "a \<notin> Addr ` set (take m (slot_regs j (nth_slot d j)))" using assms by auto
qed

lemma slot_at_bank:
  assumes "i \<in> {0, 1, 2}" "\<And>a. a \<in> {43143 + 10 * i .. 43150 + 10 * i} \<Longrightarrow> bk a = bk' a"
  shows "slot_at (apply_regs rs bk) i = slot_at (apply_regs rs bk') i" "slot_at bk i = slot_at bk' i"
proof -
  show "slot_at (apply_regs rs bk) i = slot_at (apply_regs rs bk') i"
    using assms by (intro slot_at_cong(1) apply_regs_cong [of "{43143 + 10 * i .. 43150 + 10 * i}"]) (auto simp: timedSlotBase_def reg_simps)
  show "slot_at bk i = slot_at bk' i"
    using assms by (intro slot_at_cong(1)) (auto simp: timedSlotBase_def reg_simps)
qed

lemma schedule_write_transient:
  assumes "i \<in> {0, 1, 2}" "\<not> both_set (slot_at bk i)" "\<not> both_set (nth_slot d i)"
  shows "\<not> both_set (slot_at (apply_regs (take k (schedule_regs d)) bk) i)"
proof -
  let ?r = "\<lambda>j. slot_regs j (nth_slot d j)"
  have split: "take k (schedule_regs d) = take k (?r 0) @ take (k - length (?r 0)) (?r 1)
      @ take (k - length (?r 0) - length (?r 1)) (?r 2)"
    by (simp add: schedule_regs_def nth_slot_def)
  have other: "slot_at (apply_regs rs (apply_regs (take m (?r j)) bk')) i = slot_at (apply_regs rs bk') i"
      "slot_at (apply_regs (take m (?r j)) bk') i = slot_at bk' i" if "j \<in> {0, 1, 2} - {i}" for j m rs bk'
    using that slot_regs_other [OF assms(1)] by (intro slot_at_bank [OF assms(1)]; simp)+
  have own: "\<not> both_set (slot_at (apply_regs (take m (?r i)) bk) i)" for m
    by (rule slot_write_transient [OF slot_regs_eq [OF assms(1)] assms(2,3)])
  from assms(1) consider "i = 0" | "i = 1" | "i = 2" by auto
  then show ?thesis
    unfolding split apply_regs_append by cases (use own other in simp_all)
qed

lemma Desired_not_both:
  assumes "\<not> both_set (nth_slot slots i)" "i \<in> {0, 1, 2}"
  shows "\<not> both_set (nth_slot (Desired t a slots moment) i)"
  using assms
  by (auto simp: nth_slot_def Desired_eq both_set_def running_eq ToUSlots_def Let_def split: if_splits)

section \<open>Reconciling\<close>

lemma Reconcile_unfold:
  assumes "slots_ok bk" "enabled h"
  shows "Reconcile h (slots_at bk) w =
    (let diff = filter (\<lambda>r. bk (Addr r) \<noteq> Value r)
       (schedule_regs (Desired (tou h) (assertToU h) (slots_at bk) (now h w)))
     in if diff = [] then ((False, None), w) else writeRegisters h diff w)"
  using assms(2) scheduleDiff_bank [OF assms(1)] by (simp add: Reconcile_def Let_def)

lemma diff_addrs:
  "Addr ` set (filter P (schedule_regs d)) \<subseteq> slot_addrs" "distinct (map Addr (filter P (schedule_regs d)))"
  using schedule_regs_addrs [of d] by (auto simp: distinct_map_filter)

context holding_bus
begin

lemma Reconcile_frame:
  assumes "rw h = bus" "slots_ok (holding w)" "b \<in> stable" "b \<notin> slot_addrs"
  shows "holding (snd (Reconcile h (slots_at (holding w)) w)) b = holding w b"
proof (cases "enabled h")
  case True
  have "b \<notin> Addr ` set (filter P (schedule_regs d))" for P d using diff_addrs(1) assms(4) by blast
  then show ?thesis
    using writeRegisters_frame [OF assms(1,3)] by (simp add: Reconcile_unfold [OF assms(2) True] Let_def)
next
  case False
  then show ?thesis by (simp add: Reconcile_def)
qed

lemma Reconcile_ok:
  assumes "rw h = bus" "slots_ok (holding w)" "enabled h" "slot_addrs \<subseteq> stable"
    and "Reconcile h (slots_at (holding w)) w = ((wr, None), w')"
    and "r \<in> set (schedule_regs (Desired (tou h) (assertToU h) (slots_at (holding w)) (now h w)))"
  shows "holding w' (Addr r) = Value r"
proof -
  define regs where "regs = schedule_regs (Desired (tou h) (assertToU h) (slots_at (holding w)) (now h w))"
  define diff where "diff = filter (\<lambda>r. holding w (Addr r) \<noteq> Value r) regs"
  have U: "Reconcile h (slots_at (holding w)) w = (if diff = [] then ((False, None), w) else writeRegisters h diff w)"
    using Reconcile_unfold [OF assms(2,3)] by (simp add: Let_def diff_def regs_def)
  have st: "Addr ` set diff \<subseteq> stable" "distinct (map Addr diff)" and r: "Addr r \<in> stable" "r \<in> set regs"
    using diff_addrs assms(4,6) schedule_regs_addrs(2) by (auto simp: diff_def regs_def) blast+
  show ?thesis
  proof (cases "diff = []")
    case True
    with U assms(5) have "w' = w" by simp
    moreover have "holding w (Addr r) = Value r" using True r(2) by (auto simp: diff_def filter_empty_conv)
    ultimately show ?thesis by simp
  next
    case False
    with U assms(1,5) have L: "writeRegisters_loop bus False diff w = ((wr, None), w')"
      by (simp add: writeRegisters_def)
    show ?thesis
    proof (cases "r \<in> set diff")
      case True
      then show ?thesis by (rule loop_ok [OF L st(2,1)])
    next
      case no: False
      then have "holding w (Addr r) = Value r" using r(2) by (auto simp: diff_def)
      moreover have "Addr r \<notin> Addr ` set diff"
      proof
        assume "Addr r \<in> Addr ` set diff"
        then obtain q where "q \<in> set diff" "Addr q = Addr r" by auto
        moreover have "inj_on Addr (set regs)" using schedule_regs_addrs(1) by (simp add: regs_def distinct_map)
        ultimately have "q = r" using r(2) by (auto simp: diff_def inj_on_def)
        with \<open>q \<in> set diff\<close> no show False by simp
      qed
      ultimately show ?thesis using loop_frame [OF L r(1)] by simp
    qed
  qed
qed

end

context faithful_bus
begin

lemma Reconcile_bank:
  assumes "rw h = bus" "slots_ok (holding w)" "slot_addrs \<subseteq> stable"
  shows "\<exists>k. \<forall>b \<in> stable. holding (snd (Reconcile h (slots_at (holding w)) w)) b =
    apply_regs (take k (schedule_regs (Desired (tou h) (assertToU h) (slots_at (holding w)) (now h w)))) (holding w) b"
proof (cases "enabled h")
  case True
  let ?regs = "schedule_regs (Desired (tou h) (assertToU h) (slots_at (holding w)) (now h w))"
  let ?diff = "filter (\<lambda>r. holding w (Addr r) \<noteq> Value r) ?regs"
  have "Addr ` set ?diff \<subseteq> stable" using diff_addrs(1) assms(3) by (rule subset_trans)
  from writeRegisters_bank [OF assms(1) this, of w] obtain k where
    k: "\<forall>b \<in> stable. holding (snd (writeRegisters h ?diff w)) b = apply_regs (take k ?diff) (holding w) b" by blast
  obtain j where j: "apply_regs (take k ?diff) (holding w) = apply_regs (take j ?regs) (holding w)"
    using apply_filter [OF schedule_regs_addrs(1)] by blast
  show ?thesis
  proof (cases "?diff = []")
    case empty: True
    then have "snd (Reconcile h (slots_at (holding w)) w) = w" using Reconcile_unfold [OF assms(2) True] by (simp add: Let_def)
    then show ?thesis by (intro exI [of _ 0]) simp
  next
    case False
    then have "snd (Reconcile h (slots_at (holding w)) w) = snd (writeRegisters h ?diff w)"
      using Reconcile_unfold [OF assms(2) True] by (simp add: Let_def)
    then show ?thesis using k j by (intro exI [of _ j]) simp
  qed
next
  case False
  then show ?thesis by (intro exI [of _ 0]) (simp add: Reconcile_def)
qed

end

section \<open>Reading the control state\<close>

context holding_bus
begin

lemma ReadSetpoints_bank:
  assumes "ReadSetpoints bus w = (Inr sp, w')" "{43110..43170} \<subseteq> stable"
  shows "slots_ok (holding w)"
    "sp = \<lparr>SetChargeCurrent = DecodeAmps (holding w 43141), SetDischargeCurrent = DecodeAmps (holding w 43142),
           MaxChargeCurrent = DecodeAmps (holding w 43117), MaxDischargeCurrent = DecodeAmps (holding w 43118),
           OptimalIncome = bit (holding w 43110) 1, Slots = slots_at (holding w)\<rparr>"
    "wear w' = wear w" "b \<in> stable \<Longrightarrow> holding w' b = holding w b"
proof -
  obtain r w1 where R: "ReadHolding bus 43110 61 w = (r, w1)" by fastforce
  obtain regs where regs: "r = Inr regs" "61 \<le> length regs" "w' = w1"
    using assms(1) R
    by (auto simp: ReadSetpoints_def reg_simps setpointBlockCount_def Let_def split: sum.splits if_splits)
  have len: "length regs = 61" using regs(2) read_length [OF R [unfolded regs(1)]] by simp
  have w: "regs ! i = holding w (43110 + int i)" if "i < 61" for i
  proof -
    have "43110 + int i \<in> {43110..43170}" using that by simp
    then have "43110 + int i \<in> stable" using assms(2) by (rule rev_subsetD)
    then show ?thesis using read_words [OF R [unfolded regs(1)], of i] len that by simp
  qed
  have B: "regs = bank_read (holding w) 43110 61"
    by (rule nth_equalityI) (simp_all add: bank_read_def len w)
  have D: "DecodeTimedSlots [\<lparr>Base = 43110, Regs = regs\<rparr>] = Inr s \<longleftrightarrow> slots_ok (holding w) \<and> s = slots_at (holding w)" for s
    using DecodeTimedSlots_bank [of 43110 61 "holding w" s] by (simp add: bank_block_def B)
  have "\<exists>s. DecodeTimedSlots [\<lparr>Base = 43110, Regs = regs\<rparr>] = Inr s"
    using assms(1) R regs len
    by (auto simp: ReadSetpoints_def reg_simps setpointBlockCount_def Let_def split: sum.splits)
  then show ok: "slots_ok (holding w)" using D by blast
  then have D': "DecodeTimedSlots [\<lparr>Base = 43110, Regs = regs\<rparr>] = Inr (slots_at (holding w))" using D by blast
  show "sp = \<lparr>SetChargeCurrent = DecodeAmps (holding w 43141), SetDischargeCurrent = DecodeAmps (holding w 43142),
           MaxChargeCurrent = DecodeAmps (holding w 43117), MaxDischargeCurrent = DecodeAmps (holding w 43118),
           OptimalIncome = bit (holding w 43110) 1, Slots = slots_at (holding w)\<rparr>"
    using assms(1) R regs(1) len D' w [of 0] w [of 31] w [of 32] w [of 7] w [of 8]
    by (simp add: ReadSetpoints_def reg_simps setpointBlockCount_def)
  show "wear w' = wear w" "b \<in> stable \<Longrightarrow> holding w' b = holding w b"
    using read_wear [OF R] read_frame [OF R] regs(3) by auto
qed

end

section \<open>Properties\<close>

text \<open>
  C30: the setpoints read in one block are the control state of the inverter: the currents, their
  ceilings, the timed bit and the slots are those the holding bank stands for, and the read leaves
  the inverter alone.
\<close>

theorem read_setpoints_faithful:
  assumes "holding_bus bus S holding wear" "{43110..43170} \<subseteq> S" "ReadSetpoints bus w = (Inr sp, w')"
  shows "slots_ok (holding w) \<and>
    sp = \<lparr>SetChargeCurrent = DecodeAmps (holding w 43141), SetDischargeCurrent = DecodeAmps (holding w 43142),
          MaxChargeCurrent = DecodeAmps (holding w 43117), MaxDischargeCurrent = DecodeAmps (holding w 43118),
          OptimalIncome = bit (holding w 43110) 1, Slots = slots_at (holding w)\<rparr> \<and>
    wear w' = wear w \<and> (\<forall>b \<in> S. holding w' b = holding w b)"
  using holding_bus.ReadSetpoints_bank [OF assms(1,3,2)] by blast

lemma mock_ReadSetpoints:
  fixes w :: mock_world
  assumes "mock_up w" "slots_ok (mock_holding w)"
  shows "\<exists>sp. ReadSetpoints mock_client w = (Inr sp, w)"
proof -
  let ?regs = "map of_int (mock_read 43110 61 (transport w)) :: u16 list"
  have R: "Client_ReadHolding mock_http 43110 61 w = (Inr ?regs, w)" by (rule mock_read_up [OF assms(1)]) simp_all
  have "?regs = bank_read (mock_holding w) 43110 61" by (simp add: mock_read_def bank_read_def mock_holding_def)
  then have D: "DecodeTimedSlots [\<lparr>Base = 43110, Regs = ?regs\<rparr>] = Inr (slots_at (mock_holding w))"
    using DecodeTimedSlots_bank [of 43110 61 "mock_holding w" "slots_at (mock_holding w)"] assms(2) by (simp add: bank_block_def)
  have "length ?regs = 61" by (simp add: mock_read_def)
  with R D show ?thesis by (simp add: ReadSetpoints_def reg_simps setpointBlockCount_def Let_def)
qed

theorem read_setpoints_faithful_witness:
  "\<exists>sp w'. ReadSetpoints mock_client \<lparr>transport = \<lparr>mock_regs = [43110 \<mapsto> 35, 43141 \<mapsto> 250], taken = []\<rparr>, fates = []\<rparr>
       = (Inr sp, w') \<and> SetChargeCurrent sp = DecodeAmps 250 \<and> OptimalIncome sp"
proof -
  let ?w = "\<lparr>transport = \<lparr>mock_regs = [43110 \<mapsto> 35, 43141 \<mapsto> 250], taken = []\<rparr>, fates = []\<rparr>"
  have "mock_up ?w" "slots_ok (mock_holding ?w)"
    by (simp_all add: mock_up_def slots_ok_def slot_ok_def window_ok_def mock_holding_def offset_defs)
  from mock_ReadSetpoints [OF this] obtain sp where R: "ReadSetpoints mock_client ?w = (Inr sp, ?w)" by blast
  from read_setpoints_faithful [OF mock.holding_bus_axioms _ R] R show ?thesis by (simp add: mock_holding_def)
qed

text \<open>
  C7: a reconcile that reports no error has converged: the slots in the inverter are the schedule the
  manager asserts, the registers outside the slots are untouched, and a reconcile of those slots at
  the same time returns at once without a single frame on the bus.
\<close>

theorem reconcile_converges:
  assumes "holding_bus bus S holding wear" "rw h = bus" "enabled h" "slot_addrs \<subseteq> S" "slots_ok (holding w)"
    and "valid_window (tou h)" "Start (tou h) \<noteq> End (tou h) \<or> IsZero (tou h)" "\<And>w. now h w = t"
    and "Reconcile h (slots_at (holding w)) w = ((wrote, None), w')"
  shows "slots_ok (holding w') \<and> slots_at (holding w') = Desired (tou h) (assertToU h) (slots_at (holding w)) t \<and>
    (\<forall>b \<in> S - slot_addrs. holding w' b = holding w b) \<and>
    Reconcile h (slots_at (holding w')) w' = ((False, None), w')"
proof -
  let ?d = "Desired (tou h) (assertToU h) (slots_at (holding w)) t"
  have "\<forall>r \<in> set (schedule_regs ?d). holding w' (Addr r) = Value r"
    using holding_bus.Reconcile_ok [OF assms(1,2,5,3,4,9)] assms(8) by simp
  note H = schedule_held [OF this]
  have "valid_slots ?d" using Desired_valid [OF slots_at_valid [OF assms(5)] assms(6,7)] .
  then have ok: "slots_ok (holding w')" by (rule H(2))
  have "Desired (tou h) (assertToU h) ?d (now h w') = ?d" using assms(8) by (simp add: Desired_idem)
  then have "filter (\<lambda>r. holding w' (Addr r) \<noteq> Value r)
      (schedule_regs (Desired (tou h) (assertToU h) (slots_at (holding w')) (now h w'))) = []"
    using schedule_regs_at [OF ok] H(1) by (auto simp: filter_empty_conv)
  then have "Reconcile h (slots_at (holding w')) w' = ((False, None), w')"
    using Reconcile_unfold [OF ok assms(3)] by (simp add: Let_def)
  moreover have "\<forall>b \<in> S - slot_addrs. holding w' b = holding w b"
    using holding_bus.Reconcile_frame [OF assms(1,2,5)] assms(9) by auto
  ultimately show ?thesis using ok H(1) by simp
qed

theorem reconcile_converges_witness:
  "\<exists>wrote w'. Reconcile \<lparr>rw = mock_client, enabled = True, refresh = None, now = \<lambda>_. Time_zero,
       tou = \<lparr>Start = \<lparr>Hour = 23, Minute = 30\<rparr>, End = \<lparr>Hour = 5, Minute = 30\<rparr>\<rparr>, assertToU = True\<rparr>
     (slots_at (\<lambda>_. 0)) \<lparr>transport = \<lparr>mock_regs = Map.empty, taken = []\<rparr>, fates = []\<rparr> = ((wrote, None), w') \<and>
     ToU (slots_at (mock_holding w')) = Some \<lparr>Start = \<lparr>Hour = 23, Minute = 30\<rparr>, End = \<lparr>Hour = 5, Minute = 30\<rparr>\<rparr>"
proof -
  let ?tou = "\<lparr>Start = \<lparr>Hour = 23, Minute = 30\<rparr>, End = \<lparr>Hour = 5, Minute = 30\<rparr>\<rparr>"
  let ?h = "\<lparr>rw = mock_client, enabled = True, refresh = None, now = \<lambda>_. Time_zero, tou = ?tou, assertToU = True\<rparr>"
    and ?w = "\<lparr>transport = \<lparr>mock_regs = Map.empty, taken = []\<rparr>, fates = []\<rparr>"
  have hw: "mock_holding ?w = (\<lambda>_. 0)" by (auto simp: mock_holding_def)
  have ok: "slots_ok (mock_holding ?w)" by (simp add: hw slots_ok_def slot_ok_def window_ok_def)
  have v: "valid_window ?tou" by (simp add: valid_window_def valid_clock_def maxHour_def maxMinute_def)
  have up: "mock_up ?w" by (simp add: mock_up_def)
  let ?diff = "filter (\<lambda>r. mock_holding ?w (Addr r) \<noteq> Value r)
      (schedule_regs (Desired (tou ?h) (assertToU ?h) (slots_at (mock_holding ?w)) (now ?h ?w)))"
  have "Addr ` set ?diff \<subseteq> UNIV \<inter> {0..<65536}"
    using diff_addrs(1) by (rule subset_trans) (auto simp: slot_addrs_def)
  from mock.loop_up [OF up this, of False] obtain wrote w' where
    "writeRegisters_loop mock_client False ?diff ?w = ((wrote, None), w')" by blast
  then have "\<exists>wrote w'. Reconcile ?h (slots_at (mock_holding ?w)) ?w = ((wrote, None), w')"
    using Reconcile_unfold [OF ok, of ?h ?w] by (auto simp: Let_def writeRegisters_def)
  then obtain wrote w' where R: "Reconcile ?h (slots_at (mock_holding ?w)) ?w = ((wrote, None), w')" by blast
  have "slots_at (mock_holding w') = Desired ?tou True (slots_at (mock_holding ?w)) Time_zero"
    using reconcile_converges [OF mock.holding_bus_axioms _ _ _ ok _ _ _ R, of Time_zero] v by simp
  moreover have "ToU (Desired ?tou True (slots_at (mock_holding ?w)) Time_zero) = Some ?tou"
    using ToU_ToUSlots [OF v, of "Desired ?tou True (slots_at (mock_holding ?w)) Time_zero"] by (simp add: Desired_eq IsZero_def)
  ultimately show ?thesis using R by (auto simp: hw)
qed

text \<open>
  C15: what a reconcile costs in flash wear, failures and retries included: at most one write for each
  slot register whose desired value differs, in order; and nothing at all, not even a read, when the
  slots already are the schedule the manager asserts.
\<close>

theorem reconcile_cost:
  assumes "faithful_bus bus S holding wear" "rw h = bus" "slot_addrs \<subseteq> S" "slots_ok (holding w)"
  shows "(\<exists>frames. wear (snd (Reconcile h (slots_at (holding w)) w)) = wear w @ frames \<and>
      subseq frames (map (\<lambda>r. (Addr r, Value r)) (filter (\<lambda>r. holding w (Addr r) \<noteq> Value r)
        (schedule_regs (Desired (tou h) (assertToU h) (slots_at (holding w)) (now h w)))))) \<and>
    (Desired (tou h) (assertToU h) (slots_at (holding w)) (now h w) = slots_at (holding w) \<longrightarrow>
      Reconcile h (slots_at (holding w)) w = ((False, None), w))"
proof (cases "enabled h")
  case True
  let ?regs = "schedule_regs (Desired (tou h) (assertToU h) (slots_at (holding w)) (now h w))"
  let ?diff = "filter (\<lambda>r. holding w (Addr r) \<noteq> Value r) ?regs"
  have U: "Reconcile h (slots_at (holding w)) w = (if ?diff = [] then ((False, None), w) else writeRegisters h ?diff w)"
    using Reconcile_unfold [OF assms(4) True] by (simp add: Let_def)
  have "Addr ` set ?diff \<subseteq> S" using diff_addrs(1) assms(3) by (rule subset_trans)
  moreover obtain wr err w' where L: "writeRegisters_loop bus False ?diff w = ((wr, err), w')" by (metis prod.exhaust)
  ultimately obtain frames where "wear w' = wear w @ frames" "subseq frames (map (\<lambda>r. (Addr r, Value r)) ?diff)"
    using faithful_bus.loop_wear [OF assms(1) L _ diff_addrs(2)] by auto
  moreover have "?diff = []" if "Desired (tou h) (assertToU h) (slots_at (holding w)) (now h w) = slots_at (holding w)"
    using that schedule_regs_at [OF assms(4)] by (auto simp: filter_empty_conv)
  ultimately show ?thesis using U L assms(2) by (auto simp: writeRegisters_def)
next
  case False
  then show ?thesis by (simp add: Reconcile_def)
qed

theorem reconcile_cost_witness:
  "Reconcile \<lparr>rw = mock_client, enabled = True, refresh = None, now = \<lambda>_. Time_zero, tou = TimedWindow_zero,
       assertToU = False\<rparr> (slots_at (\<lambda>_. 0)) \<lparr>transport = \<lparr>mock_regs = Map.empty, taken = []\<rparr>, fates = [Refused]\<rparr> =
     ((False, None), \<lparr>transport = \<lparr>mock_regs = Map.empty, taken = []\<rparr>, fates = [Refused]\<rparr>)"
proof -
  let ?h = "\<lparr>rw = mock_client, enabled = True, refresh = None, now = \<lambda>_. Time_zero, tou = TimedWindow_zero, assertToU = False\<rparr>"
    and ?w = "\<lparr>transport = \<lparr>mock_regs = Map.empty, taken = []\<rparr>, fates = [Refused]\<rparr>"
  have hw: "mock_holding ?w = (\<lambda>_. 0)" by (auto simp: mock_holding_def)
  have ok: "slots_ok (mock_holding ?w)" by (simp add: hw slots_ok_def slot_ok_def window_ok_def)
  have "Desired TimedWindow_zero False (slots_at (\<lambda>_. 0)) Time_zero = slots_at (\<lambda>_. 0)"
    by (simp add: Desired_eq running_eq slots_at_def slot_at_def window_at_def)
  with reconcile_cost [OF mock.faithful_bus_axioms, of ?h ?w] ok show ?thesis unfolding hw by simp
qed

text \<open>
  The life of the inverter under the manager: messages, reconciles of the slots it holds, clock syncs
  and anything else that leaves the registers in \<open>S\<close> alone (polls, the passing of time), in any order
  and with any failure on the bus.
\<close>

inductive control_step ::
  "(float64 \<Rightarrow> u16) \<Rightarrow> 'w Handler \<Rightarrow> ('w \<Rightarrow> bank) \<Rightarrow> int set \<Rightarrow> 'w \<Rightarrow> 'w \<Rightarrow> bool"
  for conv h holding S where
  message: "control_step conv h holding S w (OnMessage conv h topic payload w)"
| reconcile: "slots_ok (holding w) \<Longrightarrow> control_step conv h holding S w (snd (Reconcile h (slots_at (holding w)) w))"
| sync: "control_step conv h holding S w (snd (SyncRTC h w))"
| idle: "(\<And>b. b \<in> S \<Longrightarrow> holding w' b = holding w b) \<Longrightarrow> control_step conv h holding S w w'"

definition no_slot_both :: "bank \<Rightarrow> bool" where
  "no_slot_both bk \<longleftrightarrow> (\<forall>i \<in> {0, 1, 2}. \<not> both_set (slot_at bk i))"

lemma slot_at_eq_on:
  assumes "\<And>b. b \<in> slot_addrs \<Longrightarrow> bk b = bk' b" "i \<in> {0, 1, 2}"
  shows "slot_at bk i = slot_at bk' i"
  using assms by (intro slot_at_cong(1)) (auto simp: timedSlotBase_def slot_addrs_def reg_simps)

lemma no_slot_both_cong: "(\<And>b. b \<in> slot_addrs \<Longrightarrow> bk b = bk' b) \<Longrightarrow> no_slot_both bk = no_slot_both bk'"
  using slot_at_eq_on [of bk bk'] by (simp add: no_slot_both_def)

lemma nth_slot_slots_at: "i \<in> {0, 1, 2} \<Longrightarrow> nth_slot (slots_at bk) i = slot_at bk i"
  by (auto simp: nth_slot_def slots_at_def)

context faithful_bus
begin

lemma setBoost_no_slot_both:
  assumes "rw h = bus" "slot_addrs \<subseteq> stable" "setBoost h payload w = (r, w')" "no_slot_both (holding w)"
  shows "no_slot_both (holding w')"
proof -
  have b: "{43163..43170} \<subseteq> stable" using assms(2) by (auto simp: slot_addrs_def)
  obtain k slot regs where K: "TimedSlotWriteRegisters boostSlot slot = Inr regs" "\<not> both_set slot"
    "\<forall>b \<in> stable. holding w' b = apply_regs (take k regs) (holding w) b"
    using setBoost_bank [OF assms(1,3) b] by blast
  have eq: "slot_at (holding w') i = slot_at (apply_regs (take k regs) (holding w)) i" if "i \<in> {0, 1, 2}" for i
    using K(3) assms(2) that by (intro slot_at_eq_on) auto
  have "Addr ` set (take k regs) \<subseteq> {43163..43170}"
    using take_addrs [of k regs] boost_regs_addrs(1) [OF K(1)] by simp
  then have "slot_at (apply_regs (take k regs) (holding w)) i = slot_at (holding w) i" if "i \<in> {0, 1}" for i
    using that by (intro slot_at_other) auto
  moreover have "\<not> both_set (slot_at (apply_regs (take k regs) (holding w)) 2)"
    using slot_write_transient [of 2 slot regs] K(1,2) assms(4) by (simp add: boostSlot_def no_slot_both_def)
  ultimately show ?thesis using assms(4) eq by (simp add: no_slot_both_def)
qed

lemma route_no_slot_both:
  assumes "rw h = bus" "slot_addrs \<subseteq> stable" "route conv h key payload w = (r, w')" "no_slot_both (holding w)"
  shows "no_slot_both (holding w')"
proof -
  have same: "no_slot_both (holding w')" if "\<And>b. b \<in> slot_addrs \<Longrightarrow> holding w' b = holding w b"
    using no_slot_both_cong [OF that] assms(4) by simp
  have C: "no_slot_both (holding w')" if "setCurrent conv h a payload w = (r, w')" "a = 43141 \<or> a = 43142" for a
    using setCurrent_frame [OF assms(1) that(1)] assms(2) that(2) by (intro same) (auto simp: slot_addrs_def)
  have O: "no_slot_both (holding w')" if "setOptimalIncome h payload w = (r, w')"
    using setOptimalIncome_frame [OF assms(1) that] assms(2) by (intro same) (auto simp: slot_addrs_def)
  have Y: "no_slot_both (holding w')" if "syncRTC h w = (r, w')"
    using syncRTC_frame [OF assms(1) that] assms(2) by (intro same) (auto simp: slot_addrs_def)
  show ?thesis
    using assms(3) C [of 43141] C [of 43142] O Y setBoost_no_slot_both [OF assms(1,2) _ assms(4)] assms(4)
    by (auto simp: route_def reg_simps split: if_splits)
qed

lemma Reconcile_no_slot_both:
  assumes "rw h = bus" "slot_addrs \<subseteq> stable" "slots_ok (holding w)" "no_slot_both (holding w)"
  shows "no_slot_both (holding (snd (Reconcile h (slots_at (holding w)) w)))"
proof -
  let ?d = "Desired (tou h) (assertToU h) (slots_at (holding w)) (now h w)"
  obtain k where k: "\<forall>b \<in> stable. holding (snd (Reconcile h (slots_at (holding w)) w)) b =
      apply_regs (take k (schedule_regs ?d)) (holding w) b"
    using Reconcile_bank [OF assms(1,3,2)] by blast
  have "\<not> both_set (slot_at (apply_regs (take k (schedule_regs ?d)) (holding w)) i)" if "i \<in> {0, 1, 2}" for i
  proof (rule schedule_write_transient [OF that])
    show n: "\<not> both_set (slot_at (holding w) i)" using assms(4) that by (auto simp: no_slot_both_def)
    then show "\<not> both_set (nth_slot ?d i)" using that by (intro Desired_not_both) (simp_all add: nth_slot_slots_at)
  qed
  then have "no_slot_both (apply_regs (take k (schedule_regs ?d)) (holding w))" by (simp add: no_slot_both_def)
  then show ?thesis using k assms(2) by (subst no_slot_both_cong) auto
qed

lemma control_step_no_slot_both:
  assumes "rw h = bus" "slot_addrs \<subseteq> stable"
    and "\<And>f w b. refresh h = Some f \<Longrightarrow> b \<in> stable \<Longrightarrow> holding (f w) b = holding w b"
    and "control_step conv h holding stable w w'" "no_slot_both (holding w)"
  shows "no_slot_both (holding w')"
  using assms(4)
proof cases
  case (message topic payload)
  show ?thesis
  proof (cases rule: OnMessage_cases [of conv h topic payload w])
    case dropped
    with message assms(5) show ?thesis by simp
  next
    case (routed key r w1)
    have "no_slot_both (holding w1)" by (rule route_no_slot_both [OF assms(1,2) routed(3) assms(5)])
    moreover have "holding w' b = holding w1 b" if "b \<in> slot_addrs" for b
      using routed(4) message assms(2,3) that by auto
    ultimately show ?thesis by (subst no_slot_both_cong) auto
  qed
next
  case reconcile
  then show ?thesis using Reconcile_no_slot_both [OF assms(1,2) _ assms(5)] by simp
next
  case sync
  have "holding w' b = holding w b" if "b \<in> slot_addrs" for b
    using syncRTC_frame [OF assms(1), of w "Inr True" w' b] sync assms(2) that
    by (auto simp: SyncRTC_def syncRTC_def slot_addrs_def)
  then show ?thesis using assms(5) by (subst no_slot_both_cong) auto
next
  case idle
  then show ?thesis using assms(2,5) by (subst no_slot_both_cong [of _ "holding w"]) auto
qed

end

text \<open>
  No timed slot ever has a charge and a discharge window at once, in any state the manager can
  bring the inverter to: for every sequence of messages, reconciles and clock syncs, over a bus on
  which any call may fail and any reply be lost, starting from slots that do not.
\<close>

theorem never_both_directions:
  assumes "faithful_bus bus S holding wear" "rw h = bus" "slot_addrs \<subseteq> S"
    and "\<And>f w b. refresh h = Some f \<Longrightarrow> b \<in> S \<Longrightarrow> holding (f w) b = holding w b"
    and "(control_step conv h holding S)\<^sup>*\<^sup>* w w'" "no_slot_both (holding w)"
  shows "no_slot_both (holding w')"
  using assms(5,6)
proof (induction rule: rtranclp_induct)
  case (step y z)
  show ?case
    by (rule faithful_bus.control_step_no_slot_both [OF assms(1-3) _ step.hyps(2) step.IH [OF step.prems]])
      (rule assms(4))
qed

theorem never_both_directions_witness:
  "no_slot_both (mock_holding (OnMessage (\<lambda>_. 0)
     \<lparr>rw = mock_client, enabled = True, refresh = None, now = \<lambda>_. Time_zero, tou = TimedWindow_zero, assertToU = False\<rparr>
     ''solis/boost_select/set'' ''Discharge 30 min''
     \<lparr>transport = \<lparr>mock_regs = [43110 \<mapsto> 35, 43163 \<mapsto> 9], taken = []\<rparr>, fates = [Answered, ReplyLost, Refused, ReplyLost]\<rparr>))"
proof -
  let ?h = "\<lparr>rw = mock_client, enabled = True, refresh = None, now = \<lambda>_. Time_zero, tou = TimedWindow_zero, assertToU = False\<rparr>"
    and ?w = "\<lparr>transport = \<lparr>mock_regs = [43110 \<mapsto> 35, 43163 \<mapsto> 9], taken = []\<rparr>, fates = [Answered, ReplyLost, Refused, ReplyLost]\<rparr>"
  have start: "no_slot_both (mock_holding ?w)"
    by (simp add: no_slot_both_def both_set_def slot_at_def window_at_def IsZero_def mock_holding_def offset_defs)
  have "(control_step (\<lambda>_. 0) ?h mock_holding UNIV)\<^sup>*\<^sup>* ?w
      (OnMessage (\<lambda>_. 0) ?h ''solis/boost_select/set'' ''Discharge 30 min'' ?w)"
    by (rule r_into_rtranclp, rule control_step.message)
  note R = never_both_directions [OF mock.faithful_bus_axioms, of ?h "\<lambda>_. 0", OF _ _ _ this start]
  show ?thesis by (rule R) simp_all
qed

end
