(* ===== verification/Telemetry.thy ===== *)
theory Telemetry
  imports Bitfields Rtc Amps "HOL-Library.State_Monad"
begin

text \<open>
  \<open>internal/inverter/telemetry.go\<close> and the blocks of \<open>internal/publisher/collect.go\<close>: one decoded
  reading of the inverter. The \<open>reader\<close> that keeps the first read error is a state monad over the
  snapshot and the error; every composite literal of the Go source is one block of that monad, its
  reads in the order of the source.
\<close>

section \<open>Readings\<close>

record Battery =
  VoltageV :: float64
  CurrentA :: float64
  Charging :: bool
  SOCPercent :: float64
  SOHPercent :: float64
  BMSVoltageV :: float64
  BMSCurrentA :: float64
  BMSChargeCurrentLimitA :: float64
  BMSDischargeCurrentLimitA :: float64
  Battery_BMSFault1 :: BMSFault1
  Battery_BMSFault2 :: BMSFault2
  OverdischargeSOCPercent :: float64
  ForceChargeSOCPercent :: float64
  Battery_PowerW :: float64

record PV =
  PV1VoltageV :: float64
  PV1CurrentA :: float64
  PV2VoltageV :: float64
  PV2CurrentA :: float64
  TotalPowerW :: float64

record Grid =
  Grid_PowerW :: float64
  TotalImportKWh :: float64
  ImportTodayKWh :: float64
  TotalExportKWh :: float64
  ExportTodayKWh :: float64

record AC =
  ActivePowerW :: float64
  TemperatureC :: float64
  FrequencyHz :: float64
  HouseLoadW :: float64

record Energy =
  GenerationTodayKWh :: float64
  GenerationYesterdayKWh :: float64
  BatteryTotalChargeKWh :: float64
  BatteryChargeTodayKWh :: float64
  BatteryTotalDischargeKWh :: float64
  BatteryDischargeTodayKWh :: float64

record System =
  Status :: u16
  OperatingStatus :: u16
  System_WorkMode :: WorkMode

record Telemetry =
  Telemetry_Time :: Time
  Telemetry_Battery :: Battery
  Telemetry_PV :: PV
  Telemetry_Grid :: Grid
  Telemetry_AC :: AC
  Telemetry_Energy :: Energy
  Telemetry_System :: System

section \<open>The reader\<close>

record reader =
  reader_s :: Snapshot
  reader_err :: "go_error option"

definition reader_join :: "go_error option \<Rightarrow> reader \<Rightarrow> reader" where
  "reader_join err r =
     (if err \<noteq> None \<and> reader_err r = None then r\<lparr>reader_err := err\<rparr> else r)"

text \<open>
  The four methods differ in the snapshot method they call: nothing is read once an error is kept,
  and a failed read yields zero.
\<close>

definition reader_read :: "(Snapshot \<Rightarrow> int \<Rightarrow> 'b::len word result) \<Rightarrow> int \<Rightarrow> (reader, 'b word) state" where
  "reader_read f addr = State (\<lambda>r.
     if reader_err r \<noteq> None then (0, r)
     else case f (reader_s r) addr of
       Inl err \<Rightarrow> (0, reader_join (Some err) r)
     | Inr v \<Rightarrow> (v, reader_join None r))"

definition reader_u16 :: "int \<Rightarrow> (reader, u16) state" where
  "reader_u16 = reader_read Snapshot_U16"

definition reader_s16 :: "int \<Rightarrow> (reader, i16) state" where
  "reader_s16 = reader_read Snapshot_S16"

definition reader_u32 :: "int \<Rightarrow> (reader, u32) state" where
  "reader_u32 = reader_read Snapshot_U32"

definition reader_s32 :: "int \<Rightarrow> (reader, i32) state" where
  "reader_s32 = reader_read Snapshot_S32"

text \<open>\<open>float64(v)\<close> of an unsigned and of a signed word.\<close>

definition funsigned :: "'a::len word \<Rightarrow> float64" where
  "funsigned w = float64_of_int (uint w)"

definition fsigned :: "'a::len word \<Rightarrow> float64" where
  "fsigned w = float64_of_int (sint w)"

section \<open>Decoding\<close>

definition readRTC :: "location \<Rightarrow> (reader, Time) state" where
  "readRTC local = State (\<lambda>r.
     case DecodeRTC local (reader_s r) RegRTCRead of
       Inl err \<Rightarrow> (Time_zero, reader_join (Some err) r)
     | Inr t \<Rightarrow> (t, reader_join None r))"

definition readBattery :: "(reader, Battery) state" where
  "readBattery = do {
     direction \<leftarrow> reader_u16 RegBatteryDirection;
     let charging = (direction = 0);
     voltage \<leftarrow> reader_u16 RegBatteryVoltage;
     current \<leftarrow> reader_s16 RegBatteryCurrent;
     soc \<leftarrow> reader_u16 RegBatterySOC;
     soh \<leftarrow> reader_u16 RegBatterySOH;
     bmsVoltage \<leftarrow> reader_u16 RegBMSBatteryVoltage;
     bmsCurrent \<leftarrow> reader_s16 RegBMSBatteryCurrent;
     chargeLimit \<leftarrow> reader_u16 RegBMSChargeCurrentLimit;
     dischargeLimit \<leftarrow> reader_u16 RegBMSDischargeCurrentLimit;
     fault1 \<leftarrow> reader_u16 RegBMSFault1;
     fault2 \<leftarrow> reader_u16 RegBMSFault2;
     overdischarge \<leftarrow> reader_u16 RegOverdischargeSOC;
     forceCharge \<leftarrow> reader_u16 RegForceChargeSOC;
     power \<leftarrow> reader_s32 RegBatteryPower;
     State_Monad.return
       \<lparr>VoltageV = div10 (funsigned voltage),
        CurrentA = signedByDirection (div10 (fsigned current)) charging,
        Charging = charging,
        SOCPercent = funsigned soc,
        SOHPercent = funsigned soh,
        BMSVoltageV = div100 (funsigned bmsVoltage),
        BMSCurrentA = div10 (fsigned bmsCurrent),
        BMSChargeCurrentLimitA = div10 (funsigned chargeLimit),
        BMSDischargeCurrentLimitA = div10 (funsigned dischargeLimit),
        Battery_BMSFault1 = DecodeBMSFault1 fault1,
        Battery_BMSFault2 = DecodeBMSFault2 fault2,
        OverdischargeSOCPercent = funsigned overdischarge,
        ForceChargeSOCPercent = funsigned forceCharge,
        Battery_PowerW = signedByDirection (fsigned power) charging\<rparr>
   }"

definition readPV :: "(reader, PV) state" where
  "readPV = do {
     v1 \<leftarrow> reader_u16 RegPV1Voltage;
     c1 \<leftarrow> reader_u16 RegPV1Current;
     v2 \<leftarrow> reader_u16 RegPV2Voltage;
     c2 \<leftarrow> reader_u16 RegPV2Current;
     power \<leftarrow> reader_u32 RegTotalPVPower;
     State_Monad.return
       \<lparr>PV1VoltageV = div10 (funsigned v1),
        PV1CurrentA = div10 (funsigned c1),
        PV2VoltageV = div10 (funsigned v2),
        PV2CurrentA = div10 (funsigned c2),
        TotalPowerW = funsigned power\<rparr>
   }"

definition readGrid :: "(reader, Grid) state" where
  "readGrid = do {
     power \<leftarrow> reader_s32 RegGridPower;
     totalImport \<leftarrow> reader_u32 RegGridTotalImportEnergy;
     importToday \<leftarrow> reader_u16 RegGridImportToday;
     totalExport \<leftarrow> reader_u32 RegGridTotalExportEnergy;
     exportToday \<leftarrow> reader_u16 RegGridExportToday;
     State_Monad.return
       \<lparr>Grid_PowerW = fsigned power,
        TotalImportKWh = funsigned totalImport,
        ImportTodayKWh = div10 (funsigned importToday),
        TotalExportKWh = funsigned totalExport,
        ExportTodayKWh = div10 (funsigned exportToday)\<rparr>
   }"

definition readAC :: "(reader, AC) state" where
  "readAC = do {
     power \<leftarrow> reader_s32 RegACActivePower;
     temperature \<leftarrow> reader_s16 RegInverterTemperature;
     frequency \<leftarrow> reader_u16 RegGridFrequency;
     load \<leftarrow> reader_u16 RegHouseLoadPower;
     State_Monad.return
       \<lparr>ActivePowerW = fsigned power,
        TemperatureC = div10 (fsigned temperature),
        FrequencyHz = div100 (funsigned frequency),
        HouseLoadW = funsigned load\<rparr>
   }"

definition readEnergy :: "(reader, Energy) state" where
  "readEnergy = do {
     today \<leftarrow> reader_u16 RegGenerationToday;
     yesterday \<leftarrow> reader_u16 RegGenerationYesterday;
     totalCharge \<leftarrow> reader_u32 RegBatteryTotalChargeEnergy;
     chargeToday \<leftarrow> reader_u16 RegBatteryChargeToday;
     totalDischarge \<leftarrow> reader_u32 RegBatteryTotalDischargeEnergy;
     dischargeToday \<leftarrow> reader_u16 RegBatteryDischargeToday;
     State_Monad.return
       \<lparr>GenerationTodayKWh = div10 (funsigned today),
        GenerationYesterdayKWh = div10 (funsigned yesterday),
        BatteryTotalChargeKWh = funsigned totalCharge,
        BatteryChargeTodayKWh = div10 (funsigned chargeToday),
        BatteryTotalDischargeKWh = funsigned totalDischarge,
        BatteryDischargeTodayKWh = div10 (funsigned dischargeToday)\<rparr>
   }"

definition readSystem :: "(reader, System) state" where
  "readSystem = do {
     status \<leftarrow> reader_u16 RegInverterStatus;
     operating \<leftarrow> reader_u16 RegOperatingStatus;
     mode \<leftarrow> reader_u16 RegWorkModeReadback;
     State_Monad.return
       \<lparr>Status = status, OperatingStatus = operating, System_WorkMode = DecodeWorkMode mode\<rparr>
   }"

definition readTelemetry :: "location \<Rightarrow> (reader, Telemetry) state" where
  "readTelemetry local = do {
     rtc \<leftarrow> readRTC local;
     battery \<leftarrow> readBattery;
     pv \<leftarrow> readPV;
     grid \<leftarrow> readGrid;
     ac \<leftarrow> readAC;
     energy \<leftarrow> readEnergy;
     system \<leftarrow> readSystem;
     State_Monad.return
       \<lparr>Telemetry_Time = rtc, Telemetry_Battery = battery, Telemetry_PV = pv, Telemetry_Grid = grid,
        Telemetry_AC = ac, Telemetry_Energy = energy, Telemetry_System = system\<rparr>
   }"

definition DecodeTelemetry :: "location \<Rightarrow> Snapshot \<Rightarrow> Telemetry result" where
  "DecodeTelemetry local s =
     (let (t, r) = run_state (readTelemetry local) \<lparr>reader_s = s, reader_err = None\<rparr> in
      case reader_err r of
        Some err \<Rightarrow> Inl err
      | None \<Rightarrow> Inr t)"

section \<open>The blocks of a poll\<close>

definition maxReadRegisters :: int where "maxReadRegisters = 100"
definition block1Base :: int where "block1Base = 33022"
definition block1Count :: int where "block1Count = maxReadRegisters"
definition block2Base :: int where "block2Base = 33122"
definition block2Count :: int where "block2Count = 93"

text \<open>
  \<open>Collect\<close>: the reader is the world-passing function \<open>readInput\<close>, from an address and a count to the
  words or an error.
\<close>

definition Collect ::
  "location \<Rightarrow> (int \<Rightarrow> int \<Rightarrow> 'w \<Rightarrow> u16 list result \<times> 'w) \<Rightarrow> 'w \<Rightarrow> Telemetry result \<times> 'w" where
  "Collect local readInput w =
     (case readInput block1Base block1Count w of
        (Inl err, w) \<Rightarrow>
          (Inl (Wrap (''read input block '' @ fmt_d block1Base @ ''+'' @ fmt_d block1Count) err), w)
      | (Inr regs1, w) \<Rightarrow>
          (case readInput block2Base block2Count w of
             (Inl err, w) \<Rightarrow>
               (Inl (Wrap (''read input block '' @ fmt_d block2Base @ ''+'' @ fmt_d block2Count) err), w)
           | (Inr regs2, w) \<Rightarrow>
               (DecodeTelemetry local
                  [\<lparr>Base = block1Base, Regs = regs1\<rparr>, \<lparr>Base = block2Base, Regs = regs2\<rparr>], w)))"

section \<open>What a reading means\<close>

text \<open>
  The reading of an input bank, written against the register numbers of the inverter's own table: the
  reference the decoder is compared with. \<open>pair\<close> is the 32-bit number of two words.
\<close>

definition pair :: "bank \<Rightarrow> int \<Rightarrow> u32" where
  "pair bk a = word_of_int (65536 * uint (bk a) + uint (bk (a + 1)))"

definition telemetry_of :: "location \<Rightarrow> bank \<Rightarrow> Telemetry" where
  "telemetry_of local bk =
     \<lparr>Telemetry_Time = Time_Date (2000 + uint (bk 33022)) (uint (bk 33023)) (uint (bk 33024))
        (uint (bk 33025)) (uint (bk 33026)) (uint (bk 33027)) local,
      Telemetry_Battery =
        \<lparr>VoltageV = div10 (funsigned (bk 33133)),
         CurrentA = signedByDirection (div10 (fsigned (bk 33134))) (bk 33135 = 0),
         Charging = (bk 33135 = 0),
         SOCPercent = funsigned (bk 33139), SOHPercent = funsigned (bk 33140),
         BMSVoltageV = div100 (funsigned (bk 33141)), BMSCurrentA = div10 (fsigned (bk 33142)),
         BMSChargeCurrentLimitA = div10 (funsigned (bk 33143)),
         BMSDischargeCurrentLimitA = div10 (funsigned (bk 33144)),
         Battery_BMSFault1 = DecodeBMSFault1 (bk 33145), Battery_BMSFault2 = DecodeBMSFault2 (bk 33146),
         OverdischargeSOCPercent = funsigned (bk 33213), ForceChargeSOCPercent = funsigned (bk 33214),
         Battery_PowerW = signedByDirection (fsigned (pair bk 33149)) (bk 33135 = 0)\<rparr>,
      Telemetry_PV =
        \<lparr>PV1VoltageV = div10 (funsigned (bk 33049)), PV1CurrentA = div10 (funsigned (bk 33050)),
         PV2VoltageV = div10 (funsigned (bk 33051)), PV2CurrentA = div10 (funsigned (bk 33052)),
         TotalPowerW = funsigned (pair bk 33057)\<rparr>,
      Telemetry_Grid =
        \<lparr>Grid_PowerW = fsigned (pair bk 33130), TotalImportKWh = funsigned (pair bk 33169),
         ImportTodayKWh = div10 (funsigned (bk 33171)), TotalExportKWh = funsigned (pair bk 33173),
         ExportTodayKWh = div10 (funsigned (bk 33175))\<rparr>,
      Telemetry_AC =
        \<lparr>ActivePowerW = fsigned (pair bk 33079), TemperatureC = div10 (fsigned (bk 33093)),
         FrequencyHz = div100 (funsigned (bk 33094)), HouseLoadW = funsigned (bk 33147)\<rparr>,
      Telemetry_Energy =
        \<lparr>GenerationTodayKWh = div10 (funsigned (bk 33035)), GenerationYesterdayKWh = div10 (funsigned (bk 33036)),
         BatteryTotalChargeKWh = funsigned (pair bk 33161), BatteryChargeTodayKWh = div10 (funsigned (bk 33163)),
         BatteryTotalDischargeKWh = funsigned (pair bk 33165),
         BatteryDischargeTodayKWh = div10 (funsigned (bk 33167))\<rparr>,
      Telemetry_System =
        \<lparr>Status = bk 33095, OperatingStatus = bk 33121, System_WorkMode = DecodeWorkMode (bk 33132)\<rparr>\<rparr>"

section \<open>Lemmas\<close>

abbreviation poll_snapshot :: "bank \<Rightarrow> Snapshot" where
  "poll_snapshot bk \<equiv> [bank_block bk 33022 100, bank_block bk 33122 93]"

lemma pair_eq: "pair bk a = push_bit 16 (ucast (bk a)) OR ucast (bk (a + 1))"
  unfolding pair_def by (simp only: word32_of_halves [symmetric] word_of_int_uint)

lemma block_poll:
  assumes "33022 \<le> a" "a < 33215"
  shows "block (poll_snapshot bk) a =
    Some (if a < 33122 then bank_block bk 33022 100 else bank_block bk 33122 93)"
  using assms by simp

lemma Regs_bank_block: "base \<le> a \<Longrightarrow> a < base + int n \<Longrightarrow> Regs (bank_block bk base n) ! nat (a - base) = bk a"
  by (simp add: bank_block_def bank_read_def nat_less_iff)

lemma Base_bank_block [simp]: "Base (bank_block bk base n) = base"
  by (simp add: bank_block_def)

lemma U16_poll: "33022 \<le> a \<Longrightarrow> a < 33215 \<Longrightarrow> Snapshot_U16 (poll_snapshot bk) a = Inr (bk a)"
  by (subst Snapshot_U16_Some [OF block_poll]) (auto simp: Regs_bank_block)

lemma U32_poll:
  assumes "33022 \<le> a" "a < 33214" "a \<noteq> 33121"
  shows "Snapshot_U32 (poll_snapshot bk) a = Inr (pair bk a)"
  using assms Regs_bank_block [of 33022 "a + 1" 100 bk] Regs_bank_block [of 33122 "a + 1" 93 bk]
  by (subst Snapshot_U32_Some [OF block_poll]) (auto simp: Regs_bank_block pair_eq)

lemma S16_poll: "33022 \<le> a \<Longrightarrow> a < 33215 \<Longrightarrow> Snapshot_S16 (poll_snapshot bk) a = Inr (bk a)"
  using Snapshot_S16_eq_U16 [OF block_poll, of a bk] U16_poll [of a bk] by simp

lemma S32_poll:
  assumes "33022 \<le> a" "a < 33214" "a \<noteq> 33121"
  shows "Snapshot_S32 (poll_snapshot bk) a = Inr (pair bk a)"
  using assms Snapshot_S32_Some [OF block_poll, of a bk] U32_poll [of a bk] by auto

text \<open>Over the two blocks of a poll every read of the decoder succeeds and leaves the reader as it is.\<close>

abbreviation poll_reader :: "bank \<Rightarrow> reader" where
  "poll_reader bk \<equiv> \<lparr>reader_s = poll_snapshot bk, reader_err = None\<rparr>"

lemma reader_poll:
  "33022 \<le> a \<Longrightarrow> a < 33215 \<Longrightarrow> run_state (reader_u16 a) (poll_reader bk) = (bk a, poll_reader bk)"
  "33022 \<le> a \<Longrightarrow> a < 33215 \<Longrightarrow> run_state (reader_s16 a) (poll_reader bk) = (bk a, poll_reader bk)"
  "33022 \<le> a \<Longrightarrow> a < 33214 \<Longrightarrow> a \<noteq> 33121 \<Longrightarrow> run_state (reader_u32 a) (poll_reader bk) = (pair bk a, poll_reader bk)"
  "33022 \<le> a \<Longrightarrow> a < 33214 \<Longrightarrow> a \<noteq> 33121 \<Longrightarrow> run_state (reader_s32 a) (poll_reader bk) = (pair bk a, poll_reader bk)"
  by (simp_all add: reader_u16_def reader_s16_def reader_u32_def reader_s32_def reader_read_def
      reader_join_def U16_poll S16_poll U32_poll S32_poll del: block.simps)

lemma readRTC_poll:
  "run_state (readRTC local) (poll_reader bk) =
     (Telemetry_Time (telemetry_of local bk), poll_reader bk)"
proof -
  have "DecodeRTC local (poll_snapshot bk) 33022 = decodeRTC local (bank_read bk 33022 100) 33022 33022"
    by (simp add: DecodeRTC_def) (simp add: bank_block_def)
  also have "\<dots> = Inr (Telemetry_Time (telemetry_of local bk))"
    by (subst decodeRTC_bank) (simp_all add: telemetry_of_def)
  finally show ?thesis by (simp add: readRTC_def reader_join_def reg_simps)
qed

lemma groups_poll:
  "run_state readBattery (poll_reader bk) = (Telemetry_Battery (telemetry_of local bk), poll_reader bk)"
  "run_state readPV (poll_reader bk) = (Telemetry_PV (telemetry_of local bk), poll_reader bk)"
  "run_state readGrid (poll_reader bk) = (Telemetry_Grid (telemetry_of local bk), poll_reader bk)"
  "run_state readAC (poll_reader bk) = (Telemetry_AC (telemetry_of local bk), poll_reader bk)"
  "run_state readEnergy (poll_reader bk) = (Telemetry_Energy (telemetry_of local bk), poll_reader bk)"
  "run_state readSystem (poll_reader bk) = (Telemetry_System (telemetry_of local bk), poll_reader bk)"
  by (simp_all add: readBattery_def readPV_def readGrid_def readAC_def readEnergy_def readSystem_def
      reader_poll reg_simps telemetry_of_def Let_def)

lemma DecodeTelemetry_poll: "DecodeTelemetry local (poll_snapshot bk) = Inr (telemetry_of local bk)"
proof -
  have "run_state (readTelemetry local) (poll_reader bk) = (telemetry_of local bk, poll_reader bk)"
    by (simp add: readTelemetry_def readRTC_poll groups_poll [where local = local])
  then show ?thesis by (simp add: DecodeTelemetry_def)
qed

text \<open>The signed readings, as numbers.\<close>

lemma sint_u32_bound: "\<bar>sint (w :: u32)\<bar> < 2 ^ 53"
  using sint_u32_cases [of w] uint_u32_bounds [of w] by (simp split: if_splits)

lemma fsigned_u32: "fsigned (w :: u32) = Fin (sint w < 0) (of_int \<bar>sint w\<bar>)"
  unfolding fsigned_def using sint_u32_bound by (rule float64_of_int_exact)

lemma signedByDirection_Fin:
  "signedByDirection (Fin s m) charging = Fin (\<not> charging \<and> m \<noteq> 0) m"
  by (auto simp: signedByDirection_def feq_zero_def Let_def)

text \<open>The decoder only fails where a register is missing.\<close>

definition missing_only :: "reader \<Rightarrow> bool" where
  "missing_only r \<longleftrightarrow> (case reader_err r of None \<Rightarrow> True | Some e \<Rightarrow> errors_Is e ErrRegisterOutOfRange)"

definition keeps_missing :: "(reader, 'a) state \<Rightarrow> bool" where
  "keeps_missing m \<longleftrightarrow> (\<forall>r. missing_only r \<longrightarrow> missing_only (snd (run_state m r)))"

lemma keeps_missing_return [intro]: "keeps_missing (State_Monad.return x)"
  by (simp add: keeps_missing_def)

lemma keeps_missing_bind [intro]:
  "keeps_missing m \<Longrightarrow> (\<And>x. keeps_missing (f x)) \<Longrightarrow> keeps_missing (State_Monad.bind m f)"
  by (auto simp: keeps_missing_def split: prod.splits)

lemma keeps_missing_read:
  assumes "\<And>s a e. f s a = Inl e \<Longrightarrow> errors_Is e ErrRegisterOutOfRange"
  shows "keeps_missing (reader_read f addr)"
  using assms
  by (auto simp: keeps_missing_def reader_read_def reader_join_def missing_only_def split: sum.splits option.splits)

lemma snapshot_errors:
  "Snapshot_U16 s a = Inl e \<Longrightarrow> errors_Is e ErrRegisterOutOfRange"
  "Snapshot_S16 s a = Inl e \<Longrightarrow> errors_Is e ErrRegisterOutOfRange"
  "Snapshot_U32 s a = Inl e \<Longrightarrow> errors_Is e ErrRegisterOutOfRange"
  "Snapshot_S32 s a = Inl e \<Longrightarrow> errors_Is e ErrRegisterOutOfRange"
  by (auto simp: Snapshot_U16_def Snapshot_S16_def Snapshot_U32_def Snapshot_S32_def Block_U16_def
      Block_S16_def Block_U32_def Block_S32_def or_out_of_range_def split: option.splits)

lemma rtc_fields_error: "rtc_fields regs base a n = Inl e \<Longrightarrow> errors_Is e ErrRegisterOutOfRange"
  by (induction n arbitrary: a) (auto split: option.splits sum.splits)

lemma DecodeRTC_error: "DecodeRTC local s a = Inl e \<Longrightarrow> errors_Is e ErrRegisterOutOfRange"
  by (auto simp: DecodeRTC_def decodeRTC_def split: option.splits sum.splits dest: rtc_fields_error)

lemma keeps_missing_readers [intro]:
  "keeps_missing (reader_u16 a)" "keeps_missing (reader_s16 a)"
  "keeps_missing (reader_u32 a)" "keeps_missing (reader_s32 a)"
  unfolding reader_u16_def reader_s16_def reader_u32_def reader_s32_def
  by (rule keeps_missing_read; erule snapshot_errors)+

lemma keeps_missing_readRTC [intro]: "keeps_missing (readRTC local)"
  by (auto simp: keeps_missing_def readRTC_def reader_join_def missing_only_def
      split: sum.splits option.splits dest: DecodeRTC_error)

lemma keeps_missing_readTelemetry: "keeps_missing (readTelemetry local)"
  unfolding readTelemetry_def readBattery_def readPV_def readGrid_def readAC_def readEnergy_def
    readSystem_def Let_def
  by (intro keeps_missing_bind keeps_missing_return keeps_missing_readers keeps_missing_readRTC)

section \<open>Properties\<close>

text \<open>
  C29: a poll whose two block reads return the words of an input bank yields the reading that bank
  stands for: the two blocks cover every register the decoder asks for, no 32-bit pair is split
  between them, and every field comes from the register the inverter's table gives for it. Neither
  read asks for more than the 100 registers the datalogger serves.
\<close>

theorem collect_reads_bank:
  assumes "\<And>w. fst (readInput 33022 100 w) = Inr (bank_read bk 33022 100)"
    and "\<And>w. fst (readInput 33122 93 w) = Inr (bank_read bk 33122 93)"
  shows "fst (Collect local readInput w) = Inr (telemetry_of local bk) \<and>
    block1Count \<le> maxReadRegisters \<and> block2Count \<le> maxReadRegisters"
proof -
  obtain w1 where w1: "readInput 33022 100 w = (Inr (bank_read bk 33022 100), w1)"
    using assms(1) [of w] by (cases "readInput 33022 100 w") auto
  obtain w2 where w2: "readInput 33122 93 w1 = (Inr (bank_read bk 33122 93), w2)"
    using assms(2) [of w1] by (cases "readInput 33122 93 w1") auto
  show ?thesis
    using w1 w2 DecodeTelemetry_poll [of local bk]
    by (simp add: Collect_def block1Base_def block1Count_def block2Base_def block2Count_def
        maxReadRegisters_def bank_block_def)
qed

theorem collect_reads_bank_witness:
  "fst (Collect UTC (\<lambda>a n w. (Inr (bank_read (\<lambda>_. 1) a (nat n)), w)) ()) = Inr (telemetry_of UTC (\<lambda>_. 1))"
  using collect_reads_bank [of "\<lambda>a n w. (Inr (bank_read (\<lambda>_. 1) a (nat n)), w)" "\<lambda>_. 1" UTC "()"] by simp

text \<open>
  The battery power of a reading is the magnitude of the 32-bit register with the sign of the
  direction register, exactly: positive while charging, negative while discharging, and a plain
  zero when it is zero.
\<close>

theorem battery_power_signed:
  "Battery_PowerW (Telemetry_Battery (telemetry_of local bk)) =
     Fin (bk 33135 \<noteq> 0 \<and> pair bk 33149 \<noteq> 0) (of_int \<bar>sint (pair bk 33149)\<bar>) \<and>
   Grid_PowerW (Telemetry_Grid (telemetry_of local bk)) =
     Fin (sint (pair bk 33130) < 0) (of_int \<bar>sint (pair bk 33130)\<bar>)"
proof -
  have "(of_int \<bar>sint w\<bar> :: rat) = 0 \<longleftrightarrow> w = 0" for w :: u32
    by (simp only: of_int_eq_0_iff abs_eq_0 signed_eq_0_iff)
  then show ?thesis by (simp add: telemetry_of_def fsigned_u32 signedByDirection_Fin del: of_int_abs)
qed

text \<open>
  Decoding fails only for a missing register: every error of \<open>DecodeTelemetry\<close> is
  \<open>ErrRegisterOutOfRange\<close>, and no snapshot makes it panic.
\<close>

theorem decode_telemetry_error:
  "case DecodeTelemetry local s of Inl err \<Rightarrow> errors_Is err ErrRegisterOutOfRange | Inr _ \<Rightarrow> True"
proof -
  have "missing_only (snd (run_state (readTelemetry local) \<lparr>reader_s = s, reader_err = None\<rparr>))"
    using keeps_missing_readTelemetry by (auto simp: keeps_missing_def missing_only_def)
  then show ?thesis
    by (auto simp: DecodeTelemetry_def missing_only_def split: prod.splits option.splits)
qed

end
