(* ===== verification/HomeAssistant.thy ===== *)
theory HomeAssistant
  imports Telemetry Schedule GoDuration
begin

text \<open>
  \<open>internal/homeassistant\<close>: the entity catalogue, the discovery documents and the shared state document
  (\<open>entities.go\<close>, \<open>discovery.go\<close>, \<open>state.go\<close>). A document is the value given to \<open>json.Marshal\<close>; its text is
  the library's business. Marshalling fails exactly on a number JSON has no literal for.
\<close>

section \<open>Documents\<close>

datatype jany =
    JNil
  | JFlag bool
  | JNum int
  | JFloat float64
  | JStr string
  | JArr "jany list"
  | JMap "(string \<times> jany) list"

text \<open>What \<open>json.Marshal\<close> accepts: no infinity and no NaN anywhere.\<close>

fun marshals :: "jany \<Rightarrow> bool" where
  "marshals (JFloat x) = IsFinite x"
| "marshals (JArr vs) = list_all marshals vs"
| "marshals (JMap kvs) = list_all (\<lambda>kv. marshals (snd kv)) kvs"
| "marshals _ = True"

text \<open>The bytes of a payload: a literal text, or the text of a document.\<close>

datatype payload = Bytes string | Json jany

definition payload_empty :: "payload \<Rightarrow> bool" where
  "payload_empty p \<longleftrightarrow> p = Bytes []"

definition json_Marshal :: "jany \<Rightarrow> payload result" where
  "json_Marshal v = (if marshals v then Inr (Json v) else Inl (Errorf ''json: unsupported value''))"

section \<open>entities.go\<close>

definition Sensor :: string where "Sensor = ''sensor''"
definition BinarySensor :: string where "BinarySensor = ''binary_sensor''"
definition Number :: string where "Number = ''number''"
definition Switch :: string where "Switch = ''switch''"
definition Select :: string where "Select = ''select''"
definition Button :: string where "Button = ''button''"

definition Manufacturer :: string where "Manufacturer = ''Solis''"
definition Model :: string where "Model = ''RHI-3.6K-48ES-5G''"
definition DeviceName :: string where "DeviceName = ''Solis Inverter''"

definition DefaultObjectIDPrefix :: string where "DefaultObjectIDPrefix = ''solis_inverter''"

record ha_Config =
  DiscoveryPrefix :: string
  TopicPrefix :: string
  Serial :: string
  ObjectIDPrefix :: string
  ControlsEnabled :: bool

definition objectID :: "ha_Config \<Rightarrow> string \<Rightarrow> string" where
  "objectID c key =
     (let prefix = ObjectIDPrefix c;
          prefix = (if prefix = '''' then DefaultObjectIDPrefix else prefix)
      in prefix @ ''_'' @ key)"

definition BaseTopic :: "ha_Config \<Rightarrow> string" where
  "BaseTopic c = TopicPrefix c @ ''/'' @ Serial c"

definition StateTopic :: "ha_Config \<Rightarrow> string" where
  "StateTopic c = BaseTopic c @ ''/state''"

definition AvailabilityTopic :: "ha_Config \<Rightarrow> string" where
  "AvailabilityTopic c = BaseTopic c @ ''/availability''"

record Message =
  Topic :: string
  Payload :: payload

abbreviation Message_zero :: Message where
  "Message_zero \<equiv> \<lparr>Topic = [], Payload = Bytes []\<rparr>"

record Entity =
  Component :: string
  Entity_Key :: string
  Entity_Name :: string
  DeviceClass :: string
  StateClass :: string
  Unit :: string
  Category :: string
  Precision :: int
  Command :: bool
  Entity_Min :: float64
  Entity_Max :: float64
  Entity_Step :: float64
  Entity_Mode :: string
  Options :: "string list"
  PayloadPress :: string

definition Entity_zero :: Entity where
  "Entity_zero =
     \<lparr>Component = [], Entity_Key = [], Entity_Name = [], DeviceClass = [], StateClass = [], Unit = [],
      Category = [], Precision = 0, Command = False, Entity_Min = Fin False 0, Entity_Max = Fin False 0,
      Entity_Step = Fin False 0, Entity_Mode = [], Options = [], PayloadPress = []\<rparr>"

definition Entities :: "Entity list" where
  "Entities =
     [Entity_zero\<lparr>Component := Sensor, Entity_Key := ''battery_voltage'', Entity_Name := ''Battery voltage'',
        DeviceClass := ''voltage'', StateClass := ''measurement'', Unit := ''V'', Precision := 1\<rparr>,
      Entity_zero\<lparr>Component := Sensor, Entity_Key := ''battery_current'', Entity_Name := ''Battery current'',
        DeviceClass := ''current'', StateClass := ''measurement'', Unit := ''A'', Precision := 1\<rparr>,
      Entity_zero\<lparr>Component := Sensor, Entity_Key := ''battery_power'', Entity_Name := ''Battery power'',
        DeviceClass := ''power'', StateClass := ''measurement'', Unit := ''W''\<rparr>,
      Entity_zero\<lparr>Component := Sensor, Entity_Key := ''battery_charge_power'',
        Entity_Name := ''Battery charge power'', DeviceClass := ''power'', StateClass := ''measurement'',
        Unit := ''W''\<rparr>,
      Entity_zero\<lparr>Component := Sensor, Entity_Key := ''battery_discharge_power'',
        Entity_Name := ''Battery discharge power'', DeviceClass := ''power'', StateClass := ''measurement'',
        Unit := ''W''\<rparr>,
      Entity_zero\<lparr>Component := BinarySensor, Entity_Key := ''battery_charging'',
        Entity_Name := ''Battery charging'', DeviceClass := ''battery_charging''\<rparr>,
      Entity_zero\<lparr>Component := Sensor, Entity_Key := ''battery_soc'', Entity_Name := ''Battery SOC'',
        DeviceClass := ''battery'', StateClass := ''measurement'', Unit := ''%''\<rparr>,
      Entity_zero\<lparr>Component := Sensor, Entity_Key := ''battery_soh'', Entity_Name := ''Battery SOH'',
        DeviceClass := ''battery'', StateClass := ''measurement'', Unit := ''%'',
        Category := ''diagnostic''\<rparr>,
      Entity_zero\<lparr>Component := Sensor, Entity_Key := ''bms_voltage'', Entity_Name := ''BMS voltage'',
        DeviceClass := ''voltage'', StateClass := ''measurement'', Unit := ''V'', Category := ''diagnostic'',
        Precision := 2\<rparr>,
      Entity_zero\<lparr>Component := Sensor, Entity_Key := ''bms_current'', Entity_Name := ''BMS current'',
        DeviceClass := ''current'', StateClass := ''measurement'', Unit := ''A'', Category := ''diagnostic'',
        Precision := 1\<rparr>,
      Entity_zero\<lparr>Component := Sensor, Entity_Key := ''bms_charge_current_limit'',
        Entity_Name := ''BMS charge current limit'', DeviceClass := ''current'', StateClass := ''measurement'',
        Unit := ''A'', Category := ''diagnostic'', Precision := 1\<rparr>,
      Entity_zero\<lparr>Component := Sensor, Entity_Key := ''bms_discharge_current_limit'',
        Entity_Name := ''BMS discharge current limit'', DeviceClass := ''current'',
        StateClass := ''measurement'', Unit := ''A'', Category := ''diagnostic'', Precision := 1\<rparr>,
      Entity_zero\<lparr>Component := Sensor, Entity_Key := ''bms_fault_1'', Entity_Name := ''BMS fault word 1'',
        Category := ''diagnostic''\<rparr>,
      Entity_zero\<lparr>Component := Sensor, Entity_Key := ''bms_fault_2'', Entity_Name := ''BMS fault word 2'',
        Category := ''diagnostic''\<rparr>,
      Entity_zero\<lparr>Component := BinarySensor, Entity_Key := ''bms_over_voltage'',
        Entity_Name := ''BMS over voltage'', DeviceClass := ''problem'', Category := ''diagnostic''\<rparr>,
      Entity_zero\<lparr>Component := BinarySensor, Entity_Key := ''bms_under_voltage'',
        Entity_Name := ''BMS under voltage'', DeviceClass := ''problem'', Category := ''diagnostic''\<rparr>,
      Entity_zero\<lparr>Component := BinarySensor, Entity_Key := ''bms_over_temp'',
        Entity_Name := ''BMS over temperature'', DeviceClass := ''problem'',
        Category := ''diagnostic''\<rparr>,
      Entity_zero\<lparr>Component := BinarySensor, Entity_Key := ''bms_under_temp'',
        Entity_Name := ''BMS under temperature'', DeviceClass := ''problem'',
        Category := ''diagnostic''\<rparr>,
      Entity_zero\<lparr>Component := BinarySensor, Entity_Key := ''bms_charge_over_temp'',
        Entity_Name := ''BMS charge over temperature'', DeviceClass := ''problem'',
        Category := ''diagnostic''\<rparr>,
      Entity_zero\<lparr>Component := BinarySensor, Entity_Key := ''bms_charge_under_temp'',
        Entity_Name := ''BMS charge under temperature'', DeviceClass := ''problem'',
        Category := ''diagnostic''\<rparr>,
      Entity_zero\<lparr>Component := BinarySensor, Entity_Key := ''bms_discharge_over_current'',
        Entity_Name := ''BMS discharge over current'', DeviceClass := ''problem'',
        Category := ''diagnostic''\<rparr>,
      Entity_zero\<lparr>Component := BinarySensor, Entity_Key := ''bms_charge_over_current'',
        Entity_Name := ''BMS charge over current'', DeviceClass := ''problem'',
        Category := ''diagnostic''\<rparr>,
      Entity_zero\<lparr>Component := BinarySensor, Entity_Key := ''bms_internal_protection'',
        Entity_Name := ''BMS internal protection'', DeviceClass := ''problem'',
        Category := ''diagnostic''\<rparr>,
      Entity_zero\<lparr>Component := BinarySensor, Entity_Key := ''bms_module_unbalanced'',
        Entity_Name := ''BMS module unbalanced'', DeviceClass := ''problem'',
        Category := ''diagnostic''\<rparr>,
      Entity_zero\<lparr>Component := Sensor, Entity_Key := ''overdischarge_soc'',
        Entity_Name := ''Over-discharge SOC'', Unit := ''%'', Category := ''diagnostic''\<rparr>,
      Entity_zero\<lparr>Component := Sensor, Entity_Key := ''force_charge_soc'',
        Entity_Name := ''Force-charge SOC'', Unit := ''%'', Category := ''diagnostic''\<rparr>,
      Entity_zero\<lparr>Component := Sensor, Entity_Key := ''pv1_voltage'', Entity_Name := ''PV1 voltage'',
        DeviceClass := ''voltage'', StateClass := ''measurement'', Unit := ''V'', Precision := 1\<rparr>,
      Entity_zero\<lparr>Component := Sensor, Entity_Key := ''pv1_current'', Entity_Name := ''PV1 current'',
        DeviceClass := ''current'', StateClass := ''measurement'', Unit := ''A'', Precision := 1\<rparr>,
      Entity_zero\<lparr>Component := Sensor, Entity_Key := ''pv2_voltage'', Entity_Name := ''PV2 voltage'',
        DeviceClass := ''voltage'', StateClass := ''measurement'', Unit := ''V'', Precision := 1\<rparr>,
      Entity_zero\<lparr>Component := Sensor, Entity_Key := ''pv2_current'', Entity_Name := ''PV2 current'',
        DeviceClass := ''current'', StateClass := ''measurement'', Unit := ''A'', Precision := 1\<rparr>,
      Entity_zero\<lparr>Component := Sensor, Entity_Key := ''pv_total_power'', Entity_Name := ''PV total power'',
        DeviceClass := ''power'', StateClass := ''measurement'', Unit := ''W''\<rparr>,
      Entity_zero\<lparr>Component := Sensor, Entity_Key := ''grid_power'', Entity_Name := ''Grid power'',
        DeviceClass := ''power'', StateClass := ''measurement'', Unit := ''W''\<rparr>,
      Entity_zero\<lparr>Component := Sensor, Entity_Key := ''grid_total_import'',
        Entity_Name := ''Grid total import'', DeviceClass := ''energy'', StateClass := ''total_increasing'',
        Unit := ''kWh''\<rparr>,
      Entity_zero\<lparr>Component := Sensor, Entity_Key := ''grid_import_today'',
        Entity_Name := ''Grid import today'', DeviceClass := ''energy'', StateClass := ''total'',
        Unit := ''kWh'', Precision := 1\<rparr>,
      Entity_zero\<lparr>Component := Sensor, Entity_Key := ''grid_total_export'',
        Entity_Name := ''Grid total export'', DeviceClass := ''energy'', StateClass := ''total_increasing'',
        Unit := ''kWh''\<rparr>,
      Entity_zero\<lparr>Component := Sensor, Entity_Key := ''grid_export_today'',
        Entity_Name := ''Grid export today'', DeviceClass := ''energy'', StateClass := ''total'',
        Unit := ''kWh'', Precision := 1\<rparr>,
      Entity_zero\<lparr>Component := Sensor, Entity_Key := ''ac_active_power'', Entity_Name := ''AC active power'',
        DeviceClass := ''power'', StateClass := ''measurement'', Unit := ''W''\<rparr>,
      Entity_zero\<lparr>Component := Sensor, Entity_Key := ''inverter_temperature'',
        Entity_Name := ''Inverter temperature'', DeviceClass := ''temperature'', StateClass := ''measurement'',
        Unit := char_of (194 :: nat) # char_of (176 :: nat) # ''C'', Precision := 1\<rparr>,
      Entity_zero\<lparr>Component := Sensor, Entity_Key := ''grid_frequency'', Entity_Name := ''Grid frequency'',
        DeviceClass := ''frequency'', StateClass := ''measurement'', Unit := ''Hz'', Precision := 2\<rparr>,
      Entity_zero\<lparr>Component := Sensor, Entity_Key := ''house_load'', Entity_Name := ''House load'',
        DeviceClass := ''power'', StateClass := ''measurement'', Unit := ''W''\<rparr>,
      Entity_zero\<lparr>Component := Sensor, Entity_Key := ''generation_today'',
        Entity_Name := ''Generation today'', DeviceClass := ''energy'', StateClass := ''total'',
        Unit := ''kWh'', Precision := 1\<rparr>,
      Entity_zero\<lparr>Component := Sensor, Entity_Key := ''generation_yesterday'',
        Entity_Name := ''Generation yesterday'', DeviceClass := ''energy'', Unit := ''kWh'',
        Category := ''diagnostic'', Precision := 1\<rparr>,
      Entity_zero\<lparr>Component := Sensor, Entity_Key := ''battery_total_charge'',
        Entity_Name := ''Battery total charge'', DeviceClass := ''energy'', StateClass := ''total_increasing'',
        Unit := ''kWh''\<rparr>,
      Entity_zero\<lparr>Component := Sensor, Entity_Key := ''battery_charge_today'',
        Entity_Name := ''Battery charge today'', DeviceClass := ''energy'', StateClass := ''total'',
        Unit := ''kWh'', Precision := 1\<rparr>,
      Entity_zero\<lparr>Component := Sensor, Entity_Key := ''battery_total_discharge'',
        Entity_Name := ''Battery total discharge'', DeviceClass := ''energy'',
        StateClass := ''total_increasing'', Unit := ''kWh''\<rparr>,
      Entity_zero\<lparr>Component := Sensor, Entity_Key := ''battery_discharge_today'',
        Entity_Name := ''Battery discharge today'', DeviceClass := ''energy'', StateClass := ''total'',
        Unit := ''kWh'', Precision := 1\<rparr>,
      Entity_zero\<lparr>Component := Sensor, Entity_Key := ''status'', Entity_Name := ''Status'',
        Category := ''diagnostic''\<rparr>,
      Entity_zero\<lparr>Component := Sensor, Entity_Key := ''status_text'', Entity_Name := ''Status text'',
        Category := ''diagnostic''\<rparr>,
      Entity_zero\<lparr>Component := Sensor, Entity_Key := ''operating_status'',
        Entity_Name := ''Operating status'', Category := ''diagnostic''\<rparr>,
      Entity_zero\<lparr>Component := Sensor, Entity_Key := ''work_mode'', Entity_Name := ''Energy storage mode'',
        Category := ''diagnostic''\<rparr>,
      Entity_zero\<lparr>Component := Sensor, Entity_Key := ''rtc'', Entity_Name := ''RTC'',
        DeviceClass := ''timestamp'', Category := ''diagnostic''\<rparr>,
      Entity_zero\<lparr>Component := Sensor, Entity_Key := ''rtc_drift'', Entity_Name := ''RTC drift'',
        DeviceClass := ''duration'', Unit := ''s'', Category := ''diagnostic''\<rparr>,
      Entity_zero\<lparr>Component := Sensor, Entity_Key := ''tou_window'',
        Entity_Name := ''Time-of-use window''\<rparr>,
      Entity_zero\<lparr>Component := Sensor, Entity_Key := ''boost'', Entity_Name := ''Boost''\<rparr>,
      Entity_zero\<lparr>Component := Sensor, Entity_Key := ''boost_ends_at'', Entity_Name := ''Boost ends at'',
        DeviceClass := ''timestamp''\<rparr>,
      Entity_zero\<lparr>Component := Sensor, Entity_Key := ''inverter_max_charge_current'',
        Entity_Name := ''Inverter max charge current'', DeviceClass := ''current'', Unit := ''A'',
        Category := ''diagnostic'', Precision := 1\<rparr>,
      Entity_zero\<lparr>Component := Sensor, Entity_Key := ''inverter_max_discharge_current'',
        Entity_Name := ''Inverter max discharge current'', DeviceClass := ''current'', Unit := ''A'',
        Category := ''diagnostic'', Precision := 1\<rparr>,
      Entity_zero\<lparr>Component := Number, Entity_Key := ''set_charge_current'',
        Entity_Name := ''Timed charge current'', Command := True, Entity_Min := Fin False 0,
        Entity_Max := Fin False (125 / 2), Entity_Step := fl False (1 / 10), Entity_Mode := ''box'',
        Unit := ''A''\<rparr>,
      Entity_zero\<lparr>Component := Number, Entity_Key := ''set_discharge_current'',
        Entity_Name := ''Timed discharge current'', Command := True, Entity_Min := Fin False 0,
        Entity_Max := Fin False (125 / 2), Entity_Step := fl False (1 / 10), Entity_Mode := ''box'',
        Unit := ''A''\<rparr>,
      Entity_zero\<lparr>Component := Select, Entity_Key := ''optimal_income'', Entity_Name := ''Optimal income'',
        Command := True, Options := [''Run'', ''Stop'']\<rparr>,
      Entity_zero\<lparr>Component := Select, Entity_Key := ''boost_select'', Entity_Name := ''Boost control'',
        Command := True, Options := BoostOptions\<rparr>,
      Entity_zero\<lparr>Component := Button, Entity_Key := ''rtc_sync'', Entity_Name := ''Sync RTC now'',
        Command := True, PayloadPress := ''PRESS'', Category := ''diagnostic''\<rparr>]"

section \<open>discovery.go\<close>

definition DiscoveryTopic :: "ha_Config \<Rightarrow> string \<Rightarrow> string \<Rightarrow> string" where
  "DiscoveryTopic c component key =
     DiscoveryPrefix c @ ''/'' @ component @ ''/'' @ Serial c @ ''_'' @ key @ ''/config''"

text \<open>An optional key of the payload map.\<close>

definition when_set :: "bool \<Rightarrow> string \<Rightarrow> jany \<Rightarrow> (string \<times> jany) list" where
  "when_set c k v = (if c then [(k, v)] else [])"

definition buildEntityPayload :: "ha_Config \<Rightarrow> Entity \<Rightarrow> jany \<Rightarrow> jany" where
  "buildEntityPayload c e device =
     (let oid = objectID c (Entity_Key e);
          val = JStr (''{{ value_json.'' @ Entity_Key e @ '' }}'')
      in JMap
        ([(''~'', JStr (BaseTopic c)),
          (''name'', JStr (Entity_Name e)),
          (''unique_id'', JStr (Serial c @ ''_'' @ Entity_Key e)),
          (''object_id'', JStr oid),
          (''default_entity_id'', JStr (Component e @ ''.'' @ oid)),
          (''availability_topic'', JStr ''~/availability''),
          (''payload_available'', JStr ''online''),
          (''payload_not_available'', JStr ''offline''),
          (''device'', device)]
         @ when_set (DeviceClass e \<noteq> []) ''device_class'' (JStr (DeviceClass e))
         @ when_set (StateClass e \<noteq> []) ''state_class'' (JStr (StateClass e))
         @ when_set (Unit e \<noteq> []) ''unit_of_measurement'' (JStr (Unit e))
         @ when_set (Category e \<noteq> []) ''entity_category'' (JStr (Category e))
         @ when_set (Precision e > 0) ''suggested_display_precision'' (JNum (Precision e))
         @ when_set (Command e) ''command_topic'' (JStr (''~/'' @ Entity_Key e @ ''/set''))
         @ (if Component e = BinarySensor then
              [(''state_topic'', JStr ''~/state''), (''payload_on'', JStr ''ON''), (''payload_off'', JStr ''OFF''),
               (''value_template'', JStr ([CHR ''{'', CHR ''{'', CHR '' '', CHR 0x27] @ ''ON'' @ [CHR 0x27] @ '' if value_json.''
                  @ Entity_Key e @ '' else '' @ [CHR 0x27] @ ''OFF'' @ [CHR 0x27] @ '' }}''))]
            else if Component e = Select then
              [(''state_topic'', JStr ''~/state''), (''options'', JArr (map JStr (Options e))), (''value_template'', val)]
            else if Component e = Number then
              [(''state_topic'', JStr ''~/state''), (''min'', JFloat (Entity_Min e)), (''max'', JFloat (Entity_Max e)),
               (''step'', JFloat (Entity_Step e)), (''mode'', JStr (Entity_Mode e)), (''value_template'', val)]
            else if Component e = Button then
              [(''payload_press'', JStr (PayloadPress e))]
            else
              [(''state_topic'', JStr ''~/state''), (''value_template'', val)])))"

fun BuildDiscovery_loop :: "ha_Config \<Rightarrow> jany \<Rightarrow> Entity list \<Rightarrow> Message list \<Rightarrow> Message list result" where
  "BuildDiscovery_loop c device [] msgs = Inr msgs"
| "BuildDiscovery_loop c device (e # es) msgs =
     (if Command e \<and> \<not> ControlsEnabled c then BuildDiscovery_loop c device es msgs
      else
        (case json_Marshal (buildEntityPayload c e device) of
           Inl err \<Rightarrow> Inl (Wrap (''marshal discovery for '' @ Entity_Key e) err)
         | Inr body \<Rightarrow>
             BuildDiscovery_loop c device es
               (msgs @ [\<lparr>Topic = DiscoveryTopic c (Component e) (Entity_Key e), Payload = body\<rparr>])))"

definition BuildDiscovery :: "ha_Config \<Rightarrow> Message list result" where
  "BuildDiscovery c =
     (let device = JMap [(''identifiers'', JArr [JStr (Serial c)]), (''manufacturer'', JStr Manufacturer),
                         (''model'', JStr Model), (''name'', JStr DeviceName)]
      in BuildDiscovery_loop c device Entities [])"

definition BuildDiscoveryRemovals :: "ha_Config \<Rightarrow> Message list" where
  "BuildDiscoveryRemovals c =
     [\<lparr>Topic = DiscoveryTopic c Switch ''optimal_income'', Payload = Bytes []\<rparr>]"

section \<open>state.go\<close>

record State =
  st_BatteryVoltage :: float64
  st_BatteryCurrent :: float64
  st_BatteryPower :: float64
  st_BatteryChargePower :: float64
  st_BatteryDischargePower :: float64
  st_BatteryCharging :: bool
  st_BatterySOC :: float64
  st_BatterySOH :: float64
  st_BMSVoltage :: float64
  st_BMSCurrent :: float64
  st_BMSChargeCurrentLimit :: float64
  st_BMSDischargeCurrentLimit :: float64
  st_BMSFault1 :: u16
  st_BMSFault2 :: u16
  st_BMSOverVoltage :: bool
  st_BMSUnderVoltage :: bool
  st_BMSOverTemp :: bool
  st_BMSUnderTemp :: bool
  st_BMSChargeOverTemp :: bool
  st_BMSChargeUnderTemp :: bool
  st_BMSDischargeOverCurrent :: bool
  st_BMSChargeOverCurrent :: bool
  st_BMSInternalProtection :: bool
  st_BMSModuleUnbalanced :: bool
  st_OverdischargeSOC :: float64
  st_ForceChargeSOC :: float64
  st_PV1Voltage :: float64
  st_PV1Current :: float64
  st_PV2Voltage :: float64
  st_PV2Current :: float64
  st_PVTotalPower :: float64
  st_GridPower :: float64
  st_GridTotalImport :: float64
  st_GridImportToday :: float64
  st_GridTotalExport :: float64
  st_GridExportToday :: float64
  st_ACActivePower :: float64
  st_InverterTemperature :: float64
  st_GridFrequency :: float64
  st_HouseLoad :: float64
  st_GenerationToday :: float64
  st_GenerationYesterday :: float64
  st_BatteryTotalCharge :: float64
  st_BatteryChargeToday :: float64
  st_BatteryTotalDischarge :: float64
  st_BatteryDischargeToday :: float64
  st_Status :: u16
  st_StatusText :: string
  st_OperatingStatus :: u16
  st_WorkMode :: string
  st_RTC :: string
  st_RTCDrift :: float64
  st_TouWindow :: "string option"
  st_Boost :: string
  st_BoostEndsAt :: "string option"
  st_BoostSelect :: "string option"
  st_SetChargeCurrent :: float64
  st_SetDischargeCurrent :: float64
  st_InverterMaxChargeCurrent :: float64
  st_InverterMaxDischargeCurrent :: float64
  st_OptimalIncome :: string

text \<open>The struct as \<open>json.Marshal\<close> sees it: a member per field, under its tag, a \<open>nil\<close> pointer as null.\<close>

definition json_string_ptr :: "string option \<Rightarrow> jany" where
  "json_string_ptr p = (case p of None \<Rightarrow> JNil | Some s \<Rightarrow> JStr s)"

definition State_members :: "State \<Rightarrow> (string \<times> jany) list" where
  "State_members s =
     [(''battery_voltage'', JFloat (st_BatteryVoltage s)),
      (''battery_current'', JFloat (st_BatteryCurrent s)),
      (''battery_power'', JFloat (st_BatteryPower s)),
      (''battery_charge_power'', JFloat (st_BatteryChargePower s)),
      (''battery_discharge_power'', JFloat (st_BatteryDischargePower s)),
      (''battery_charging'', JFlag (st_BatteryCharging s)),
      (''battery_soc'', JFloat (st_BatterySOC s)),
      (''battery_soh'', JFloat (st_BatterySOH s)),
      (''bms_voltage'', JFloat (st_BMSVoltage s)),
      (''bms_current'', JFloat (st_BMSCurrent s)),
      (''bms_charge_current_limit'', JFloat (st_BMSChargeCurrentLimit s)),
      (''bms_discharge_current_limit'', JFloat (st_BMSDischargeCurrentLimit s)),
      (''bms_fault_1'', JNum (uint (st_BMSFault1 s))),
      (''bms_fault_2'', JNum (uint (st_BMSFault2 s))),
      (''bms_over_voltage'', JFlag (st_BMSOverVoltage s)),
      (''bms_under_voltage'', JFlag (st_BMSUnderVoltage s)),
      (''bms_over_temp'', JFlag (st_BMSOverTemp s)),
      (''bms_under_temp'', JFlag (st_BMSUnderTemp s)),
      (''bms_charge_over_temp'', JFlag (st_BMSChargeOverTemp s)),
      (''bms_charge_under_temp'', JFlag (st_BMSChargeUnderTemp s)),
      (''bms_discharge_over_current'', JFlag (st_BMSDischargeOverCurrent s)),
      (''bms_charge_over_current'', JFlag (st_BMSChargeOverCurrent s)),
      (''bms_internal_protection'', JFlag (st_BMSInternalProtection s)),
      (''bms_module_unbalanced'', JFlag (st_BMSModuleUnbalanced s)),
      (''overdischarge_soc'', JFloat (st_OverdischargeSOC s)),
      (''force_charge_soc'', JFloat (st_ForceChargeSOC s)),
      (''pv1_voltage'', JFloat (st_PV1Voltage s)),
      (''pv1_current'', JFloat (st_PV1Current s)),
      (''pv2_voltage'', JFloat (st_PV2Voltage s)),
      (''pv2_current'', JFloat (st_PV2Current s)),
      (''pv_total_power'', JFloat (st_PVTotalPower s)),
      (''grid_power'', JFloat (st_GridPower s)),
      (''grid_total_import'', JFloat (st_GridTotalImport s)),
      (''grid_import_today'', JFloat (st_GridImportToday s)),
      (''grid_total_export'', JFloat (st_GridTotalExport s)),
      (''grid_export_today'', JFloat (st_GridExportToday s)),
      (''ac_active_power'', JFloat (st_ACActivePower s)),
      (''inverter_temperature'', JFloat (st_InverterTemperature s)),
      (''grid_frequency'', JFloat (st_GridFrequency s)),
      (''house_load'', JFloat (st_HouseLoad s)),
      (''generation_today'', JFloat (st_GenerationToday s)),
      (''generation_yesterday'', JFloat (st_GenerationYesterday s)),
      (''battery_total_charge'', JFloat (st_BatteryTotalCharge s)),
      (''battery_charge_today'', JFloat (st_BatteryChargeToday s)),
      (''battery_total_discharge'', JFloat (st_BatteryTotalDischarge s)),
      (''battery_discharge_today'', JFloat (st_BatteryDischargeToday s)),
      (''status'', JNum (uint (st_Status s))),
      (''status_text'', JStr (st_StatusText s)),
      (''operating_status'', JNum (uint (st_OperatingStatus s))),
      (''work_mode'', JStr (st_WorkMode s)),
      (''rtc'', JStr (st_RTC s)),
      (''rtc_drift'', JFloat (st_RTCDrift s)),
      (''tou_window'', json_string_ptr (st_TouWindow s)),
      (''boost'', JStr (st_Boost s)),
      (''boost_ends_at'', json_string_ptr (st_BoostEndsAt s)),
      (''boost_select'', json_string_ptr (st_BoostSelect s)),
      (''set_charge_current'', JFloat (st_SetChargeCurrent s)),
      (''set_discharge_current'', JFloat (st_SetDischargeCurrent s)),
      (''inverter_max_charge_current'', JFloat (st_InverterMaxChargeCurrent s)),
      (''inverter_max_discharge_current'', JFloat (st_InverterMaxDischargeCurrent s)),
      (''optimal_income'', JStr (st_OptimalIncome s))]"

record ha_Setpoints =
  ha_SetChargeCurrent :: float64
  ha_SetDischargeCurrent :: float64
  ha_MaxChargeCurrent :: float64
  ha_MaxDischargeCurrent :: float64
  ha_OptimalIncome :: bool
  ha_Slots :: TimedSlots
  ha_BoostEndsAt :: Time

definition splitBatteryPower :: "float64 \<Rightarrow> float64 \<times> float64" where
  "splitBatteryPower powerW = (fmax powerW (Fin False 0), fmax (fneg powerW) (Fin False 0))"

definition touWindowLabel :: "TimedSlots \<Rightarrow> string option" where
  "touWindowLabel slots =
     (case ToU slots of None \<Rightarrow> None | Some window \<Rightarrow> Some (FormatWindow window))"

definition timestampLabel :: "Time \<Rightarrow> string option" where
  "timestampLabel moment = (if Time_IsZero moment then None else Some (RFC3339 moment))"

definition workModeLabel :: "WorkMode \<Rightarrow> string" where
  "workModeLabel w =
     (if SelfUse w then ''Self Use''
      else
        (let flags = [];
             flags = (if Timed w then flags @ [''timed''] else flags);
             flags = (if AllowGridCharge w then flags @ [''allow_grid_charge''] else flags)
         in if length flags = 0 then fmt_nat (unat (WorkMode_Raw w)) else Join flags ''+''))"

text \<open>\<open>Duration.Seconds\<close>: whole seconds and the rest of a second, each cut towards zero.\<close>

definition Duration_Seconds :: "Duration \<Rightarrow> float64" where
  "Duration_Seconds d =
     (let sec = sgn d * (\<bar>d\<bar> div 1000000000); nsec = sgn d * (\<bar>d\<bar> mod 1000000000)
      in fadd (float64_of_int sec) (fdiv (float64_of_int nsec) (Fin False 1000000000)))"

definition State_of :: "Telemetry \<Rightarrow> Duration \<Rightarrow> ha_Setpoints \<Rightarrow> State" where
  "State_of t drift sp =
     (let optimalIncome = (if ha_OptimalIncome sp then ''Run'' else ''Stop'');
          (chargeW, dischargeW) = splitBatteryPower (Battery_PowerW (Telemetry_Battery t))
      in \<lparr>st_BatteryVoltage = VoltageV (Telemetry_Battery t),
              st_BatteryCurrent = CurrentA (Telemetry_Battery t),
              st_BatteryPower = Battery_PowerW (Telemetry_Battery t),
              st_BatteryChargePower = chargeW,
              st_BatteryDischargePower = dischargeW,
              st_BatteryCharging = Charging (Telemetry_Battery t),
              st_BatterySOC = SOCPercent (Telemetry_Battery t),
              st_BatterySOH = SOHPercent (Telemetry_Battery t),
              st_BMSVoltage = BMSVoltageV (Telemetry_Battery t),
              st_BMSCurrent = BMSCurrentA (Telemetry_Battery t),
              st_BMSChargeCurrentLimit = BMSChargeCurrentLimitA (Telemetry_Battery t),
              st_BMSDischargeCurrentLimit = BMSDischargeCurrentLimitA (Telemetry_Battery t),
              st_BMSFault1 = BMSFault1_Raw (Battery_BMSFault1 (Telemetry_Battery t)),
              st_BMSFault2 = BMSFault2_Raw (Battery_BMSFault2 (Telemetry_Battery t)),
              st_BMSOverVoltage = OverVoltage (Battery_BMSFault1 (Telemetry_Battery t)),
              st_BMSUnderVoltage = UnderVoltage (Battery_BMSFault1 (Telemetry_Battery t)),
              st_BMSOverTemp = OverTemp (Battery_BMSFault1 (Telemetry_Battery t)),
              st_BMSUnderTemp = UnderTemp (Battery_BMSFault1 (Telemetry_Battery t)),
              st_BMSChargeOverTemp = ChargeOverTemp (Battery_BMSFault1 (Telemetry_Battery t)),
              st_BMSChargeUnderTemp = ChargeUnderTemp (Battery_BMSFault1 (Telemetry_Battery t)),
              st_BMSDischargeOverCurrent = DischargeOverCurrent (Battery_BMSFault1 (Telemetry_Battery t)),
              st_BMSChargeOverCurrent = ChargeOverCurrent (Battery_BMSFault2 (Telemetry_Battery t)),
              st_BMSInternalProtection = BMSInternal (Battery_BMSFault2 (Telemetry_Battery t)),
              st_BMSModuleUnbalanced = ModuleUnbalanced (Battery_BMSFault2 (Telemetry_Battery t)),
              st_OverdischargeSOC = OverdischargeSOCPercent (Telemetry_Battery t),
              st_ForceChargeSOC = ForceChargeSOCPercent (Telemetry_Battery t),
              st_PV1Voltage = PV1VoltageV (Telemetry_PV t),
              st_PV1Current = PV1CurrentA (Telemetry_PV t),
              st_PV2Voltage = PV2VoltageV (Telemetry_PV t),
              st_PV2Current = PV2CurrentA (Telemetry_PV t),
              st_PVTotalPower = TotalPowerW (Telemetry_PV t),
              st_GridPower = Grid_PowerW (Telemetry_Grid t),
              st_GridTotalImport = TotalImportKWh (Telemetry_Grid t),
              st_GridImportToday = ImportTodayKWh (Telemetry_Grid t),
              st_GridTotalExport = TotalExportKWh (Telemetry_Grid t),
              st_GridExportToday = ExportTodayKWh (Telemetry_Grid t),
              st_ACActivePower = ActivePowerW (Telemetry_AC t),
              st_InverterTemperature = TemperatureC (Telemetry_AC t),
              st_GridFrequency = FrequencyHz (Telemetry_AC t),
              st_HouseLoad = HouseLoadW (Telemetry_AC t),
              st_GenerationToday = GenerationTodayKWh (Telemetry_Energy t),
              st_GenerationYesterday = GenerationYesterdayKWh (Telemetry_Energy t),
              st_BatteryTotalCharge = BatteryTotalChargeKWh (Telemetry_Energy t),
              st_BatteryChargeToday = BatteryChargeTodayKWh (Telemetry_Energy t),
              st_BatteryTotalDischarge = BatteryTotalDischargeKWh (Telemetry_Energy t),
              st_BatteryDischargeToday = BatteryDischargeTodayKWh (Telemetry_Energy t),
              st_Status = Status (Telemetry_System t),
              st_StatusText = StatusLabel (Status (Telemetry_System t)),
              st_OperatingStatus = OperatingStatus (Telemetry_System t),
              st_WorkMode = workModeLabel (System_WorkMode (Telemetry_System t)),
              st_RTC = RFC3339 (Telemetry_Time t),
              st_RTCDrift = Duration_Seconds drift,
              st_TouWindow = touWindowLabel (ha_Slots sp),
              st_Boost = Boost_String (BoostOf (ha_Slots sp)),
              st_BoostEndsAt = timestampLabel (ha_BoostEndsAt sp),
              st_BoostSelect = BoostSelectState (ha_Slots sp),
              st_SetChargeCurrent = ha_SetChargeCurrent sp,
              st_SetDischargeCurrent = ha_SetDischargeCurrent sp,
              st_InverterMaxChargeCurrent = ha_MaxChargeCurrent sp,
              st_InverterMaxDischargeCurrent = ha_MaxDischargeCurrent sp,
              st_OptimalIncome = optimalIncome\<rparr>)"

definition BuildState :: "ha_Config \<Rightarrow> Telemetry \<Rightarrow> Duration \<Rightarrow> ha_Setpoints \<Rightarrow> Message result" where
  "BuildState c t drift sp =
     (case json_Marshal (JMap (State_members (State_of t drift sp))) of
        Inl err \<Rightarrow> Inl (Wrap ''marshal state'' err)
      | Inr body \<Rightarrow> Inr \<lparr>Topic = StateTopic c, Payload = body\<rparr>)"

section \<open>The catalogue and the state document\<close>

definition state_keys :: "string list" where
  "state_keys = map Entity_Key (filter (\<lambda>e. Component e \<noteq> Button) Entities)"

text \<open>The tags, in the order of the struct; they do not depend on the values.\<close>

definition state_tags :: "string list" where
  "state_tags = map fst (State_members (State_of undefined undefined undefined))"

lemma state_tags_eq: "map fst (State_members s) = state_tags"
  by (simp add: state_tags_def State_members_def)

lemma state_tags_list:
  "state_tags = [''battery_voltage'', ''battery_current'', ''battery_power'', ''battery_charge_power'', ''battery_discharge_power'',
     ''battery_charging'', ''battery_soc'', ''battery_soh'', ''bms_voltage'', ''bms_current'', ''bms_charge_current_limit'',
     ''bms_discharge_current_limit'', ''bms_fault_1'', ''bms_fault_2'', ''bms_over_voltage'', ''bms_under_voltage'',
     ''bms_over_temp'', ''bms_under_temp'', ''bms_charge_over_temp'', ''bms_charge_under_temp'', ''bms_discharge_over_current'',
     ''bms_charge_over_current'', ''bms_internal_protection'', ''bms_module_unbalanced'', ''overdischarge_soc'',
     ''force_charge_soc'', ''pv1_voltage'', ''pv1_current'', ''pv2_voltage'', ''pv2_current'', ''pv_total_power'',
     ''grid_power'', ''grid_total_import'', ''grid_import_today'', ''grid_total_export'', ''grid_export_today'',
     ''ac_active_power'', ''inverter_temperature'', ''grid_frequency'', ''house_load'', ''generation_today'',
     ''generation_yesterday'', ''battery_total_charge'', ''battery_charge_today'', ''battery_total_discharge'',
     ''battery_discharge_today'', ''status'', ''status_text'', ''operating_status'', ''work_mode'', ''rtc'',
     ''rtc_drift'', ''tou_window'', ''boost'', ''boost_ends_at'', ''boost_select'', ''set_charge_current'',
     ''set_discharge_current'', ''inverter_max_charge_current'', ''inverter_max_discharge_current'', ''optimal_income'']"
  by (simp add: state_tags_def State_members_def)



lemmas component_defs = Sensor_def BinarySensor_def Number_def Switch_def Select_def Button_def

text \<open>The keys of the catalogue, as a list of literals.\<close>

lemma entity_keys_list:
  "map Entity_Key Entities = [''battery_voltage'', ''battery_current'', ''battery_power'', ''battery_charge_power'', ''battery_discharge_power'',
     ''battery_charging'', ''battery_soc'', ''battery_soh'', ''bms_voltage'', ''bms_current'', ''bms_charge_current_limit'',
     ''bms_discharge_current_limit'', ''bms_fault_1'', ''bms_fault_2'', ''bms_over_voltage'', ''bms_under_voltage'',
     ''bms_over_temp'', ''bms_under_temp'', ''bms_charge_over_temp'', ''bms_charge_under_temp'', ''bms_discharge_over_current'',
     ''bms_charge_over_current'', ''bms_internal_protection'', ''bms_module_unbalanced'', ''overdischarge_soc'',
     ''force_charge_soc'', ''pv1_voltage'', ''pv1_current'', ''pv2_voltage'', ''pv2_current'', ''pv_total_power'',
     ''grid_power'', ''grid_total_import'', ''grid_import_today'', ''grid_total_export'', ''grid_export_today'',
     ''ac_active_power'', ''inverter_temperature'', ''grid_frequency'', ''house_load'', ''generation_today'',
     ''generation_yesterday'', ''battery_total_charge'', ''battery_charge_today'', ''battery_total_discharge'',
     ''battery_discharge_today'', ''status'', ''status_text'', ''operating_status'', ''work_mode'', ''rtc'',
     ''rtc_drift'', ''tou_window'', ''boost'', ''boost_ends_at'', ''inverter_max_charge_current'', ''inverter_max_discharge_current'',
     ''set_charge_current'', ''set_discharge_current'', ''optimal_income'', ''boost_select'', ''rtc_sync'']"
  by (simp add: Entities_def Entity_zero_def)

lemma buttons: "map (\<lambda>e. Component e = Button) Entities = replicate 61 False @ [True]"
  by (simp add: Entities_def Entity_zero_def component_defs eval_nat_numeral)

lemma catalogue_split:
  obtains es e where "Entities = es @ [e]" "\<forall>x \<in> set es. Component x \<noteq> Button" "Component e = Button"
proof -
  let ?b = "\<lambda>e. Component e = Button"
  have "\<exists>es zs. Entities = es @ zs \<and> replicate 61 False = map ?b es \<and> [True] = map ?b zs"
    by (rule iffD1 [OF map_eq_append_conv buttons])
  then obtain es zs where E: "Entities = es @ zs" "replicate 61 False = map ?b es" "[True] = map ?b zs"
    by (elim exE conjE)
  have "\<not> ?b x" if "x \<in> set es" for x
  proof -
    have "?b x \<in> set (map ?b es)" using that by simp
    then show ?thesis unfolding E(2) [symmetric] in_set_replicate by simp
  qed
  moreover obtain e where "zs = [e]" "?b e" using E(3) by (cases zs) simp_all
  ultimately show ?thesis using E(1) by (intro that [of es e]) simp_all
qed

lemma state_keys_eq: "state_keys = butlast (map Entity_Key Entities)" "last (map Entity_Key Entities) = ''rtc_sync''"
proof -
  obtain es e where E: "Entities = es @ [e]" "\<forall>x \<in> set es. Component x \<noteq> Button" "Component e = Button"
    by (rule catalogue_split)
  then have "filter (\<lambda>e. Component e \<noteq> Button) es = es" by simp
  with E(3) show "state_keys = butlast (map Entity_Key Entities)"
    unfolding state_keys_def E(1) by simp
  show "last (map Entity_Key Entities) = ''rtc_sync''" unfolding entity_keys_list by simp
qed

lemma entity_keys_distinct: "distinct (map Entity_Key Entities)"
  unfolding entity_keys_list by simp

text \<open>The two lists differ in the order of their last six entries only.\<close>

lemma state_tags_set: "set state_tags = set state_keys"
proof -
  have A: "state_tags = take 55 state_tags @ drop 55 state_tags" "state_keys = take 55 state_keys @ drop 55 state_keys"
    by simp_all
  have B: "take 55 state_tags = take 55 state_keys"
    unfolding state_tags_list state_keys_eq(1) entity_keys_list by simp
  have C: "drop 55 state_tags = [''boost_select'', ''set_charge_current'', ''set_discharge_current'',
      ''inverter_max_charge_current'', ''inverter_max_discharge_current'', ''optimal_income'']"
    unfolding state_tags_list by simp
  have D: "drop 55 state_keys = [''inverter_max_charge_current'', ''inverter_max_discharge_current'',
      ''set_charge_current'', ''set_discharge_current'', ''optimal_income'', ''boost_select'']"
    unfolding state_keys_eq(1) entity_keys_list by simp
  show ?thesis by (subst A(1), subst A(2), subst B, subst C, subst D) auto
qed

lemma state_tags_distinct: "distinct state_tags"
proof -
  have "length state_tags = length state_keys" unfolding state_tags_list state_keys_eq(1) entity_keys_list by simp
  moreover have "distinct state_keys" unfolding state_keys_eq(1) using entity_keys_distinct by (rule distinct_butlast)
  ultimately show ?thesis using state_tags_set by (metis card_distinct distinct_card)
qed

section \<open>Finite readings\<close>

lemma uint_u32_le: "uint (w :: u32) \<le> 2 ^ 32" "\<bar>sint (w :: u32)\<bar> \<le> 2 ^ 64" "\<bar>uint (w :: u32)\<bar> \<le> 2 ^ 64"
  using uint_u32_bounds [of w] sint_u32_bound [of w] by simp_all

lemma uint_u16_le: "\<bar>uint (w :: u16)\<bar> \<le> 2 ^ 64" "\<bar>sint (w :: u16)\<bar> \<le> 2 ^ 64"
proof -
  have "- (2 ^ 15) \<le> sint w" "sint w < 2 ^ 15" using sint_greater_eq [of w] sint_less [of w] by simp_all
  then show "\<bar>sint w\<bar> \<le> 2 ^ 64" by simp
  show "\<bar>uint w\<bar> \<le> 2 ^ 64" using uint_lt [of w] by simp
qed

lemma fdiv_within:
  assumes "fin_within (2 ^ 66) x" "1 \<le> d" "d \<le> 2 ^ 64"
  shows "fin_within (2 ^ 68) (fdiv x (Fin False d))"
proof (cases x)
  case (Fin s m)
  have "m / d \<le> m / 1" using assms Fin by (intro divide_left_mono) (auto simp: fin_within_def)
  then have "fin_within (2 * 2 ^ 66 + 1) (fl s (m / d))"
    using assms Fin power_increasing [of 66 1000 "2 :: rat"]
    by (intro fl_within) (auto simp: fin_within_def)
  then show ?thesis using Fin assms(2) by (auto intro: fin_within_mono)
qed (use assms in \<open>auto simp: fin_within_def\<close>)

lemma finite_of_int:
  assumes "\<bar>i\<bar> \<le> 2 ^ 64"
  shows "IsFinite (float64_of_int i)" "IsFinite (div10 (float64_of_int i))" "IsFinite (div100 (float64_of_int i))"
proof -
  note W = float64_of_int_within [OF assms]
  show "IsFinite (float64_of_int i)" by (rule fin_within_finite [OF W])
  show "IsFinite (div10 (float64_of_int i))" unfolding div10_def by (rule fin_within_finite [OF fdiv_within [OF W]]) simp_all
  show "IsFinite (div100 (float64_of_int i))" unfolding div100_def by (rule fin_within_finite [OF fdiv_within [OF W]]) simp_all
qed

lemma finite_conv [simp]:
  "IsFinite (funsigned (w :: u16))" "IsFinite (funsigned (v :: u32))" "IsFinite (fsigned (v :: u32))"
  "IsFinite (div10 (funsigned (w :: u16)))" "IsFinite (div10 (fsigned (w :: u16)))" "IsFinite (div100 (funsigned (w :: u16)))"
  unfolding funsigned_def fsigned_def by (rule finite_of_int uint_u16_le uint_u32_le)+

lemma finite_signed [simp]: "IsFinite x \<Longrightarrow> IsFinite (signedByDirection x c)"
  by (cases x) (auto simp: signedByDirection_def Let_def)

lemma finite_max [simp]: "IsFinite x \<Longrightarrow> IsFinite y \<Longrightarrow> IsFinite (fmax x y)"
  by (auto simp: fmax_def IsFinite_def IsNaN_def split: float64.splits)

lemma finite_neg [simp]: "IsFinite (fneg x) = IsFinite x"
  by (cases x) auto

lemma finite_seconds:
  assumes "\<bar>d\<bar> \<le> 2 ^ 63"
  shows "IsFinite (Duration_Seconds d)"
proof -
  define sec nsec where "sec = sgn d * (\<bar>d\<bar> div 1000000000)" and "nsec = sgn d * (\<bar>d\<bar> mod 1000000000)"
  have "\<bar>d\<bar> div 1000000000 \<le> \<bar>d\<bar>" "0 \<le> \<bar>d\<bar> div 1000000000" "\<bar>d\<bar> mod 1000000000 \<le> 1000000000"
    by (simp_all add: div_le_dividend zdiv_mono2 order.trans [OF zdiv_mono2 [of "\<bar>d\<bar>" 1 1000000000]])
  then have le: "\<bar>sec\<bar> \<le> 2 ^ 64" "\<bar>nsec\<bar> \<le> 2 ^ 64"
    using assms by (auto simp: sec_def nsec_def abs_mult sgn_if)
  have "fin_within (2 ^ 68) (fdiv (float64_of_int nsec) (Fin False 1000000000))"
    by (rule fdiv_within [OF float64_of_int_within [OF le(2)]]) simp_all
  with float64_of_int_within [OF le(1)]
  obtain s a t b where ab: "float64_of_int sec = Fin s a" "0 \<le> a" "a \<le> 2 ^ 66"
    "fdiv (float64_of_int nsec) (Fin False 1000000000) = Fin t b" "0 \<le> b" "b \<le> 2 ^ 68"
    by (auto simp: fin_within_def split: float64.splits)
  define v where "v = (if s then - a else a) + (if t then - b else b)"
  have "\<bar>v\<bar> \<le> 2 ^ 70" using ab by (auto simp: v_def abs_le_iff)
  then have "IsFinite (fl (v < 0) \<bar>v\<bar>)"
    using power_increasing [of 70 1000 "2 :: rat"] by (intro fin_within_finite [OF fl_within [of _ "2 ^ 70"]]) auto
  then show ?thesis
    by (simp add: Duration_Seconds_def sec_def [symmetric] nsec_def [symmetric] ab v_def [symmetric] Let_def)
qed

definition finite_setpoints :: "ha_Setpoints \<Rightarrow> bool" where
  "finite_setpoints sp \<longleftrightarrow> IsFinite (ha_SetChargeCurrent sp) \<and> IsFinite (ha_SetDischargeCurrent sp) \<and>
     IsFinite (ha_MaxChargeCurrent sp) \<and> IsFinite (ha_MaxDischargeCurrent sp)"

lemma marshals_string_ptr [simp]: "marshals (json_string_ptr p)"
  by (cases p) (simp_all add: json_string_ptr_def)

lemma State_of_marshals:
  assumes "\<bar>drift\<bar> \<le> 2 ^ 63" "finite_setpoints sp"
  shows "marshals (JMap (State_members (State_of (telemetry_of local bk) drift sp)))"
  using finite_seconds [OF assms(1)] assms(2)
  by (simp add: State_of_def State_members_def Let_def splitBatteryPower_def telemetry_of_def finite_setpoints_def)

lemma splitBatteryPower_Fin:
  "0 \<le> m \<Longrightarrow> splitBatteryPower (Fin s m) = (if s then (Fin False 0, Fin False m) else (Fin False m, Fin False 0))"
  by (auto simp: splitBatteryPower_def fmax_def IsNaN_def)

section \<open>Discovery\<close>

lemma marshals_entity: "e \<in> set Entities \<Longrightarrow> marshals device \<Longrightarrow> marshals (buildEntityPayload c e device)"
proof -
  have "list_all (\<lambda>e. IsFinite (Entity_Min e) \<and> IsFinite (Entity_Max e) \<and> IsFinite (Entity_Step e)) Entities"
    using fl_small [of "1 / 10" False] by (simp add: Entities_def Entity_zero_def)
  then show "e \<in> set Entities \<Longrightarrow> marshals device \<Longrightarrow> marshals (buildEntityPayload c e device)"
    by (auto simp: list_all_iff buildEntityPayload_def Let_def when_set_def)
qed

text \<open>The entities that are announced, and the message of each.\<close>

definition announced :: "ha_Config \<Rightarrow> Entity list" where
  "announced c = filter (\<lambda>e. Command e \<longrightarrow> ControlsEnabled c) Entities"

lemma BuildDiscovery_loop_ok:
  assumes "\<forall>e \<in> set es. marshals (buildEntityPayload c e device)"
  shows "BuildDiscovery_loop c device es msgs = Inr (msgs @
    map (\<lambda>e. \<lparr>Topic = DiscoveryTopic c (Component e) (Entity_Key e), Payload = Json (buildEntityPayload c e device)\<rparr>)
      (filter (\<lambda>e. Command e \<longrightarrow> ControlsEnabled c) es))"
  using assms by (induction es arbitrary: msgs) (auto simp: json_Marshal_def)

lemma BuildDiscovery_topics:
  obtains msgs where "BuildDiscovery c = Inr msgs"
    "map Topic msgs = map (\<lambda>e. DiscoveryTopic c (Component e) (Entity_Key e)) (announced c)"
    "\<forall>m \<in> set msgs. \<not> payload_empty (Payload m)"
proof -
  let ?device = "JMap [(''identifiers'', JArr [JStr (Serial c)]), (''manufacturer'', JStr Manufacturer),
    (''model'', JStr Model), (''name'', JStr DeviceName)]"
  have "\<forall>e \<in> set Entities. marshals (buildEntityPayload c e ?device)"
    by (intro ballI marshals_entity) simp_all
  from BuildDiscovery_loop_ok [OF this, of "[]"] show ?thesis
    by (intro that) (auto simp: BuildDiscovery_def announced_def payload_empty_def comp_def)
qed

lemma components_plain: "list_all (\<lambda>e. CHR ''/'' \<notin> set (Component e)) Entities" "CHR ''/'' \<notin> set Switch"
  by (simp_all add: Entities_def Entity_zero_def component_defs)

lemma DiscoveryTopic_inject:
  assumes "CHR ''/'' \<notin> set a" "CHR ''/'' \<notin> set b"
  shows "DiscoveryTopic c a k = DiscoveryTopic c b l \<longleftrightarrow> a = b \<and> k = l"
proof
  assume "DiscoveryTopic c a k = DiscoveryTopic c b l"
  then have "Cut (CHR ''/'') (a @ CHR ''/'' # Serial c @ ''_'' @ k) = Cut (CHR ''/'') (b @ CHR ''/'' # Serial c @ ''_'' @ l)"
    by (simp add: DiscoveryTopic_def)
  then show "a = b \<and> k = l" using assms by (simp add: Cut_append)
qed simp

lemma no_switch: "list_all (\<lambda>e. Component e \<noteq> Switch) Entities"
  by (simp add: Entities_def Entity_zero_def component_defs)

section \<open>Selects\<close>

lemma selects: "filter (\<lambda>e. Component e = Select) Entities =
    [Entity_zero\<lparr>Component := Select, Entity_Key := ''optimal_income'', Entity_Name := ''Optimal income'',
       Command := True, Options := [''Run'', ''Stop'']\<rparr>,
     Entity_zero\<lparr>Component := Select, Entity_Key := ''boost_select'', Entity_Name := ''Boost control'',
       Command := True, Options := BoostOptions\<rparr>]"
  by (simp add: Entities_def Entity_zero_def component_defs)

lemma State_member:
  "map_of (State_members s) ''optimal_income'' = Some (JStr (st_OptimalIncome s))"
  "map_of (State_members s) ''boost_select'' = Some (json_string_ptr (st_BoostSelect s))"
  by (simp_all add: State_members_def)


lemma BoostSelectState_option: "BoostSelectState slots = Some s \<Longrightarrow> s \<in> set BoostOptions"
proof -
  assume A: "BoostSelectState slots = Some s"
  have "Boost_Mode (BoostOf slots) \<in> {Off, ModeCharge, ModeDischarge}" by (auto simp: BoostOf_def Let_def)
  with A show ?thesis
    by (auto simp: BoostSelectState_def Let_def BoostOptions_eq boostCandidates_def split: if_splits)
qed

section \<open>Properties\<close>

text \<open>
  C40: the state document of any decoded reading can be built: whatever words the inverter returns,
  every number in it has a JSON literal; it goes to the state topic with one member per tag.
\<close>

theorem state_document_total:
  assumes "\<bar>drift\<bar> \<le> 2 ^ 63" "finite_setpoints sp"
  shows "BuildState c (telemetry_of local bk) drift sp =
      Inr \<lparr>Topic = StateTopic c, Payload = Json (JMap (State_members (State_of (telemetry_of local bk) drift sp)))\<rparr>"
  using State_of_marshals [OF assms] by (simp add: BuildState_def json_Marshal_def del: marshals.simps)

theorem state_document_total_witness:
  "is_ok (BuildState \<lparr>DiscoveryPrefix = ''homeassistant'', TopicPrefix = ''solis'', Serial = ''1'', ObjectIDPrefix = '''', ControlsEnabled = True\<rparr>
     (telemetry_of UTC (\<lambda>_. 65535)) (- (2 ^ 63))
     \<lparr>ha_SetChargeCurrent = Fin False 0, ha_SetDischargeCurrent = Fin False 0, ha_MaxChargeCurrent = Fin False 0,
      ha_MaxDischargeCurrent = Fin False 0, ha_OptimalIncome = False,
      ha_Slots = \<lparr>Slot0 = TimedSlot_zero, Slot1 = TimedSlot_zero, Slot2 = TimedSlot_zero\<rparr>, ha_BoostEndsAt = Time_zero\<rparr>)"
  by (subst state_document_total) (simp_all add: finite_setpoints_def)

text \<open>
  The catalogue and the state document agree: every member of the document is read by exactly
  one entity, and every entity but the one button reads a member; keys and tags occur once.
\<close>

theorem entity_state_contract:
  "distinct (map Entity_Key Entities) \<and> distinct (map fst (State_members s)) \<and>
   set (map fst (State_members s)) = {Entity_Key e |e. e \<in> set Entities \<and> Component e \<noteq> Button} \<and>
   {Entity_Key e |e. e \<in> set Entities \<and> Component e = Button} = {''rtc_sync''}"
proof -
  obtain es e where E: "Entities = es @ [e]" "\<forall>x \<in> set es. Component x \<noteq> Button" "Component e = Button"
    by (rule catalogue_split)
  have "Entity_Key e = ''rtc_sync''" using state_keys_eq(2) unfolding E(1) by simp
  moreover have "set (map fst (State_members s)) = Entity_Key ` set es"
    unfolding state_tags_eq state_tags_set state_keys_eq(1) unfolding E(1) by (simp add: butlast_append)
  moreover have "{Entity_Key x |x. x \<in> set Entities \<and> Component x \<noteq> Button} = Entity_Key ` set es"
    unfolding E(1) using E(2,3) by auto
  moreover have "{Entity_Key x |x. x \<in> set Entities \<and> Component x = Button} = {Entity_Key e}"
    unfolding E(1) using E(2,3) by auto
  ultimately show ?thesis using entity_keys_distinct state_tags_distinct state_tags_eq by metis
qed

text \<open>
  Every entity that is announced has its own discovery topic and a document, commands only when
  the controls are enabled; the topics that are cleared are none of these.
\<close>

theorem discovery_contract:
  "\<exists>msgs. BuildDiscovery c = Inr msgs \<and>
     map Topic msgs = map (\<lambda>e. DiscoveryTopic c (Component e) (Entity_Key e))
       (filter (\<lambda>e. if Command e then ControlsEnabled c else True) Entities) \<and>
     distinct (map Topic msgs) \<and>
     (\<nexists>m. m \<in> set msgs \<and> payload_empty (Payload m)) \<and>
     set (map Topic msgs) \<inter> set (map Topic (BuildDiscoveryRemovals c)) = {}"
proof -
  obtain msgs where M: "BuildDiscovery c = Inr msgs"
    "map Topic msgs = map (\<lambda>e. DiscoveryTopic c (Component e) (Entity_Key e)) (announced c)"
    "\<forall>m \<in> set msgs. \<not> payload_empty (Payload m)" by (rule BuildDiscovery_topics)
  have A: "announced c = filter (\<lambda>e. if Command e then ControlsEnabled c else True) Entities"
    unfolding announced_def by (rule filter_cong) auto
  then have sub: "set (announced c) \<subseteq> set Entities" by simp
  have plain: "CHR ''/'' \<notin> set (Component e)" if "e \<in> set (announced c)" for e
    using components_plain(1) sub that by (auto simp: list_all_iff)
  have "distinct (map Entity_Key (announced c))"
    using entity_keys_distinct by (simp add: A distinct_map_filter)
  then have D: "distinct (map Topic msgs)"
    unfolding M(2) using DiscoveryTopic_inject [OF plain plain, of _ _ c]
    by (auto simp: distinct_map inj_on_def)
  have "DiscoveryTopic c (Component e) k \<noteq> DiscoveryTopic c Switch ''optimal_income''" if "e \<in> set (announced c)" for e k
    using DiscoveryTopic_inject [OF plain [OF that] components_plain(2), of c k] no_switch sub that
    by (auto simp: list_all_iff)
  then have "set (map Topic msgs) \<inter> set (map Topic (BuildDiscoveryRemovals c)) = {}"
    unfolding M(2) by (fastforce simp: BuildDiscoveryRemovals_def)
  with D M A show ?thesis by (intro exI [of _ msgs]) auto
qed

text \<open>
  The state a select publishes is null or one of the options it announces.
\<close>

theorem select_state_option:
  assumes "e \<in> set Entities" "Component e = Select"
    and "map_of (State_members (State_of t drift sp)) (Entity_Key e) = Some v"
  shows "v = JNil \<or> (\<exists>opt \<in> set (Options e). v = JStr opt)"
proof -
  have "e \<in> set (filter (\<lambda>e. Component e = Select) Entities)" using assms(1,2) by simp
  then consider "Entity_Key e = ''optimal_income''" "Options e = [''Run'', ''Stop'']"
    | "Entity_Key e = ''boost_select''" "Options e = BoostOptions"
    unfolding selects by auto
  then show ?thesis
  proof cases
    case 1
    then show ?thesis using assms(3) by (simp add: State_member State_of_def Let_def split: prod.splits if_splits)
  next
    case 2
    then have "v = json_string_ptr (BoostSelectState (ha_Slots sp))"
      using assms(3) by (simp add: State_member State_of_def Let_def split: prod.splits)
    then show ?thesis
      using 2 BoostSelectState_option by (auto simp: json_string_ptr_def split: option.splits)
  qed
qed

theorem select_state_option_witness:
  "map_of (State_members (State_of (telemetry_of UTC (\<lambda>_. 0)) 0
       \<lparr>ha_SetChargeCurrent = Fin False 0, ha_SetDischargeCurrent = Fin False 0, ha_MaxChargeCurrent = Fin False 0,
        ha_MaxDischargeCurrent = Fin False 0, ha_OptimalIncome = True,
        ha_Slots = \<lparr>Slot0 = TimedSlot_zero, Slot1 = TimedSlot_zero, Slot2 = TimedSlot_zero\<rparr>,
        ha_BoostEndsAt = Time_zero\<rparr>)) ''optimal_income'' = Some (JStr ''Run'') \<and>
   (\<exists>opt \<in> set [''Run'', ''Stop'']. JStr ''Run'' = JStr opt)"
proof -
  let ?e = "Entity_zero\<lparr>Component := Select, Entity_Key := ''optimal_income'', Entity_Name := ''Optimal income'',
       Command := True, Options := [''Run'', ''Stop'']\<rparr>"
  let ?sp = "\<lparr>ha_SetChargeCurrent = Fin False 0, ha_SetDischargeCurrent = Fin False 0, ha_MaxChargeCurrent = Fin False 0,
      ha_MaxDischargeCurrent = Fin False 0, ha_OptimalIncome = True,
      ha_Slots = \<lparr>Slot0 = TimedSlot_zero, Slot1 = TimedSlot_zero, Slot2 = TimedSlot_zero\<rparr>, ha_BoostEndsAt = Time_zero\<rparr>"
  have "?e \<in> set (filter (\<lambda>e. Component e = Select) Entities)" unfolding selects by simp
  then have E: "?e \<in> set Entities" "Component ?e = Select" by simp_all
  have "map_of (State_members (State_of (telemetry_of UTC (\<lambda>_. 0)) 0 ?sp)) (Entity_Key ?e) = Some (JStr ''Run'')"
    by (simp add: State_member State_of_def Let_def split: prod.splits)
  with select_state_option [OF E this] show ?thesis by simp
qed

text \<open>
  The two unsigned power sensors are the halves of the signed one: their difference is the
  battery power, none is negative, and at most one is not zero.
\<close>

theorem battery_split_exact:
  "\<exists>a b. splitBatteryPower (Battery_PowerW (Telemetry_Battery (telemetry_of local bk))) = (Fin False a, Fin False b) \<and>
     0 \<le> a \<and> 0 \<le> b \<and> (a = 0 \<or> b = 0) \<and>
     a - b = fvalue (Battery_PowerW (Telemetry_Battery (telemetry_of local bk)))"
proof -
  have "\<exists>s m. Battery_PowerW (Telemetry_Battery (telemetry_of local bk)) = Fin s m \<and> 0 \<le> m"
    by (simp add: telemetry_of_def fsigned_u32 signedByDirection_Fin)
  then show ?thesis by (auto simp: splitBatteryPower_Fin)
qed

end
