(* ===== verification/Publisher.thy ===== *)
theory Publisher
  imports HomeAssistant
begin

text \<open>
  \<open>internal/publisher/publisher.go\<close> and \<open>recording.go\<close>: the service that publishes discovery, availability
  and state, over the interface \<open>Publisher\<close>. The interface is a world-passing function; what a broker
  keeps of it is the locale \<open>broker\<close>, which the recording publisher implements.
\<close>

section \<open>publisher.go\<close>

text \<open>\<open>Publish(ctx, topic, payload, retain)\<close>; \<open>None\<close> is a \<open>nil\<close> error.\<close>

type_synonym 'w Publisher = "string \<Rightarrow> payload \<Rightarrow> bool \<Rightarrow> 'w \<Rightarrow> go_error option \<times> 'w"

definition Discard_Publish :: "'w Publisher" where
  "Discard_Publish topic payload retain w = (None, w)"

record 'w Service =
  pub :: "'w Publisher"
  svc_cfg :: ha_Config
  svc_now :: "'w \<Rightarrow> Time"

text \<open>\<open>New\<close> with the option \<open>WithNow\<close>, if it is given; \<open>clock\<close> is \<open>time.Now\<close>.\<close>

definition Service_New :: "('w \<Rightarrow> Time) \<Rightarrow> 'w Publisher \<Rightarrow> ha_Config \<Rightarrow> ('w \<Rightarrow> Time) option \<Rightarrow> 'w Service" where
  "Service_New clock p cfg withNow =
     \<lparr>pub = p, svc_cfg = cfg, svc_now = (case withNow of None \<Rightarrow> clock | Some f \<Rightarrow> f)\<rparr>"

definition Service_AvailabilityTopic :: "'w Service \<Rightarrow> string" where
  "Service_AvailabilityTopic s = AvailabilityTopic (svc_cfg s)"

text \<open>The loops over built messages: each is published retained, the first failure ends the loop.\<close>

fun publish_loop :: "string \<Rightarrow> 'w Publisher \<Rightarrow> Message list \<Rightarrow> 'w \<Rightarrow> go_error option \<times> 'w" where
  "publish_loop what p [] w = (None, w)"
| "publish_loop what p (m # ms) w =
     (case p (Topic m) (Payload m) True w of
        (Some err, w) \<Rightarrow> (Some (Wrap (what @ Topic m) err), w)
      | (None, w) \<Rightarrow> publish_loop what p ms w)"

definition PublishDiscovery :: "'w Service \<Rightarrow> 'w \<Rightarrow> go_error option \<times> 'w" where
  "PublishDiscovery s w =
     (case BuildDiscovery (svc_cfg s) of
        Inl err \<Rightarrow> (Some (Wrap ''build discovery'' err), w)
      | Inr msgs \<Rightarrow> publish_loop ''publish discovery '' (pub s) msgs w)"

definition PublishDiscoveryRemovals :: "'w Service \<Rightarrow> 'w \<Rightarrow> go_error option \<times> 'w" where
  "PublishDiscoveryRemovals s w =
     publish_loop ''publish discovery removal '' (pub s) (BuildDiscoveryRemovals (svc_cfg s)) w"

definition PublishAvailability :: "'w Service \<Rightarrow> bool \<Rightarrow> 'w \<Rightarrow> go_error option \<times> 'w" where
  "PublishAvailability s online w =
     (let payload = (if online then ''online'' else ''offline'') in
      case pub s (AvailabilityTopic (svc_cfg s)) (Bytes payload) True w of
        (Some err, w) \<Rightarrow> (Some (Wrap ''publish availability'' err), w)
      | (None, w) \<Rightarrow> (None, w))"

definition Service_PublishState ::
  "'w Service \<Rightarrow> Telemetry \<Rightarrow> ha_Setpoints \<Rightarrow> 'w \<Rightarrow> (Message \<times> go_error option) \<times> 'w" where
  "Service_PublishState s t sp w =
     (let drift = Drift (Telemetry_Time t) (svc_now s w) in
      case BuildState (svc_cfg s) t drift sp of
        Inl err \<Rightarrow> ((Message_zero, Some (Wrap ''build state'' err)), w)
      | Inr msg \<Rightarrow>
          (case pub s (Topic msg) (Payload msg) True w of
             (Some err, w) \<Rightarrow> ((msg, Some (Wrap ''publish state'' err)), w)
           | (None, w) \<Rightarrow> ((msg, None), w)))"

section \<open>recording.go\<close>

record Record =
  rec_Payload :: payload
  Retain :: bool

record RecordingPublisher =
  records :: "string \<rightharpoonup> Record"
  order :: "string list"

definition NewRecordingPublisher :: RecordingPublisher where
  "NewRecordingPublisher = \<lparr>records = Map.empty, order = []\<rparr>"

definition Recording_Publish :: "RecordingPublisher Publisher" where
  "Recording_Publish topic payload retain r =
     (let r = (if records r topic = None then r\<lparr>order := order r @ [topic]\<rparr> else r)
      in (None, r\<lparr>records := (records r)(topic \<mapsto> \<lparr>rec_Payload = payload, Retain = retain\<rparr>)\<rparr>))"

definition Recording_Get :: "RecordingPublisher \<Rightarrow> string \<Rightarrow> Record option" where
  "Recording_Get r topic = records r topic"

definition Recording_Topics :: "RecordingPublisher \<Rightarrow> string list" where
  "Recording_Topics r = order r"

section \<open>What a broker keeps\<close>

text \<open>
  The retained store of a broker: a retained message replaces that of its topic, an empty one clears
  it. A publish that reports an error may have reached the broker or not.
\<close>

definition stored :: "payload \<Rightarrow> payload option" where
  "stored p = (if payload_empty p then None else Some p)"

definition store :: "Message \<Rightarrow> (string \<rightharpoonup> payload) \<Rightarrow> (string \<rightharpoonup> payload)" where
  "store m st = st(Topic m := stored (Payload m))"

locale broker =
  fixes publish :: "'w Publisher" and retained :: "'w \<Rightarrow> (string \<rightharpoonup> payload)"
  assumes publish_ok: "publish t p True w = (None, w') \<Longrightarrow> retained w' = (retained w)(t := stored p)"
    and publish_err: "publish t p True w = (Some e, w') \<Longrightarrow>
      retained w' = retained w \<or> retained w' = (retained w)(t := stored p)"
begin

lemma publish_loop_ok:
  "publish_loop what publish ms w = (None, w') \<Longrightarrow> retained w' = fold store ms (retained w)"
proof (induction ms arbitrary: w)
  case (Cons m ms)
  obtain e w1 where P: "publish (Topic m) (Payload m) True w = (e, w1)" by fastforce
  with Cons.prems have "e = None" "publish_loop what publish ms w1 = (None, w')"
    by (auto split: option.splits)
  with Cons.IH [of w1] publish_ok [of "Topic m" "Payload m" w w1] P show ?case by (simp add: store_def)
qed simp

text \<open>Whatever the outcome, a prefix of the messages has been stored.\<close>

lemma publish_loop_prefix:
  "publish_loop what publish ms w = (e, w') \<Longrightarrow> \<exists>k. retained w' = fold store (take k ms) (retained w)"
proof (induction ms arbitrary: w)
  case (Cons m ms)
  obtain e1 w1 where P: "publish (Topic m) (Payload m) True w = (e1, w1)" by fastforce
  show ?case
  proof (cases e1)
    case None
    with Cons.prems P have "publish_loop what publish ms w1 = (e, w')" by simp
    from Cons.IH [OF this] obtain k where "retained w' = fold store (take k ms) (retained w1)" by blast
    with publish_ok [OF P [unfolded None]] show ?thesis by (intro exI [of _ "Suc k"]) (simp add: store_def [of m])
  next
    case (Some err)
    with Cons.prems P have "w' = w1" by simp
    with publish_err [OF P [unfolded Some]] consider "retained w' = retained w"
      | "retained w' = (retained w)(Topic m := stored (Payload m))" by blast
    then show ?thesis
    proof cases
      case 1
      then show ?thesis by (intro exI [of _ 0]) simp
    next
      case 2
      then show ?thesis by (intro exI [of _ 1]) (simp add: store_def)
    qed
  qed
qed simp

end

lemma fold_store_notin: "t \<notin> Topic ` set ms \<Longrightarrow> fold store ms st t = st t"
  by (induction ms arbitrary: st) (auto simp: store_def)

lemma fold_store_in:
  assumes "distinct (map Topic ms)" "m \<in> set ms"
  shows "fold store ms st (Topic m) = stored (Payload m)"
  using assms
proof (induction ms arbitrary: st)
  case (Cons a ms)
  show ?case
  proof (cases "m = a")
    case True
    with Cons.prems have "Topic m \<notin> Topic ` set ms" by auto
    with True show ?thesis by (simp add: fold_store_notin) (simp add: store_def)
  next
    case False
    with Cons show ?thesis by simp
  qed
qed simp

definition recorded_store :: "RecordingPublisher \<Rightarrow> (string \<rightharpoonup> payload)" where
  "recorded_store r t =
     (case records r t of
        None \<Rightarrow> None
      | Some rc \<Rightarrow> if Retain rc \<and> \<not> payload_empty (rec_Payload rc) then Some (rec_Payload rc) else None)"

interpretation recorder: broker Recording_Publish recorded_store
  by unfold_locales (auto simp: Recording_Publish_def recorded_store_def stored_def Let_def fun_eq_iff)

definition record_all :: "(string \<times> payload \<times> bool) list \<Rightarrow> RecordingPublisher" where
  "record_all ms = foldl (\<lambda>r (t, p, b). snd (Recording_Publish t p b r)) NewRecordingPublisher ms"

section \<open>Properties\<close>

text \<open>
  The topics of the recording publisher are those it has been sent, each once, in the order they
  were first seen, and each is looked up with the last message it got.
\<close>

theorem recording_history:
  "(\<forall>t. Recording_Get (record_all ms) t =
      map_option (\<lambda>(p, b). \<lparr>rec_Payload = p, Retain = b\<rparr>) (map_of (rev ms) t)) \<and>
   distinct (Recording_Topics (record_all ms)) \<and> set (Recording_Topics (record_all ms)) = fst ` set ms"
proof (induction ms rule: rev_induct)
  case Nil
  then show ?case by (simp add: record_all_def NewRecordingPublisher_def Recording_Get_def Recording_Topics_def)
next
  case (snoc x ms)
  obtain t p b where x: "x = (t, p, b)" by (metis prod.exhaust)
  let ?r = "record_all ms"
  have r: "record_all (ms @ [(t, p, b)]) = snd (Recording_Publish t p b ?r)" by (simp add: record_all_def)
  have "records ?r t = None \<longleftrightarrow> t \<notin> fst ` set ms"
    using snoc by (simp add: Recording_Get_def map_of_eq_None_iff)
  with snoc show ?case unfolding x r
    by (auto simp: Recording_Publish_def Recording_Get_def Recording_Topics_def Let_def)
qed

end
