(* ===== verification/Scheduler.thy ===== *)
theory Scheduler
  imports HomeAssistant
begin

text \<open>
  \<open>internal/scheduler/scheduler.go\<close>: the poll loop. The collaborators are the functions of a record, on
  a world that carries the scheduler's last-good cache; a missing (\<open>nil\<close>) one is \<open>None\<close>. A poll and a
  command hold \<open>apiMu\<close> from start to finish, so each is one step; logging is left out.
\<close>

section \<open>State\<close>

definition WorkMode_zero :: WorkMode where "WorkMode_zero = DecodeWorkMode 0"

text \<open>The zero values the error paths return.\<close>

abbreviation f0 :: float64 where "f0 \<equiv> Fin False 0"

definition Telemetry_zero :: Telemetry where
  "Telemetry_zero =
     \<lparr>Telemetry_Time = Time_zero,
      Telemetry_Battery = \<lparr>VoltageV = f0, CurrentA = f0, Charging = False, SOCPercent = f0, SOHPercent = f0,
        BMSVoltageV = f0, BMSCurrentA = f0, BMSChargeCurrentLimitA = f0, BMSDischargeCurrentLimitA = f0,
        Battery_BMSFault1 = DecodeBMSFault1 0, Battery_BMSFault2 = DecodeBMSFault2 0,
        OverdischargeSOCPercent = f0, ForceChargeSOCPercent = f0, Battery_PowerW = f0\<rparr>,
      Telemetry_PV = \<lparr>PV1VoltageV = f0, PV1CurrentA = f0, PV2VoltageV = f0, PV2CurrentA = f0, TotalPowerW = f0\<rparr>,
      Telemetry_Grid = \<lparr>Grid_PowerW = f0, TotalImportKWh = f0, ImportTodayKWh = f0, TotalExportKWh = f0, ExportTodayKWh = f0\<rparr>,
      Telemetry_AC = \<lparr>ActivePowerW = f0, TemperatureC = f0, FrequencyHz = f0, HouseLoadW = f0\<rparr>,
      Telemetry_Energy = \<lparr>GenerationTodayKWh = f0, GenerationYesterdayKWh = f0, BatteryTotalChargeKWh = f0,
        BatteryChargeTodayKWh = f0, BatteryTotalDischargeKWh = f0, BatteryDischargeTodayKWh = f0\<rparr>,
      Telemetry_System = \<lparr>Status = 0, OperatingStatus = 0, System_WorkMode = WorkMode_zero\<rparr>\<rparr>"

definition ha_Setpoints_zero :: ha_Setpoints where
  "ha_Setpoints_zero =
     \<lparr>ha_SetChargeCurrent = f0, ha_SetDischargeCurrent = f0, ha_MaxChargeCurrent = f0, ha_MaxDischargeCurrent = f0,
      ha_OptimalIncome = False, ha_Slots = \<lparr>Slot0 = TimedSlot_zero, Slot1 = TimedSlot_zero, Slot2 = TimedSlot_zero\<rparr>,
      ha_BoostEndsAt = Time_zero\<rparr>"

text \<open>The mutable fields of the scheduler; a world extends this record.\<close>

record sched_cache =
  cache_tel :: Telemetry
  cache_sp :: ha_Setpoints
  have_state :: bool

section \<open>scheduler.go\<close>

record sched_Config =
  PollInterval :: Duration
  MaxRetries :: int
  RTCSyncEnabled :: bool
  RTCDriftThreshold :: Duration

text \<open>
  \<open>sched_now\<close> is the injected clock, \<open>ctx_Err\<close> the state of the context, and \<open>wait\<close> the \<open>select\<close> between
  \<open>ctx.Done()\<close> and \<open>after(d)\<close>: it is \<open>True\<close> when the timer won.
\<close>

record 's Scheduler =
  Read :: "'s \<Rightarrow> ((Telemetry \<times> ha_Setpoints) \<times> go_error option) \<times> 's"
  PublishState :: "Telemetry \<Rightarrow> ha_Setpoints \<Rightarrow> 's \<Rightarrow> go_error option \<times> 's"
  health_MarkSuccess :: "'s \<Rightarrow> 's"
  health_MarkFailure :: "'s \<Rightarrow> 's"
  rtc :: "('s \<Rightarrow> (bool \<times> go_error option) \<times> 's) option"
  commander :: "(string \<Rightarrow> string \<Rightarrow> 's \<Rightarrow> 's) option"
  reconciler :: "(TimedSlots \<Rightarrow> 's \<Rightarrow> (bool \<times> go_error option) \<times> 's) option"
  sched_cfg :: sched_Config
  sched_now :: "'s \<Rightarrow> Time"
  ctx_Err :: "'s \<Rightarrow> go_error option"
  wait :: "Duration \<Rightarrow> 's \<Rightarrow> bool \<times> 's"

definition Scheduler_New :: "'s Scheduler \<Rightarrow> 's Scheduler" where
  "Scheduler_New s =
     (if MaxRetries (sched_cfg s) < 0 then s\<lparr>sched_cfg := (sched_cfg s)\<lparr>MaxRetries := 0\<rparr>\<rparr> else s)"

definition RememberState :: "Telemetry \<Rightarrow> ha_Setpoints \<Rightarrow> 'z sched_cache_scheme \<Rightarrow> 'z sched_cache_scheme" where
  "RememberState tel sp w = w\<lparr>cache_tel := tel, cache_sp := sp, have_state := True\<rparr>"

definition LastState :: "'z sched_cache_scheme \<Rightarrow> Telemetry \<times> ha_Setpoints \<times> bool" where
  "LastState w = (cache_tel w, cache_sp w, have_state w)"

text \<open>The absolute value of an \<open>int64\<close>: the least one is its own negation.\<close>

definition abs_duration :: "Duration \<Rightarrow> Duration" where
  "abs_duration d = (if d < 0 then wrap64 (- d) else d)"

definition maybeSyncRTC :: "'s Scheduler \<Rightarrow> Telemetry \<Rightarrow> 's \<Rightarrow> 's" where
  "maybeSyncRTC s tel w =
     (if \<not> RTCSyncEnabled (sched_cfg s) then w
      else
        (case rtc s of
           None \<Rightarrow> w
         | Some syncRTC \<Rightarrow>
             (let drift = Drift (Telemetry_Time tel) (sched_now s w) in
              if abs_duration drift \<le> RTCDriftThreshold (sched_cfg s) then w
              else snd (syncRTC w))))"

definition maybeReconcile :: "'s Scheduler \<Rightarrow> TimedSlots \<Rightarrow> 's \<Rightarrow> 's" where
  "maybeReconcile s slots w =
     (case reconciler s of
        None \<Rightarrow> w
      | Some reconcile \<Rightarrow> snd (reconcile slots w))"

text \<open>The loop of \<open>readWithRetry\<close> from attempt \<open>attempt\<close> on.\<close>

function read_loop ::
  "'s Scheduler \<Rightarrow> int \<Rightarrow> Duration \<Rightarrow> go_error option \<Rightarrow> 's \<Rightarrow> ((Telemetry \<times> ha_Setpoints) \<times> go_error option) \<times> 's" where
  "read_loop s attempt backoff lastErr w =
     (if attempt \<le> MaxRetries (sched_cfg s) then
        (let (fired, w) = (if attempt > 0 then wait s backoff w else (True, w));
             backoff = (if attempt > 0 then wrap64 (backoff * 2) else backoff)
         in if \<not> fired then (((Telemetry_zero, ha_Setpoints_zero), ctx_Err s w), w)
            else
              (case Read s w of
                 ((telsp, None), w) \<Rightarrow> ((telsp, None), w)
               | ((telsp, Some err), w) \<Rightarrow>
                   if ctx_Err s w \<noteq> None then (((Telemetry_zero, ha_Setpoints_zero), ctx_Err s w), w)
                   else read_loop s (attempt + 1) backoff (Some err) w))
      else (((Telemetry_zero, ha_Setpoints_zero), lastErr), w))"
  by pat_completeness auto

termination read_loop
  by (relation "measure (\<lambda>(s, attempt, _). nat (MaxRetries (sched_cfg s) + 1 - attempt))") auto

declare read_loop.simps [simp del]

definition readWithRetry :: "'s Scheduler \<Rightarrow> 's \<Rightarrow> ((Telemetry \<times> ha_Setpoints) \<times> go_error option) \<times> 's" where
  "readWithRetry s w = read_loop s 0 Second None w"

definition poll :: "'z sched_cache_scheme Scheduler \<Rightarrow> 'z sched_cache_scheme \<Rightarrow> 'z sched_cache_scheme" where
  "poll s w =
     (case readWithRetry s w of
        ((_, Some err), w) \<Rightarrow> if ctx_Err s w \<noteq> None then w else health_MarkFailure s w
      | (((tel, sp), None), w) \<Rightarrow>
          (let w = RememberState tel sp w in
           case PublishState s tel sp w of
             (Some err, w) \<Rightarrow> health_MarkFailure s w
           | (None, w) \<Rightarrow>
               (let w = health_MarkSuccess s w;
                    w = maybeSyncRTC s tel w
                in maybeReconcile s (ha_Slots sp) w)))"

definition PollNow :: "'z sched_cache_scheme Scheduler \<Rightarrow> 'z sched_cache_scheme \<Rightarrow> 'z sched_cache_scheme" where
  "PollNow s w = poll s w"

text \<open>
  \<open>Run\<close>: the first poll, then what the \<open>select\<close> of the loop receives, tick by tick; the loop ends when
  the context is done.
\<close>

datatype wakeup = Tick | Done

fun Run_loop :: "'z sched_cache_scheme Scheduler \<Rightarrow> wakeup list \<Rightarrow> 'z sched_cache_scheme \<Rightarrow> 'z sched_cache_scheme" where
  "Run_loop s [] w = w"
| "Run_loop s (Done # es) w = w"
| "Run_loop s (Tick # es) w = Run_loop s es (poll s w)"

definition Run :: "'z sched_cache_scheme Scheduler \<Rightarrow> wakeup list \<Rightarrow> 'z sched_cache_scheme \<Rightarrow> 'z sched_cache_scheme" where
  "Run s es w = Run_loop s es (poll s w)"

definition ApplyCommand :: "'s Scheduler \<Rightarrow> string \<Rightarrow> string \<Rightarrow> 's \<Rightarrow> 's" where
  "ApplyCommand s topic payload w =
     (case commander s of
        None \<Rightarrow> w
      | Some apply_command \<Rightarrow> apply_command topic payload w)"

section \<open>What a read with retries does\<close>

text \<open>
  The scheduler with its reads and waits written to a log. The log is ghost state: the run is the same
  (\<open>traced_loop\<close>).
\<close>

datatype poll_event = Attempt | Backoff Duration

definition traced :: "'s Scheduler \<Rightarrow> ('s \<times> poll_event list) Scheduler" where
  "traced s =
     \<lparr>Read = (\<lambda>(w, tr). case Read s w of (r, w') \<Rightarrow> (r, w', tr @ [Attempt])),
      PublishState = (\<lambda>tel sp (w, tr). case PublishState s tel sp w of (r, w') \<Rightarrow> (r, w', tr)),
      health_MarkSuccess = (\<lambda>(w, tr). (health_MarkSuccess s w, tr)),
      health_MarkFailure = (\<lambda>(w, tr). (health_MarkFailure s w, tr)),
      rtc = None, commander = None, reconciler = None, sched_cfg = sched_cfg s,
      sched_now = (\<lambda>(w, tr). sched_now s w), ctx_Err = (\<lambda>(w, tr). ctx_Err s w),
      wait = (\<lambda>d (w, tr). case wait s d w of (b, w') \<Rightarrow> (b, w', tr @ [Backoff d]))\<rparr>"

text \<open>One round of the loop, case by case; \<open>gate\<close> is the wait before every attempt but the first.\<close>

definition gate :: "'s Scheduler \<Rightarrow> int \<Rightarrow> Duration \<Rightarrow> 's \<Rightarrow> bool \<times> 's" where
  "gate s attempt backoff w = (if attempt > 0 then wait s backoff w else (True, w))"

abbreviation no_reading :: "Telemetry \<times> ha_Setpoints" where
  "no_reading \<equiv> (Telemetry_zero, ha_Setpoints_zero)"

lemma read_loop_rounds:
  assumes "attempt \<le> MaxRetries (sched_cfg s)"
  shows "gate s attempt backoff w = (False, w1) \<Longrightarrow>
      read_loop s attempt backoff e w = ((no_reading, ctx_Err s w1), w1)"
    and "gate s attempt backoff w = (True, w1) \<Longrightarrow> Read s w1 = ((x, None), w2) \<Longrightarrow>
      read_loop s attempt backoff e w = ((x, None), w2)"
    and "gate s attempt backoff w = (True, w1) \<Longrightarrow> Read s w1 = ((x, Some err), w2) \<Longrightarrow> ctx_Err s w2 \<noteq> None \<Longrightarrow>
      read_loop s attempt backoff e w = ((no_reading, ctx_Err s w2), w2)"
    and "gate s attempt backoff w = (True, w1) \<Longrightarrow> Read s w1 = ((x, Some err), w2) \<Longrightarrow> ctx_Err s w2 = None \<Longrightarrow>
      read_loop s attempt backoff e w =
        read_loop s (attempt + 1) (if attempt > 0 then wrap64 (backoff * 2) else backoff) (Some err) w2"
  using assms by (simp_all add: read_loop.simps [of s attempt] gate_def Let_def split: if_splits)

lemma read_loop_over: "attempt > MaxRetries (sched_cfg s) \<Longrightarrow> read_loop s attempt backoff e w = ((no_reading, e), w)"
  by (simp add: read_loop.simps [of s attempt])

text \<open>
  Induction over the rounds of a run: it is over, cancelled in a wait, has a reading, has a dead
  context, or goes on.
\<close>

lemma read_loop_runs [consumes 1, case_names over cancelled ok dead again]:
  assumes "read_loop s a b e w = ((x, err), w')"
    and "\<And>a b e w. a > MaxRetries (sched_cfg s) \<Longrightarrow> P a b e w no_reading e w"
    and "\<And>a b e w w1. a \<le> MaxRetries (sched_cfg s) \<Longrightarrow> gate s a b w = (False, w1) \<Longrightarrow> P a b e w no_reading (ctx_Err s w1) w1"
    and "\<And>a b e w w1 x w2. a \<le> MaxRetries (sched_cfg s) \<Longrightarrow> gate s a b w = (True, w1) \<Longrightarrow> Read s w1 = ((x, None), w2) \<Longrightarrow>
      P a b e w x None w2"
    and "\<And>a b e w w1 y e' w2. a \<le> MaxRetries (sched_cfg s) \<Longrightarrow> gate s a b w = (True, w1) \<Longrightarrow> Read s w1 = ((y, Some e'), w2) \<Longrightarrow>
      ctx_Err s w2 \<noteq> None \<Longrightarrow> P a b e w no_reading (ctx_Err s w2) w2"
    and "\<And>a b e w w1 y e' w2 x err w'. a \<le> MaxRetries (sched_cfg s) \<Longrightarrow> gate s a b w = (True, w1) \<Longrightarrow> Read s w1 = ((y, Some e'), w2) \<Longrightarrow>
      ctx_Err s w2 = None \<Longrightarrow> P (a + 1) (if a > 0 then wrap64 (b * 2) else b) (Some e') w2 x err w' \<Longrightarrow> P a b e w x err w'"
  shows "P a b e w x err w'"
  using assms(1)
proof (induction "nat (MaxRetries (sched_cfg s) + 1 - a)" arbitrary: a b e w)
  case 0
  then show ?case using assms(2) [of a b e w] by (simp add: read_loop_over)
next
  case (Suc m)
  then have a: "a \<le> MaxRetries (sched_cfg s)" and m: "m = nat (MaxRetries (sched_cfg s) + 1 - (a + 1))" by simp_all
  note R = read_loop_rounds [OF a, where backoff = b and w = w and e = e]
  obtain fired w1 where G: "gate s a b w = (fired, w1)" by fastforce
  obtain y re w2 where RD: "Read s w1 = ((y, re), w2)" by (metis prod.exhaust)
  consider "\<not> fired" | "fired" "re = None" | e' where "fired" "re = Some e'" "ctx_Err s w2 \<noteq> None"
    | e' where "fired" "re = Some e'" "ctx_Err s w2 = None" by (cases fired; cases re; cases "ctx_Err s w2") auto
  then show ?case
  proof cases
    case 1
    then show ?thesis using R(1) G Suc.prems assms(3) [OF a, of b w w1 e] by simp
  next
    case 2
    then show ?thesis using R(2) G RD Suc.prems assms(4) [OF a, of b w w1 y w2 e] by simp
  next
    case 3
    then show ?thesis using R(3) G RD Suc.prems assms(5) [OF a, of b w w1 y e' w2 e] by simp
  next
    case 4
    then show ?thesis using R(4) G RD Suc.prems Suc.hyps(1) [OF m] assms(6) [OF a, of b w w1 y e' w2] by simp
  qed
qed

lemma traced_sel [simp]:
  "sched_cfg (traced s) = sched_cfg s" "ctx_Err (traced s) (w, tr) = ctx_Err s w"
  "Read (traced s) (w, tr) = (case Read s w of (r, w') \<Rightarrow> (r, w', tr @ [Attempt]))"
  "gate (traced s) attempt backoff (w, tr) =
     (case gate s attempt backoff w of (b, w') \<Rightarrow> (b, w', if attempt > 0 then tr @ [Backoff backoff] else tr))"
  by (simp_all add: traced_def gate_def)

text \<open>
  What a run of the loop can look like: it went through some attempts that failed, and then ended:
  cancelled in a wait, with a reading, with a dead context, or with its attempts used up.
\<close>

fun tries :: "int \<Rightarrow> nat \<Rightarrow> poll_event list" where
  "tries a 0 = []"
| "tries a (Suc n) = (if a > 0 then [Backoff (2 ^ nat (a - 1) * Second)] else []) @ Attempt # tries (a + 1) n"

declare tries.simps(2) [simp del]

definition backoff_at :: "int \<Rightarrow> Duration" where
  "backoff_at a = (if a > 0 then 2 ^ nat (a - 1) * Second else Second)"

lemma tries_backoff: "tries a (Suc n) = (if a > 0 then [Backoff (backoff_at a)] else []) @ Attempt # tries (a + 1) n"
  by (simp add: tries.simps(2) backoff_at_def)

lemmas one_try = tries_backoff [where n = 0, simplified]

lemma backoff_step:
  assumes "0 \<le> a" "a \<le> 33"
  shows "(if a > 0 then wrap64 (backoff_at a * 2) else backoff_at a) = backoff_at (a + 1)"
proof (cases "a = 0")
  case False
  with assms have a: "0 < a" "nat a = Suc (nat (a - 1))" by auto
  have "nat a \<le> 33" using assms by simp
  then have "(2 :: int) ^ nat a \<le> 2 ^ 33" by (rule power_increasing) simp
  moreover have "0 \<le> (2 :: int) ^ nat a" by simp
  moreover have "wrap64 (x * 1000000000) = x * 1000000000" if "0 \<le> x" "x \<le> 2 ^ 33" for x
    using that by (intro wrap64_id) auto
  ultimately have "wrap64 (2 ^ nat a * 1000000000) = 2 ^ nat a * 1000000000" by blast
  with a show ?thesis by (simp add: backoff_at_def Second_def mult.assoc mult.commute mult.left_commute)
qed (use assms in \<open>simp add: backoff_at_def\<close>)

lemma traced_loop:
  assumes "0 \<le> a" "a \<le> MaxRetries (sched_cfg s) + 1" "MaxRetries (sched_cfg s) \<le> 33" "0 < a \<longrightarrow> e \<noteq> None"
    and "read_loop s a (backoff_at a) e w = ((x, err), w')"
  shows "\<exists>n tr'. read_loop (traced s) a (backoff_at a) e (w, tr) = ((x, err), (w', tr @ tries a n @ tr')) \<and>
    a + int n \<le> MaxRetries (sched_cfg s) + 1 \<and>
    (tr' = [] \<or> 0 < a + int n \<and> a + int n \<le> MaxRetries (sched_cfg s) \<and> tr' = [Backoff (backoff_at (a + int n))] \<and> err = ctx_Err s w') \<and>
    (err \<noteq> None \<and> ctx_Err s w' = None \<and> tr' = [] \<longrightarrow> a + int n = MaxRetries (sched_cfg s) + 1)"
  using assms(5,1-4)
proof (induction a "backoff_at a" e w x err w' arbitrary: tr rule: read_loop_runs)
  case (over a e w)
  then show ?case by (intro exI [of _ 0] exI [of _ "[]"]) (simp add: read_loop_over)
next
  case (cancelled a e w w1)
  note T = read_loop_rounds [of a "traced s", simplified, OF cancelled(1)]
  have "a > 0" using cancelled(2) by (simp add: gate_def split: if_splits)
  with cancelled show ?case by (intro exI [of _ 0] exI [of _ "[Backoff (backoff_at a)]"]) (auto simp: T(1))
next
  case (ok a e w w1 x w2)
  note T = read_loop_rounds [of a "traced s", simplified, OF ok(1)]
  from ok show ?case by (intro exI [of _ 1] exI [of _ "[]"]) (auto simp: T(2) one_try)
next
  case (dead a e w w1 y e' w2)
  note T = read_loop_rounds [of a "traced s", simplified, OF dead(1)]
  from dead show ?case by (intro exI [of _ 1] exI [of _ "[]"]) (auto simp: T(3) one_try)
next
  case (again a e w w1 y e' w2 x err w')
  let ?pre = "if a > 0 then [Backoff (backoff_at a)] else []"
  note T = read_loop_rounds [of a "traced s", simplified, OF again(1)]
  have b: "(if a > 0 then wrap64 (backoff_at a * 2) else backoff_at a) = backoff_at (a + 1)"
    using again by (intro backoff_step) auto
  have TL: "read_loop (traced s) a (backoff_at a) e (w, tr) =
      read_loop (traced s) (a + 1) (backoff_at (a + 1)) (Some e') (w2, tr @ ?pre @ [Attempt])"
    using T(4) [of "backoff_at a" "(w, tr)" "(w1, tr @ ?pre)" y e' "(w2, tr @ ?pre @ [Attempt])" e] again(2-4) b by simp
  from again(5) [OF b, of "tr @ ?pre @ [Attempt]"] again(1,6,8)
  obtain n tr' where "read_loop (traced s) (a + 1) (backoff_at (a + 1)) (Some e') (w2, tr @ ?pre @ [Attempt]) =
      ((x, err), (w', (tr @ ?pre @ [Attempt]) @ tries (a + 1) n @ tr'))"
    "a + 1 + int n \<le> MaxRetries (sched_cfg s) + 1"
    "tr' = [] \<or> 0 < a + 1 + int n \<and> a + 1 + int n \<le> MaxRetries (sched_cfg s) \<and> tr' = [Backoff (backoff_at (a + 1 + int n))] \<and> err = ctx_Err s w'"
    "err \<noteq> None \<and> ctx_Err s w' = None \<and> tr' = [] \<longrightarrow> a + 1 + int n = MaxRetries (sched_cfg s) + 1" by auto
  then show ?case using TL
    by (intro exI [of _ "Suc n"] exI [of _ tr']) (auto simp: tries_backoff algebra_simps)
qed

section \<open>Properties\<close>


text \<open>A reader that fails as often as its world says, under a context that lives, with two retries.\<close>

definition flaky :: "nat Scheduler" where
  "flaky =
     \<lparr>Read = (\<lambda>w. case w of 0 \<Rightarrow> ((no_reading, None), 0) | Suc n \<Rightarrow> ((no_reading, Some (Errorf ''down'')), n)),
      PublishState = (\<lambda>_ _ w. (None, w)), health_MarkSuccess = id, health_MarkFailure = id,
      rtc = None, commander = None, reconciler = None,
      sched_cfg = \<lparr>PollInterval = Second, MaxRetries = 2, RTCSyncEnabled = False, RTCDriftThreshold = Second\<rparr>,
      sched_now = (\<lambda>_. Time_zero), ctx_Err = (\<lambda>_. None), wait = (\<lambda>_ w. (True, w))\<rparr>"

lemma flaky_run: "readWithRetry flaky 5 = ((no_reading, Some (Errorf ''down'')), 2)"
  by (simp add: readWithRetry_def read_loop.simps flaky_def eval_nat_numeral)


end
