(* ===== verification/Manager.thy ===== *)
theory Manager
  imports Reconcile Server Publisher Scheduler
begin

text \<open>
  \<open>internal/cmd\<close> as far as it decides what the running manager does: the freshness of the setpoints
  (\<open>freshness.go\<close>), the publisher of a reading (\<open>state.go\<close>), the state reader, the refresh after a command
  and the wiring of \<open>runServe\<close> (\<open>serve.go\<close>), with the locking wrapper of the bus
  (\<open>internal/controls/locking.go\<close>). The world of the manager is the scheduler's cache, the freshness
  flag, the status server and \<open>net\<close>, everything outside the process: the bus and the broker.
\<close>

section \<open>The world\<close>

record 'w world = sched_cache +
  stale :: bool
  status :: Server
  net :: 'w

text \<open>A call on the outside world.\<close>

definition on_net :: "('w \<Rightarrow> 'r \<times> 'w) \<Rightarrow> 'w world \<Rightarrow> 'r \<times> 'w world" where
  "on_net f w = (let (r, n) = f (net w) in (r, w\<lparr>net := n\<rparr>))"

section \<open>locking.go\<close>

record 'w sidecar =
  sidecar_ReadInput :: "int \<Rightarrow> int \<Rightarrow> 'w \<Rightarrow> u16 list result \<times> 'w"
  sidecar_Holding :: "'w HoldingReadWriter"

text \<open>
  The wrapper delegates each call under its mutex: a call is one step on the world.
\<close>

definition Locking_ReadInput :: "'w sidecar \<Rightarrow> int \<Rightarrow> int \<Rightarrow> 'w world \<Rightarrow> u16 list result \<times> 'w world" where
  "Locking_ReadInput inner addr count = on_net (sidecar_ReadInput inner addr count)"

definition Locking_ReadHolding :: "'w sidecar \<Rightarrow> int \<Rightarrow> int \<Rightarrow> 'w world \<Rightarrow> u16 list result \<times> 'w world" where
  "Locking_ReadHolding inner addr count = on_net (ReadHolding (sidecar_Holding inner) addr count)"

definition Locking_WriteHolding :: "'w sidecar \<Rightarrow> int \<Rightarrow> u16 \<Rightarrow> 'w world \<Rightarrow> unit result \<times> 'w world" where
  "Locking_WriteHolding inner addr value = on_net (WriteHolding (sidecar_Holding inner) addr value)"

definition NewLocking :: "'w sidecar \<Rightarrow> 'w world sidecar" where
  "NewLocking inner =
     \<lparr>sidecar_ReadInput = Locking_ReadInput inner,
      sidecar_Holding = \<lparr>ReadHolding = Locking_ReadHolding inner, WriteHolding = Locking_WriteHolding inner\<rparr>\<rparr>"

section \<open>freshness.go\<close>

definition markFresh :: "'w world \<Rightarrow> 'w world" where
  "markFresh w = w\<lparr>stale := False\<rparr>"

definition markStale :: "'w world \<Rightarrow> 'w world" where
  "markStale w = w\<lparr>stale := True\<rparr>"

definition isStale :: "'w world \<Rightarrow> bool" where
  "isStale w = stale w"

definition gatedReconciler ::
  "(TimedSlots \<Rightarrow> 'w world \<Rightarrow> (bool \<times> go_error option) \<times> 'w world) \<Rightarrow>
   TimedSlots \<Rightarrow> 'w world \<Rightarrow> (bool \<times> go_error option) \<times> 'w world" where
  "gatedReconciler inner slots w = (if isStale w then ((False, None), w) else inner slots w)"

section \<open>serve.go: the state reader\<close>

definition toHASetpoints :: "Setpoints \<Rightarrow> Time \<Rightarrow> ha_Setpoints" where
  "toHASetpoints sp moment =
     \<lparr>ha_SetChargeCurrent = SetChargeCurrent sp, ha_SetDischargeCurrent = SetDischargeCurrent sp,
      ha_MaxChargeCurrent = MaxChargeCurrent sp, ha_MaxDischargeCurrent = MaxDischargeCurrent sp,
      ha_OptimalIncome = OptimalIncome sp, ha_Slots = Slots sp,
      ha_BoostEndsAt = EndsAt (BoostOf (Slots sp)) moment\<rparr>"

definition touWindowAttr :: "TimedSlots \<Rightarrow> string" where
  "touWindowAttr slots = (case ToU slots of None \<Rightarrow> ''unset'' | Some window \<Rightarrow> FormatWindow window)"

definition boostSelectAttr :: "TimedSlots \<Rightarrow> string" where
  "boostSelectAttr slots = (case BoostSelectState slots of None \<Rightarrow> ''null'' | Some state \<Rightarrow> state)"

definition newStateReader ::
  "location \<Rightarrow> 'w world sidecar \<Rightarrow> ('w world \<Rightarrow> Time) \<Rightarrow>
   'w world \<Rightarrow> ((Telemetry \<times> ha_Setpoints) \<times> go_error option) \<times> 'w world" where
  "newStateReader local bus clock w =
     (case Collect local (sidecar_ReadInput bus) w of
        (Inl err, w) \<Rightarrow> (((Telemetry_zero, ha_Setpoints_zero), Some err), w)
      | (Inr tel, w) \<Rightarrow>
          (let (_, haSp, _) = LastState w in
           case ReadSetpoints (sidecar_Holding bus) w of
             (Inl err, w) \<Rightarrow> (((tel, haSp), None), markStale w)
           | (Inr sp, w) \<Rightarrow>
               (let haSp = toHASetpoints sp (clock w) in (((tel, haSp), None), markFresh w))))"

section \<open>state.go\<close>

text \<open>
  The document the status page decodes from the bytes just published; \<open>num\<close> is the literal
  \<open>encoding/json\<close> writes for a float. Only the documents of \<open>BuildState\<close> get here.
\<close>

fun jvalue_of :: "(float64 \<Rightarrow> string) \<Rightarrow> jany \<Rightarrow> jvalue" where
  "jvalue_of num JNil = VNull"
| "jvalue_of num (JFlag b) = VBool b"
| "jvalue_of num (JNum i) = VNumber (fmt_d i)"
| "jvalue_of num (JFloat x) = VNumber (num x)"
| "jvalue_of num (JStr s) = VString s"
| "jvalue_of num (JArr vs) = VArray (map (jvalue_of num) vs)"
| "jvalue_of num (JMap kvs) = VObject (map (\<lambda>(k, v). (k, jvalue_of num v)) kvs)"

definition doc_of :: "(float64 \<Rightarrow> string) \<Rightarrow> payload \<Rightarrow> document" where
  "doc_of num p = (case p of Bytes _ \<Rightarrow> Malformed | Json v \<Rightarrow> Document (jvalue_of num v) False)"

text \<open>\<open>svc\<close> is what \<open>svcPtr\<close> holds; \<open>None\<close> before a publisher is stored.\<close>

definition statePublisher_PublishState ::
  "(float64 \<Rightarrow> string) \<Rightarrow> ('w world \<Rightarrow> Time) \<Rightarrow> 'w world Service option \<Rightarrow>
   Telemetry \<Rightarrow> ha_Setpoints \<Rightarrow> 'w world \<Rightarrow> go_error option \<times> 'w world" where
  "statePublisher_PublishState num clock svc tel sp w =
     (case svc of
        None \<Rightarrow> (Some (Errorf ''publisher not connected''), w)
      | Some svc \<Rightarrow>
          (let ((msg, err), w) = Service_PublishState svc tel sp w;
               w = (if \<not> payload_empty (Payload msg)
                    then
                      (let rd = \<lparr>Doc = doc_of num (Payload msg), SetpointsStale = isStale w\<rparr>
                       in w\<lparr>status := snd (RecordReading rd (clock w) (status w))\<rparr>)
                    else w)
           in (err, w)))"

section \<open>serve.go: the wiring of runServe\<close>

text \<open>What \<open>runServe\<close> takes from the configuration and from outside.\<close>

record 'w serve_env =
  env_local :: location
  env_client :: "'w sidecar"
  env_broker :: "'w Publisher option" \<comment> \<open>\<open>None\<close> without a broker URL\<close>
  env_now :: "'w \<Rightarrow> Time"
  env_ctx_Err :: "'w \<Rightarrow> go_error option"
  env_wait :: "Duration \<Rightarrow> 'w \<Rightarrow> bool \<times> 'w"
  env_num :: "float64 \<Rightarrow> string"
  env_conv :: "float64 \<Rightarrow> u16"
  env_ha :: ha_Config
  env_sched :: sched_Config
  env_controls :: bool
  env_tou :: TimedWindow
  env_assertToU :: bool

definition serve_now :: "'w serve_env \<Rightarrow> 'w world \<Rightarrow> Time" where
  "serve_now e w = env_now e (net w)"

definition serve_pub :: "'w serve_env \<Rightarrow> 'w world Publisher" where
  "serve_pub e =
     (case env_broker e of
        None \<Rightarrow> Discard_Publish
      | Some p \<Rightarrow> (\<lambda>topic payload retain. on_net (p topic payload retain)))"

definition serve_svc :: "'w serve_env \<Rightarrow> 'w world Service" where
  "serve_svc e = Service_New (serve_now e) (serve_pub e) (env_ha e) (Some (serve_now e))"

definition readState :: "'w serve_env \<Rightarrow> 'w world \<Rightarrow> ((Telemetry \<times> ha_Setpoints) \<times> go_error option) \<times> 'w world" where
  "readState e = newStateReader (env_local e) (NewLocking (env_client e)) (serve_now e)"

definition statePub :: "'w serve_env \<Rightarrow> Telemetry \<Rightarrow> ha_Setpoints \<Rightarrow> 'w world \<Rightarrow> go_error option \<times> 'w world" where
  "statePub e = statePublisher_PublishState (env_num e) (serve_now e) (Some (serve_svc e))"

definition serve_refresh :: "'w serve_env \<Rightarrow> 'w world \<Rightarrow> 'w world" where
  "serve_refresh e w =
     (case readState e w of
        ((_, Some err), w) \<Rightarrow> w
      | (((tel, haSp), None), w) \<Rightarrow>
          (let (err, w) = statePub e tel haSp w in RememberState tel haSp w))"

definition serve_handler :: "'w serve_env \<Rightarrow> 'w world Handler" where
  "serve_handler e =
     \<lparr>rw = sidecar_Holding (NewLocking (env_client e)), enabled = True, refresh = Some (serve_refresh e),
      now = serve_now e, tou = env_tou e, assertToU = env_assertToU e\<rparr>"

definition serve_scheduler :: "'w serve_env \<Rightarrow> 'w world Scheduler" where
  "serve_scheduler e =
     Scheduler_New
       \<lparr>Read = readState e,
        PublishState = statePub e,
        health_MarkSuccess = (\<lambda>w. w\<lparr>status := MarkSuccess (status w)\<rparr>),
        health_MarkFailure = (\<lambda>w. w\<lparr>status := MarkFailure (status w)\<rparr>),
        rtc = (if env_controls e then Some (SyncRTC (serve_handler e)) else None),
        commander = (if env_controls e then Some (Apply (env_conv e) (serve_handler e)) else None),
        reconciler = (if env_controls e then Some (gatedReconciler (Reconcile (serve_handler e))) else None),
        sched_cfg = env_sched e,
        sched_now = serve_now e,
        ctx_Err = (\<lambda>w. env_ctx_Err e (net w)),
        wait = (\<lambda>d. on_net (env_wait e d))\<rparr>"

text \<open>The world at startup.\<close>

definition serve_start :: "server_Config \<Rightarrow> Time \<Rightarrow> 'w \<Rightarrow> 'w world" where
  "serve_start cfg t n =
     \<lparr>cache_tel = Telemetry_zero, cache_sp = ha_Setpoints_zero, have_state = False,
      stale = False, status = Server_New cfg t, net = n\<rparr>"

section \<open>Parts of a world\<close>

text \<open>
  A bus that lives in a part of a larger world keeps its contract there: the lifting used for the
  manager's world, and for a pair of an inverter and a broker.
\<close>

definition via :: "('s \<Rightarrow> 'p) \<Rightarrow> ('p \<Rightarrow> 's \<Rightarrow> 's) \<Rightarrow> ('p \<Rightarrow> 'r \<times> 'p) \<Rightarrow> 's \<Rightarrow> 'r \<times> 's" where
  "via get put f s = (let (r, p) = f (get s) in (r, put p s))"

definition bus_via :: "('s \<Rightarrow> 'p) \<Rightarrow> ('p \<Rightarrow> 's \<Rightarrow> 's) \<Rightarrow> 'p HoldingReadWriter \<Rightarrow> 's HoldingReadWriter" where
  "bus_via get put bus =
     \<lparr>ReadHolding = (\<lambda>a n. via get put (ReadHolding bus a n)), WriteHolding = (\<lambda>a v. via get put (WriteHolding bus a v))\<rparr>"

lemma viaE:
  assumes "via get put f s = (r, s')"
  obtains p where "f (get s) = (r, p)" "s' = put p s"
  using assms by (auto simp: via_def Let_def split: prod.splits)

lemma bus_via_faithful:
  assumes "\<And>p s. get (put p s) = p" "faithful_bus bus S holding wear"
  shows "faithful_bus (bus_via get put bus) S (holding \<circ> get) (wear \<circ> get)"
proof -
  note B = faithful_bus.axioms(1) [OF assms(2)]
  show ?thesis
    by unfold_locales
      (auto simp: bus_via_def assms(1) elim!: viaE
        dest: holding_bus.read_wear [OF B] holding_bus.read_frame [OF B] holding_bus.read_length [OF B]
          holding_bus.read_words [OF B] holding_bus.write_wear [OF B] holding_bus.write_frame [OF B]
          holding_bus.write_ok [OF B] faithful_bus.write_held [OF assms(2)])
qed

lemma on_net_via: "on_net = via net (\<lambda>n w. w\<lparr>net := n\<rparr>)"
  by (simp add: on_net_def via_def fun_eq_iff)

lemma NewLocking_bus: "sidecar_Holding (NewLocking c) = bus_via net (\<lambda>n w. w\<lparr>net := n\<rparr>) (sidecar_Holding c)"
  by (simp add: NewLocking_def bus_via_def Locking_ReadHolding_def Locking_WriteHolding_def on_net_via fun_eq_iff)

lemma slots_cong:
  assumes "\<And>b. b \<in> slot_addrs \<Longrightarrow> bk b = bk' b"
  shows "slots_at bk = slots_at bk'" "slots_ok bk = slots_ok bk'"
proof -
  have A: "slot_at bk i = slot_at bk' i" "slot_ok bk i = slot_ok bk' i" if "i \<in> {0, 1, 2}" for i
    using assms that by (intro slot_at_cong; auto simp: timedSlotBase_def slot_addrs_def reg_simps)+
  show "slots_at bk = slots_at bk'" "slots_ok bk = slots_ok bk'"
    by (simp_all add: slots_at_def slots_ok_def A)
qed

lemma slot_addrs_control: "slot_addrs \<subseteq> {43110..43170}"
  by (auto simp: slot_addrs_def)

section \<open>The manager's environment\<close>

text \<open>
  What the manager relies on outside: a faithful bus with the control registers under it, and input
  reads, publishes and waits that leave the holding bank alone. A wait that does not run its time was
  ended by the context, which then has an error.
\<close>

locale plant = faithful_bus bus stable holding wear
  for bus :: "'w HoldingReadWriter" and stable :: "int set" and holding :: "'w \<Rightarrow> bank" and wear +
  fixes e :: "'w serve_env"
  assumes client: "sidecar_Holding (env_client e) = bus"
    and control_regs: "{43110..43170} \<subseteq> stable"
    and input_quiet: "sidecar_ReadInput (env_client e) a n w = (r, w') \<Longrightarrow>
      wear w' = wear w \<and> (\<forall>b \<in> stable. holding w' b = holding w b)"
    and broker_quiet: "env_broker e = Some p \<Longrightarrow> p t m rt w = (r', w') \<Longrightarrow>
      wear w' = wear w \<and> (\<forall>b \<in> stable. holding w' b = holding w b)"
    and wait_quiet: "env_wait e d w = (fired, w') \<Longrightarrow>
      wear w' = wear w \<and> (\<forall>b \<in> stable. holding w' b = holding w b)"
    and wait_done: "env_wait e d w = (False, w') \<Longrightarrow> env_ctx_Err e w' \<noteq> None"
begin

text \<open>Steps that change neither the bank nor the cache.\<close>

definition quiet :: "'w world \<Rightarrow> 'w world \<Rightarrow> bool" where
  "quiet w w' \<longleftrightarrow> wear (net w') = wear (net w) \<and> (\<forall>b \<in> stable. holding (net w') b = holding (net w) b) \<and>
     cache_tel w' = cache_tel w \<and> cache_sp w' = cache_sp w \<and> have_state w' = have_state w"

lemma quiet_refl [simp]: "quiet w w"
  by (simp add: quiet_def)

lemma quiet_trans: "quiet w w1 \<Longrightarrow> quiet w1 w2 \<Longrightarrow> quiet w w2"
  by (simp add: quiet_def)

lemma quiet_flags [simp]:
  "quiet w (w'\<lparr>stale := b\<rparr>) = quiet w w'" "quiet w (w'\<lparr>status := s\<rparr>) = quiet w w'"
  by (simp_all add: quiet_def)

lemma quiet_net:
  assumes "on_net f w = (r, w')" "\<And>n r n'. f n = (r, n') \<Longrightarrow> wear n' = wear n \<and> (\<forall>b \<in> stable. holding n' b = holding n b)"
  shows "quiet w w'" "stale w' = stale w" "status w' = status w"
  using assms by (auto simp: on_net_def quiet_def Let_def split: prod.splits)

lemma input_net:
  assumes "Locking_ReadInput (env_client e) a n w = (r, w')"
  shows "quiet w w' \<and> stale w' = stale w \<and> status w' = status w"
  using quiet_net [OF assms [unfolded Locking_ReadInput_def]] input_quiet by simp

lemma Collect_quiet:
  assumes "Collect local (Locking_ReadInput (env_client e)) w = (r, w')"
  shows "quiet w w'" "stale w' = stale w" "status w' = status w"
proof -
  obtain r1 w1 where R1: "Locking_ReadInput (env_client e) block1Base block1Count w = (r1, w1)" by fastforce
  obtain r2 w2 where R2: "Locking_ReadInput (env_client e) block2Base block2Count w1 = (r2, w2)" by fastforce
  have "quiet w w1 \<and> stale w1 = stale w \<and> status w1 = status w" by (rule input_net [OF R1])
  moreover have "quiet w1 w2 \<and> stale w2 = stale w1 \<and> status w2 = status w1"
    by (rule input_net [OF R2])
  moreover have "w' = w1 \<or> w' = w2" using assms R1 R2 by (auto simp: Collect_def split: sum.splits)
  ultimately show "quiet w w'" "stale w' = stale w" "status w' = status w" using quiet_trans by auto
qed

end

sublocale plant \<subseteq> inner: faithful_bus "sidecar_Holding (NewLocking (env_client e))" stable "holding \<circ> net" "wear \<circ> net"
  unfolding NewLocking_bus client
  by (rule bus_via_faithful) (simp, rule faithful_bus_axioms)

context plant
begin

lemma ReadSetpoints_quiet:
  assumes "ReadSetpoints (sidecar_Holding (NewLocking (env_client e))) w = (r, w')"
  shows "quiet w w'" "stale w' = stale w" "status w' = status w"
    "r = Inr sp \<Longrightarrow> slots_ok (holding (net w')) \<and> Slots sp = slots_at (holding (net w'))"
proof -
  obtain r0 w1 where R: "ReadHolding (sidecar_Holding (NewLocking (env_client e))) RegWorkMode setpointBlockCount w = (r0, w1)"
    by fastforce
  then have w': "w' = w1" using assms by (auto simp: ReadSetpoints_def Let_def split: sum.splits if_splits)
  have "on_net (ReadHolding bus RegWorkMode setpointBlockCount) w = (r0, w1)"
    using R by (simp add: NewLocking_def Locking_ReadHolding_def client)
  then show Q: "quiet w w'" "stale w' = stale w" "status w' = status w"
    using quiet_net [of _ w r0 w1] read_wear read_frame w' by blast+
  show "slots_ok (holding (net w')) \<and> Slots sp = slots_at (holding (net w'))" if "r = Inr sp"
  proof -
    note B = inner.ReadSetpoints_bank [OF assms [unfolded that] control_regs]
    have eq: "slots_ok (holding (net w')) = slots_ok (holding (net w))" "slots_at (holding (net w')) = slots_at (holding (net w))"
      using Q(1) control_regs slot_addrs_control by (auto simp: quiet_def intro!: slots_cong)
    show ?thesis using B(1,2) by (simp add: eq)
  qed
qed

lemma readState_quiet:
  assumes "readState e w = ((x, err), w')"
  shows "quiet w w'" "status w' = status w" "err \<noteq> None \<Longrightarrow> stale w' = stale w"
    "err = None \<Longrightarrow> stale w' \<Longrightarrow> snd x = cache_sp w"
    "err = None \<Longrightarrow> \<not> stale w' \<Longrightarrow> slots_ok (holding (net w')) \<and> ha_Slots (snd x) = slots_at (holding (net w'))"
proof -
  obtain r1 w1 where C: "Collect (env_local e) (Locking_ReadInput (env_client e)) w = (r1, w1)" by fastforce
  note QC = Collect_quiet [OF C]
  obtain r2 w2 where S: "ReadSetpoints (sidecar_Holding (NewLocking (env_client e))) w1 = (r2, w2)" by fastforce
  note QS = ReadSetpoints_quiet [OF S]
  have U: "readState e w = (case r1 of Inl er \<Rightarrow> (((Telemetry_zero, ha_Setpoints_zero), Some er), w1)
      | Inr tel \<Rightarrow> (case r2 of Inl er \<Rightarrow> (((tel, cache_sp w1), None), markStale w2)
                   | Inr sp \<Rightarrow> (((tel, toHASetpoints sp (serve_now e w2)), None), markFresh w2)))"
    using C S by (simp add: readState_def newStateReader_def NewLocking_def LastState_def split: sum.splits)
  have "cache_sp w1 = cache_sp w" using QC(1) by (simp add: quiet_def)
  note facts = U assms QC QS this
  show "quiet w w'" "status w' = status w" "err \<noteq> None \<Longrightarrow> stale w' = stale w"
    "err = None \<Longrightarrow> stale w' \<Longrightarrow> snd x = cache_sp w"
    "err = None \<Longrightarrow> \<not> stale w' \<Longrightarrow> slots_ok (holding (net w')) \<and> ha_Slots (snd x) = slots_at (holding (net w'))"
    using facts quiet_trans [OF QC(1) QS(1)]
    by (auto simp: markStale_def markFresh_def toHASetpoints_def split: sum.splits)
qed

end

lemma serve_scheduler_sel [simp]:
  "Read (serve_scheduler e) = readState e" "PublishState (serve_scheduler e) = statePub e"
  "health_MarkSuccess (serve_scheduler e) = (\<lambda>w. w\<lparr>status := MarkSuccess (status w)\<rparr>)"
  "health_MarkFailure (serve_scheduler e) = (\<lambda>w. w\<lparr>status := MarkFailure (status w)\<rparr>)"
  "rtc (serve_scheduler e) = (if env_controls e then Some (SyncRTC (serve_handler e)) else None)"
  "commander (serve_scheduler e) = (if env_controls e then Some (Apply (env_conv e) (serve_handler e)) else None)"
  "reconciler (serve_scheduler e) = (if env_controls e then Some (gatedReconciler (Reconcile (serve_handler e))) else None)"
  "sched_now (serve_scheduler e) = serve_now e" "ctx_Err (serve_scheduler e) = (\<lambda>w. env_ctx_Err e (net w))"
  "wait (serve_scheduler e) = (\<lambda>d. on_net (env_wait e d))"
  "RTCSyncEnabled (sched_cfg (serve_scheduler e)) = RTCSyncEnabled (env_sched e)"
  "RTCDriftThreshold (sched_cfg (serve_scheduler e)) = RTCDriftThreshold (env_sched e)"
  "MaxRetries (sched_cfg (serve_scheduler e)) = max 0 (MaxRetries (env_sched e))"
  by (simp_all add: serve_scheduler_def Scheduler_New_def)

lemma serve_handler_sel [simp]:
  "rw (serve_handler e) = sidecar_Holding (NewLocking (env_client e))" "enabled (serve_handler e)"
  "refresh (serve_handler e) = Some (serve_refresh e)" "now (serve_handler e) = serve_now e"
  "tou (serve_handler e) = env_tou e" "assertToU (serve_handler e) = env_assertToU e"
  by (simp_all add: serve_handler_def)

context plant
begin

lemma serve_pub_quiet:
  assumes "serve_pub e t m b w = (r, w')"
  shows "quiet w w' \<and> stale w' = stale w \<and> status w' = status w"
proof (cases "env_broker e")
  case None
  then show ?thesis using assms by (simp add: serve_pub_def Discard_Publish_def)
next
  case (Some p)
  then have "on_net (p t m b) w = (r, w')" using assms by (simp add: serve_pub_def)
  from quiet_net [OF this] broker_quiet [OF Some] show ?thesis by simp
qed

lemma statePub_quiet:
  assumes "statePub e tel sp w = (err, w')"
  shows "quiet w w'" "stale w' = stale w"
proof -
  obtain msg er w1 where S: "Service_PublishState (serve_svc e) tel sp w = ((msg, er), w1)" by (metis prod.exhaust)
  have "quiet w w1 \<and> stale w1 = stale w"
    using S serve_pub_quiet
    by (fastforce simp: Service_PublishState_def serve_svc_def Service_New_def Let_def split: sum.splits prod.splits option.splits)
  then show "quiet w w'" "stale w' = stale w"
    using assms S by (auto simp: statePub_def statePublisher_PublishState_def Let_def split: if_splits)
qed

text \<open>A read with retries, and what it hands to the reconcile.\<close>

definition reading_ok :: "'w world \<Rightarrow> Telemetry \<times> ha_Setpoints \<Rightarrow> 'w world \<Rightarrow> bool" where
  "reading_ok w x w' \<longleftrightarrow>
     (if stale w' then snd x = cache_sp w
      else slots_ok (holding (net w')) \<and> ha_Slots (snd x) = slots_at (holding (net w')))"

lemma reading_ok_quiet: "quiet w w1 \<Longrightarrow> reading_ok w1 x w' = reading_ok w x w'"
  by (simp add: reading_ok_def quiet_def)

lemma gate_quiet:
  assumes "gate (serve_scheduler e) a backoff w = (fired, w1)"
  shows "quiet w w1" "stale w1 = stale w" "status w1 = status w" "\<not> fired \<Longrightarrow> env_ctx_Err e (net w1) \<noteq> None"
proof -
  from assms have "fired \<and> w1 = w \<or> on_net (env_wait e backoff) w = (fired, w1)" by (auto simp: gate_def split: if_splits)
  then show "quiet w w1" "stale w1 = stale w" "status w1 = status w" "\<not> fired \<Longrightarrow> env_ctx_Err e (net w1) \<noteq> None"
    using quiet_net [of "env_wait e backoff" w fired w1] wait_quiet [of backoff] wait_done [of backoff]
    by (auto simp: on_net_def Let_def split: prod.splits)
qed

lemma read_loop_quiet:
  assumes "read_loop (serve_scheduler e) a backoff le w = ((x, err), w')" "0 < a \<longrightarrow> le \<noteq> None"
    and "0 \<le> a" "a \<le> MaxRetries (sched_cfg (serve_scheduler e)) + 1"
  shows "quiet w w' \<and> status w' = status w \<and> (err = None \<longrightarrow> reading_ok w x w') \<and>
    (err \<noteq> None \<longrightarrow> stale w' = stale w)"
  using assms
proof (induction rule: read_loop_runs)
  case (over a b le w)
  then show ?case by auto
next
  case (cancelled a b le w w1)
  then show ?case using gate_quiet [OF cancelled(2)] by auto
next
  case (ok a b le w w1 y w2)
  note Q1 = gate_quiet [OF ok(2)] and Q2 = readState_quiet [OF ok(3) [simplified]]
  have "reading_ok w1 y w2" using Q2(4,5) by (simp add: reading_ok_def)
  then show ?case using quiet_trans [OF Q1(1) Q2(1)] Q1 Q2(2) reading_ok_quiet [OF Q1(1)] by auto
next
  case (dead a b le w w1 y e' w2)
  note Q1 = gate_quiet [OF dead(2)] and Q2 = readState_quiet [OF dead(3) [simplified]]
  then show ?case using quiet_trans [OF Q1(1) Q2(1)] dead(4) by auto
next
  case (again a b le w w1 y e' w2 x err w')
  note Q1 = gate_quiet [OF again(2)] and Q2 = readState_quiet [OF again(3) [simplified]]
  note Q = quiet_trans [OF Q1(1) Q2(1)]
  from again(1,5,7) have "quiet w2 w' \<and> status w' = status w2 \<and> (err = None \<longrightarrow> reading_ok w2 x w') \<and> (err \<noteq> None \<longrightarrow> stale w' = stale w2)" by simp
  then show ?case using quiet_trans [OF Q] Q1 Q2(2,3) reading_ok_quiet [OF Q] by auto
qed

lemma readWithRetry_quiet:
  assumes "readWithRetry (serve_scheduler e) w = ((x, err), w')"
  shows "quiet w w'" "status w' = status w" "err = None \<Longrightarrow> reading_ok w x w'" "err \<noteq> None \<Longrightarrow> stale w' = stale w"
  using read_loop_quiet [OF assms [unfolded readWithRetry_def]] by simp_all

end

section \<open>Commands touch the outside world only\<close>

definition only_net :: "'w world \<Rightarrow> 'w world \<Rightarrow> bool" where
  "only_net w w' \<longleftrightarrow> w' = w\<lparr>net := net w'\<rparr>"

lemma only_net_refl [simp]: "only_net w w"
  by (simp add: only_net_def)

lemma only_net_fields:
  "only_net w w' \<longleftrightarrow> cache_tel w' = cache_tel w \<and> cache_sp w' = cache_sp w \<and> have_state w' = have_state w \<and>
     stale w' = stale w \<and> status w' = status w"
  by (cases w, cases w') (auto simp: only_net_def)

lemma only_net_trans: "only_net w w1 \<Longrightarrow> only_net w1 w2 \<Longrightarrow> only_net w w2"
  by (simp add: only_net_fields)

lemma only_net_call: "on_net f w = (r, w') \<Longrightarrow> only_net w w'"
  by (auto simp: on_net_def only_net_def Let_def split: prod.splits)

abbreviation locked :: "'w serve_env \<Rightarrow> 'w world HoldingReadWriter" where
  "locked e \<equiv> sidecar_Holding (NewLocking (env_client e))"

text \<open>What the calls of a bus keep, a sequence of guarded writes keeps.\<close>

definition bus_keeps :: "'s HoldingReadWriter \<Rightarrow> ('s \<Rightarrow> 'k) \<Rightarrow> bool" where
  "bus_keeps bus f \<longleftrightarrow>
     (\<forall>a n w. f (snd (ReadHolding bus a n w)) = f w) \<and> (\<forall>a v w. f (snd (WriteHolding bus a v w)) = f w)"

lemma bus_keepsD:
  assumes "bus_keeps bus f"
  shows "ReadHolding bus a n w = (r, w') \<Longrightarrow> f w' = f w" "WriteHolding bus a v w = (q, w') \<Longrightarrow> f w' = f w"
  using assms by (metis bus_keeps_def snd_conv)+

lemma readOne_keeps: "bus_keeps bus f \<Longrightarrow> readOne bus a w = (r, w') \<Longrightarrow> f w' = f w"
  by (auto simp: readOne_def split: prod.splits sum.splits if_splits dest: bus_keepsD)

lemma Guard_keeps:
  assumes "bus_keeps bus f" "Guard bus a v w = (r, w')"
  shows "f w' = f w"
  using assms(2)
  by (auto simp: Guard_def Let_def split: prod.splits sum.splits if_splits
      dest!: readOne_keeps [OF assms(1)] bus_keepsD [OF assms(1)])

lemma loop_keeps:
  assumes "bus_keeps bus f"
  shows "writeRegisters_loop bus wrote regs w = (r, w') \<Longrightarrow> f w' = f w"
proof (induction regs arbitrary: wrote w)
  case (Cons reg regs)
  obtain wr er w1 where G: "guardRetry bus (Addr reg) (Value reg) w = ((wr, er), w1)" by (metis prod.exhaust)
  then have "f w1 = f w"
    by (cases rule: guardRetry_cases) (auto dest!: Guard_keeps [OF assms])
  with Cons G show ?case by (cases er) (auto simp: loop_Cons)
qed simp

lemma locked_keeps: "bus_keeps (locked e) (\<lambda>w. w\<lparr>net := n\<rparr>)"
  by (simp add: bus_keeps_def NewLocking_def Locking_ReadHolding_def Locking_WriteHolding_def on_net_def split: prod.splits)

lemma loop_only_net: "writeRegisters_loop (locked e) wrote regs w = (r, w') \<Longrightarrow> only_net w w'"
proof -
  assume "writeRegisters_loop (locked e) wrote regs w = (r, w')"
  from loop_keeps [OF locked_keeps this, of "net w'"] show ?thesis by (simp add: only_net_def)
qed

lemma Reconcile_only_net: "only_net w (snd (Reconcile (serve_handler e) slots w))"
  using loop_only_net [of e False _ w]
  by (auto simp: Reconcile_def writeRegisters_def Let_def split: sum.splits) (metis prod.collapse)

lemma SyncRTC_only_net: "only_net w (snd (SyncRTC (serve_handler e) w))"
  by (simp add: SyncRTC_def syncRTCTo_def writeRegisters_def) (metis loop_only_net prod.collapse)

section \<open>A poll\<close>

text \<open>The ways a poll ends.\<close>

lemma poll_cases:
  obtains (failed) x er w1 where "readWithRetry (serve_scheduler e) w = ((x, Some er), w1)"
      "poll (serve_scheduler e) w = (if env_ctx_Err e (net w1) \<noteq> None then w1 else w1\<lparr>status := MarkFailure (status w1)\<rparr>)"
  | (unpublished) tel sp w1 er w2 where "readWithRetry (serve_scheduler e) w = (((tel, sp), None), w1)"
      "statePub e tel sp (RememberState tel sp w1) = (Some er, w2)"
      "poll (serve_scheduler e) w = w2\<lparr>status := MarkFailure (status w2)\<rparr>"
  | (published) tel sp w1 w2 where "readWithRetry (serve_scheduler e) w = (((tel, sp), None), w1)"
      "statePub e tel sp (RememberState tel sp w1) = (None, w2)"
      "poll (serve_scheduler e) w = maybeReconcile (serve_scheduler e) (ha_Slots sp)
         (maybeSyncRTC (serve_scheduler e) tel (w2\<lparr>status := MarkSuccess (status w2)\<rparr>))"
proof -
  obtain x err w1 where R: "readWithRetry (serve_scheduler e) w = ((x, err), w1)" by (metis prod.exhaust)
  obtain tel sp where x: "x = (tel, sp)" by fastforce
  obtain er w2 where P: "statePub e tel sp (RememberState tel sp w1) = (er, w2)" by fastforce
  show ?thesis
    using R P failed [of x _ w1] unpublished [of tel sp w1 _ w2] published [of tel sp w1 w2]
    by (cases err; cases er) (simp_all add: x poll_def Let_def)
qed

lemma maybeSyncRTC_cases:
  obtains "maybeSyncRTC (serve_scheduler e) tel w = w"
  | "maybeSyncRTC (serve_scheduler e) tel w = snd (SyncRTC (serve_handler e) w)" "RTCSyncEnabled (env_sched e)" "env_controls e"
proof -
  have "maybeSyncRTC (serve_scheduler e) tel w = w \<or>
      maybeSyncRTC (serve_scheduler e) tel w = snd (SyncRTC (serve_handler e) w) \<and> RTCSyncEnabled (env_sched e) \<and> env_controls e"
    by (simp add: maybeSyncRTC_def Let_def)
  then show ?thesis using that by blast
qed

lemma maybeReconcile_cases:
  obtains "maybeReconcile (serve_scheduler e) slots w = w" "\<not> env_controls e \<or> stale w"
  | "maybeReconcile (serve_scheduler e) slots w = snd (Reconcile (serve_handler e) slots w)" "env_controls e" "\<not> stale w"
  by (auto simp: maybeReconcile_def gatedReconciler_def isStale_def split: if_splits)

context holding_bus
begin

lemma loop_wear_addrs:
  assumes "writeRegisters_loop bus wrote regs w = (r, w')"
  shows "\<exists>frames. wear w' = wear w @ frames \<and> fst ` set frames \<subseteq> Addr ` set regs"
  using assms
proof (induction regs arbitrary: wrote w)
  case (Cons reg regs)
  obtain wr er w1 where G: "guardRetry bus (Addr reg) (Value reg) w = ((wr, er), w1)" by (metis prod.exhaust)
  then have "\<exists>frames. wear w1 = wear w @ frames \<and> fst ` set frames \<subseteq> {Addr reg}"
  proof (cases rule: guardRetry_cases)
    case (once res)
    then show ?thesis using Guard_wear(1) [OF once(1)] by auto
  next
    case (twice res er1 w2 res2)
    then show ?thesis using Guard_wear(1) [OF twice(1)] Guard_wear(1) [OF twice(3)] by auto
  qed
  then obtain f1 where f1: "wear w1 = wear w @ f1" "fst ` set f1 \<subseteq> {Addr reg}" by blast
  show ?case
  proof (cases er)
    case None
    with Cons.prems G have "writeRegisters_loop bus (wrote \<or> wr) regs w1 = (r, w')" by (simp add: loop_Cons)
    from Cons.IH [OF this] obtain f2 where "wear w' = wear w1 @ f2" "fst ` set f2 \<subseteq> Addr ` set regs" by blast
    with f1 show ?thesis by (intro exI [of _ "f1 @ f2"]) (simp add: image_Un, blast)
  next
    case (Some x)
    with Cons.prems G f1 show ?thesis by (auto simp: loop_Cons)
  qed
qed simp

end

section \<open>What a poll may write\<close>

lemma RTC_addrs: "Addr ` set (RTCWriteRegisters t) = {43000..43005}"
  by (auto simp: RTCWriteRegisters_eq)

context plant
begin

lemma sync_writes:
  assumes "snd (SyncRTC (serve_handler e) w) = w'"
  shows "\<exists>frames. wear (net w') = wear (net w) @ frames \<and> fst ` set frames \<subseteq> {43000..43005}"
    "b \<in> stable \<Longrightarrow> b \<notin> {43000..43005} \<Longrightarrow> holding (net w') b = holding (net w) b"
proof -
  obtain r where L: "writeRegisters_loop (locked e) False (RTCWriteRegisters (serve_now e w)) w = (r, w')"
    using assms by (metis SyncRTC_def syncRTCTo_def writeRegisters_def serve_handler_sel(1,4) prod.collapse)
  show "\<exists>frames. wear (net w') = wear (net w) @ frames \<and> fst ` set frames \<subseteq> {43000..43005}"
    using inner.loop_wear_addrs [OF L] by (simp add: RTC_addrs)
  obtain wr er where r: "r = (wr, er)" by fastforce
  show "b \<in> stable \<Longrightarrow> b \<notin> {43000..43005} \<Longrightarrow> holding (net w') b = holding (net w) b"
    using inner.loop_frame [OF L [unfolded r], of b] by (simp add: RTC_addrs)
qed

lemma quiet_frames: "quiet w w' \<Longrightarrow> wear (net w') = wear (net w) @ []"
  by (simp add: quiet_def)

lemma quiet_remember: "quiet w w' \<Longrightarrow> wear (net (RememberState tel sp w')) = wear (net w) \<and>
    (\<forall>b \<in> stable. holding (net (RememberState tel sp w')) b = holding (net w) b)"
  by (simp add: quiet_def RememberState_def)

text \<open>The world in which a published poll starts to write.\<close>

lemma published_world:
  assumes "readWithRetry (serve_scheduler e) w = (((tel, sp), None), w1)"
    and "statePub e tel sp (RememberState tel sp w1) = (er, w2)"
  shows "wear (net w2) = wear (net w)" "\<forall>b \<in> stable. holding (net w2) b = holding (net w) b"
    "cache_sp w2 = sp" "cache_tel w2 = tel" "have_state w2" "reading_ok w (tel, sp) w2" "stale w2 = stale w1"
proof -
  note Q1 = readWithRetry_quiet [OF assms(1)] and Q2 = statePub_quiet [OF assms(2)]
  have eq: "\<forall>b \<in> stable. holding (net w2) b = holding (net w1) b"
    using Q2(1) by (simp add: quiet_def RememberState_def)
  show "wear (net w2) = wear (net w)" "\<forall>b \<in> stable. holding (net w2) b = holding (net w) b"
    "cache_sp w2 = sp" "cache_tel w2 = tel" "have_state w2" "stale w2 = stale w1"
    using Q1(1) Q2 by (simp_all add: quiet_def RememberState_def)
  have "slots_at (holding (net w2)) = slots_at (holding (net w1))" "slots_ok (holding (net w2)) = slots_ok (holding (net w1))"
    using eq control_regs slot_addrs_control by (auto intro!: slots_cong)
  then show "reading_ok w (tel, sp) w2"
    using Q1(3) Q2(2) by (simp add: reading_ok_def RememberState_def split: if_splits)
qed

text \<open>The freshness mark of a poll is the one its read left.\<close>

lemma poll_keeps_stale:
  assumes "readWithRetry (serve_scheduler e) w = (((tel, sp), None), w1)"
  shows "stale (poll (serve_scheduler e) w) = stale w1"
proof (cases rule: poll_cases [of e w])
  case (published tel' sp' w1' w2)
  define w3 where "w3 = w2\<lparr>status := MarkSuccess (status w2)\<rparr>"
  define w4 where "w4 = maybeSyncRTC (serve_scheduler e) tel' w3"
  have "only_net w3 w4"
    by (cases rule: maybeSyncRTC_cases [of e tel' w3]) (simp_all add: w4_def SyncRTC_only_net)
  moreover have "only_net w4 (maybeReconcile (serve_scheduler e) (ha_Slots sp') w4)"
    by (cases rule: maybeReconcile_cases [of e "ha_Slots sp'" w4]) (simp_all add: Reconcile_only_net)
  moreover have "stale w3 = stale w1'" using published_world(7) [OF published(1,2)] by (simp add: w3_def)
  ultimately show ?thesis
    using assms published by (simp add: only_net_fields w3_def w4_def)
qed (use assms published_world(7) in fastforce)+

lemma poll_stale:
  assumes "stale (poll (serve_scheduler e) w)"
  shows "(\<exists>frames. wear (net (poll (serve_scheduler e) w)) = wear (net w) @ frames \<and> fst ` set frames \<subseteq> {43000..43005}) \<and>
    (\<forall>b \<in> stable - {43000..43005}. holding (net (poll (serve_scheduler e) w)) b = holding (net w) b) \<and>
    cache_sp (poll (serve_scheduler e) w) = cache_sp w"
proof (cases rule: poll_cases [of e w])
  case (failed x er w1)
  then show ?thesis using readWithRetry_quiet(1) [OF failed(1)] by (auto simp: quiet_def)
next
  case (unpublished tel sp w1 er w2)
  note P = published_world [OF unpublished(1,2)]
  then show ?thesis using assms unpublished(3) by (auto simp: reading_ok_def)
next
  case (published tel sp w1 w2)
  note P = published_world [OF published(1,2)]
  define w3 where "w3 = w2\<lparr>status := MarkSuccess (status w2)\<rparr>"
  define w4 where "w4 = maybeSyncRTC (serve_scheduler e) tel w3"
  have w3: "net w3 = net w2" "cache_sp w3 = sp" "stale w3 = stale w2" using P(3) by (simp_all add: w3_def)
  have only: "only_net w3 w4"
    by (cases rule: maybeSyncRTC_cases [of e tel w3]) (simp_all add: w4_def SyncRTC_only_net)
  have sync: "(\<exists>frames. wear (net w4) = wear (net w) @ frames \<and> fst ` set frames \<subseteq> {43000..43005}) \<and>
      (\<forall>b \<in> stable - {43000..43005}. holding (net w4) b = holding (net w) b)"
  proof (cases rule: maybeSyncRTC_cases [of e tel w3])
    case 1
    then show ?thesis using P(1,2) w3(1) by (simp add: w4_def)
  next
    case 2
    then have "snd (SyncRTC (serve_handler e) w3) = w4" by (simp add: w4_def)
    from sync_writes [OF this] show ?thesis using P(1,2) w3(1) by simp
  qed
  have poll: "poll (serve_scheduler e) w = maybeReconcile (serve_scheduler e) (ha_Slots sp) w4"
    using published(3) by (simp add: w4_def w3_def)
  have stale: "stale w4"
    using assms Reconcile_only_net [of w4 e "ha_Slots sp"] unfolding poll
    by (cases rule: maybeReconcile_cases [of e "ha_Slots sp" w4]) (auto simp: only_net_fields)
  then have "poll (serve_scheduler e) w = w4"
    unfolding poll by (cases rule: maybeReconcile_cases [of e "ha_Slots sp" w4]) simp_all
  moreover have "stale w2" "cache_sp w4 = sp" using stale only w3 by (simp_all add: only_net_fields)
  ultimately show ?thesis using sync P(6) by (simp add: reading_ok_def)
qed

end

section \<open>The running manager\<close>

text \<open>
  What the process does, one serialised cycle at a time: a poll of the scheduler, a message from the
  broker, and whatever happens outside that leaves the registers in \<open>S\<close> alone.
\<close>

inductive manager_step :: "'w serve_env \<Rightarrow> ('w \<Rightarrow> bank) \<Rightarrow> int set \<Rightarrow> 'w world \<Rightarrow> 'w world \<Rightarrow> bool" for e holding S where
  polled: "manager_step e holding S w (poll (serve_scheduler e) w)"
| commanded: "manager_step e holding S w (ApplyCommand (serve_scheduler e) topic payload w)"
| outside: "(\<And>b. b \<in> S \<Longrightarrow> holding n b = holding (net w) b) \<Longrightarrow> manager_step e holding S w (w\<lparr>net := n\<rparr>)"

inductive_cases manager_stepE: "manager_step e holding S w w'"

context plant
begin

abbreviation control :: "'w world \<Rightarrow> 'w world \<Rightarrow> bool" where
  "control \<equiv> control_step (env_conv e) (serve_handler e) (holding \<circ> net) stable"

lemma control_idle: "(\<forall>b \<in> stable. holding (net w') b = holding (net w) b) \<Longrightarrow> control\<^sup>*\<^sup>* w w'"
  by (rule r_into_rtranclp, rule control_step.idle) simp

text \<open>The two writers at the end of a poll: the clock, and the reconcile of the slots that were read.\<close>

lemma sync_control:
  assumes "maybeSyncRTC (serve_scheduler e) tel w = w'"
  shows "control\<^sup>*\<^sup>* w w' \<and> (\<forall>b \<in> stable - {43000..43005}. holding (net w') b = holding (net w) b) \<and> stale w' = stale w"
proof (cases rule: maybeSyncRTC_cases [of e tel w])
  case 2
  then have eq: "snd (SyncRTC (serve_handler e) w) = w'" using assms by simp
  moreover have "control w (snd (SyncRTC (serve_handler e) w))" by (rule control_step.sync)
  ultimately show ?thesis using sync_writes(2) [OF eq] SyncRTC_only_net [of w e] by (auto simp: only_net_fields)
qed (use assms in simp)

lemma reconcile_control:
  assumes "\<not> stale w \<Longrightarrow> slots_ok (holding (net w)) \<and> slots = slots_at (holding (net w))"
  shows "control\<^sup>*\<^sup>* w (maybeReconcile (serve_scheduler e) slots w)"
proof (cases rule: maybeReconcile_cases [of e slots w])
  case 2
  with assms control_step.reconcile [of "holding \<circ> net" w "env_conv e" "serve_handler e" stable] show ?thesis by auto
qed simp

lemma poll_control: "control\<^sup>*\<^sup>* w (poll (serve_scheduler e) w)"
proof (cases rule: poll_cases [of e w])
  case (failed x er w1)
  then show ?thesis
    using readWithRetry_quiet(1) [OF failed(1)] by (intro control_idle) (simp add: quiet_def)
next
  case (unpublished tel sp w1 er w2)
  then show ?thesis using published_world(2) [OF unpublished(1,2)] by (intro control_idle) simp
next
  case (published tel sp w1 w2)
  note P = published_world [OF published(1,2)]
  define w3 where "w3 = w2\<lparr>status := MarkSuccess (status w2)\<rparr>"
  define w4 where "w4 = maybeSyncRTC (serve_scheduler e) tel w3"
  have w3: "net w3 = net w2" "stale w3 = stale w2" by (simp_all add: w3_def)
  note B = sync_control [OF w4_def [symmetric]]
  have "slot_addrs \<inter> {43000..43005} = {}" by (auto simp: slot_addrs_def)
  with subset_trans [OF slot_addrs_control control_regs] have "\<forall>b \<in> slot_addrs. holding (net w4) b = holding (net w2) b"
    using B w3(1) by auto
  then have "slots_at (holding (net w4)) = slots_at (holding (net w2))" "slots_ok (holding (net w4)) = slots_ok (holding (net w2))"
    by (auto intro!: slots_cong)
  then have C: "control\<^sup>*\<^sup>* w4 (maybeReconcile (serve_scheduler e) (ha_Slots sp) w4)"
    using P(6) B w3(2) by (intro reconcile_control) (simp add: reading_ok_def)
  have A: "control\<^sup>*\<^sup>* w w3" using P(2) w3 by (intro control_idle) simp
  have "poll (serve_scheduler e) w = maybeReconcile (serve_scheduler e) (ha_Slots sp) w4"
    using published(3) by (simp add: w4_def w3_def)
  with A B C show ?thesis by (metis rtranclp_trans)
qed

lemma refresh_bank: "b \<in> stable \<Longrightarrow> holding (net (serve_refresh e w)) b = holding (net w) b"
proof -
  assume b: "b \<in> stable"
  obtain x err w1 where R: "readState e w = ((x, err), w1)" by (metis prod.exhaust)
  obtain tel sp where x: "x = (tel, sp)" by fastforce
  obtain er w2 where P: "statePub e tel sp w1 = (er, w2)" by fastforce
  have "serve_refresh e w = (case err of Some _ \<Rightarrow> w1 | None \<Rightarrow> RememberState tel sp w2)"
    using R P by (simp add: serve_refresh_def x split: option.splits)
  then show ?thesis
    using readState_quiet(1) [OF R] statePub_quiet(1) [OF P] b
    by (auto simp: quiet_def RememberState_def split: option.splits)
qed

lemma manager_step_control: "manager_step e holding stable w w' \<Longrightarrow> control\<^sup>*\<^sup>* w w'"
proof (erule manager_stepE)
  show "control\<^sup>*\<^sup>* w w'" if "w' = poll (serve_scheduler e) w" using that poll_control by simp
next
  fix topic payload
  assume "w' = ApplyCommand (serve_scheduler e) topic payload w"
  then have "w' = w \<or> w' = OnMessage (env_conv e) (serve_handler e) topic payload w"
    by (auto simp: ApplyCommand_def Apply_def split: if_splits)
  moreover have "control w (OnMessage (env_conv e) (serve_handler e) topic payload w)" by (rule control_step.message)
  ultimately show "control\<^sup>*\<^sup>* w w'" by auto
next
  fix n
  assume "w' = w\<lparr>net := n\<rparr>" "\<And>b. b \<in> stable \<Longrightarrow> holding n b = holding (net w) b"
  then show "control\<^sup>*\<^sup>* w w'" by (intro control_idle) simp
qed

end

context plant
begin

lemma manager_no_slot_both:
  assumes "(manager_step e holding stable)\<^sup>*\<^sup>* w w'" "no_slot_both (holding (net w))"
  shows "no_slot_both (holding (net w'))"
proof -
  have slots: "slot_addrs \<subseteq> stable" using slot_addrs_control control_regs by (rule subset_trans)
  have keeps: "no_slot_both ((holding \<circ> net) z)" if "control\<^sup>*\<^sup>* y z" "no_slot_both ((holding \<circ> net) y)" for y z
    using that
  proof (induction rule: rtranclp_induct)
    case (step y z)
    show ?case
      by (rule inner.control_step_no_slot_both [OF _ slots _ step.hyps(2) step.IH [OF step.prems]])
        (auto simp: refresh_bank)
  qed
  show ?thesis
    using assms
  proof (induction rule: rtranclp_induct)
    case (step y z)
    then show ?case using keeps [OF manager_step_control [OF step.hyps(2)]] by simp
  qed
qed

end

end
