(* ===== verification/MockSystem.thy ===== *)
theory MockSystem
  imports Manager
begin

text \<open>
  The manager over the mock sidecar and a recording broker, the two implementations of its outside
  interfaces that are part of the program: an instance of the locale \<open>plant\<close>, and the properties of
  the whole manager.
\<close>

section \<open>The environment\<close>

type_synonym mock_net = "mock_world \<times> RecordingPublisher"

abbreviation put_fst :: "'a \<Rightarrow> 'a \<times> 'b \<Rightarrow> 'a \<times> 'b" where "put_fst x s \<equiv> (x, snd s)"
abbreviation put_snd :: "'b \<Rightarrow> 'a \<times> 'b \<Rightarrow> 'a \<times> 'b" where "put_snd y s \<equiv> (fst s, y)"

definition mock_sidecar :: "mock_net sidecar" where
  "mock_sidecar =
     \<lparr>sidecar_ReadInput = (\<lambda>a n. via fst put_fst (Client_ReadInput mock_http a n)),
      sidecar_Holding = bus_via fst put_fst mock_client\<rparr>"

definition mock_broker :: "mock_net Publisher" where
  "mock_broker t p b = via snd put_snd (Recording_Publish t p b)"

text \<open>The clock stands still at \<open>t\<close> and the context lives; the rest of the configuration is free.\<close>

definition mock_env :: "Time \<Rightarrow> (float64 \<Rightarrow> string) \<Rightarrow> (float64 \<Rightarrow> u16) \<Rightarrow> ha_Config \<Rightarrow> sched_Config \<Rightarrow> bool \<Rightarrow> TimedWindow \<Rightarrow> bool \<Rightarrow> mock_net serve_env" where
  "mock_env t num conv ha cfg controls win asserted =
     \<lparr>env_local = t_loc t, env_client = mock_sidecar, env_broker = Some mock_broker, env_now = (\<lambda>_. t),
      env_ctx_Err = (\<lambda>_. None), env_wait = (\<lambda>_ s. (True, s)), env_num = num, env_conv = conv, env_ha = ha,
      env_sched = cfg, env_controls = controls, env_tou = win, env_assertToU = asserted\<rparr>"

lemma mock_env_sel [simp]:
  "env_local (mock_env t num conv ha cfg c win a) = t_loc t" "env_client (mock_env t num conv ha cfg c win a) = mock_sidecar"
  "env_broker (mock_env t num conv ha cfg c win a) = Some mock_broker" "env_now (mock_env t num conv ha cfg c win a) = (\<lambda>_. t)"
  "env_ctx_Err (mock_env t num conv ha cfg c win a) = (\<lambda>_. None)"
  "env_wait (mock_env t num conv ha cfg c win a) = (\<lambda>_ s. (True, s))" "env_num (mock_env t num conv ha cfg c win a) = num"
  "env_conv (mock_env t num conv ha cfg c win a) = conv" "env_ha (mock_env t num conv ha cfg c win a) = ha"
  "env_sched (mock_env t num conv ha cfg c win a) = cfg" "env_controls (mock_env t num conv ha cfg c win a) = c"
  "env_tou (mock_env t num conv ha cfg c win a) = win" "env_assertToU (mock_env t num conv ha cfg c win a) = a"
  by (simp_all add: mock_env_def)

section \<open>The environment keeps the contract\<close>

lemma ReadInput_frame:
  assumes "Client_ReadInput mock_http a n w = (r, w')"
  shows "mock_wear w' = mock_wear w \<and> (\<forall>b. mock_holding w' b = mock_holding w b)"
  using mock_tr.ReadInput_quiet [OF assms] by (simp add: mock_holding_bank)

interpretation mock_plant: plant "bus_via fst put_fst mock_client" UNIV "mock_holding \<circ> fst" "mock_wear \<circ> fst"
  "mock_env t num conv ha cfg controls win asserted"
  for t num conv ha cfg controls win asserted
proof -
  have F: "faithful_bus (bus_via fst put_fst mock_client) UNIV (mock_holding \<circ> fst) (mock_wear \<circ> fst)"
    by (rule bus_via_faithful [OF _ mock.faithful_bus_axioms]) simp
  show "plant (bus_via fst put_fst mock_client) UNIV (mock_holding \<circ> fst) (mock_wear \<circ> fst)
      (mock_env t num conv ha cfg controls win asserted)"
    by (intro plant.intro F plant_axioms.intro)
      (auto simp: mock_sidecar_def mock_broker_def elim!: viaE dest: ReadInput_frame)
qed

section \<open>A poll that goes through\<close>

lemma bus_via_live:
  assumes "\<And>p s. get (put p s) = p" "live_bus bus S holding wear up"
  shows "live_bus (bus_via get put bus) S (holding \<circ> get) (wear \<circ> get) (up \<circ> get)"
proof -
  have "faithful_bus (bus_via get put bus) S (holding \<circ> get) (wear \<circ> get)"
    using assms(1) live_bus.axioms(1) [OF assms(2)] by (rule bus_via_faithful)
  moreover have "live_bus_axioms (bus_via get put bus) (up \<circ> get)"
    by unfold_locales
      (use live_bus.up_read [OF assms(2)] live_bus.up_write [OF assms(2)] in
        \<open>(simp add: bus_via_def via_def Let_def split: prod.splits; metis assms(1) prod.inject)+\<close>)
  ultimately show ?thesis by (rule live_bus.intro)
qed

lemma ReadSetpoints_via: "ReadSetpoints (bus_via get put bus) s = via get put (ReadSetpoints bus) s"
  by (auto simp: ReadSetpoints_def bus_via_def via_def Let_def split: prod.splits sum.splits)

lemma mock_input_up:
  assumes "mock_up w" "0 \<le> a" "a < 65536" "1 \<le> n" "n \<le> 125"
  shows "Client_ReadInput mock_http a n w = (Inr (bank_read (mock_holding w) a (nat n)), w)"
proof -
  have r: "\<forall>v \<in> set (mock_read a n (transport w)). 0 \<le> v \<and> v < 65536"
    using assms(1) by (auto simp: mock_up_def mock_read_def split: option.splits)
  have "mock_http ''POST'' ''/read_input'' (Some (JObject [(''addr'', JInt a), (''count'', JInt n)])) w =
      (Inr (200, Some (JObject [(''addr'', JInt a), (''count'', JInt n),
         (''regs'', JList (map JInt (mock_read a n (transport w))))])), w)"
    using assms by (simp add: http_over_def next_fate_def mock_up_def serve_def handle_read_def read_body_def
        require_int_def U16_MAX_def MAX_COUNT_def)
  moreover have "map of_int (mock_read a n (transport w)) = bank_read (mock_holding w) a (nat n)"
    by (simp add: mock_read_def bank_read_def mock_holding_def)
  ultimately show ?thesis
    by (simp add: Client_ReadInput_def Client_read_def Client_do_def decode_readResponse_regs json_u16s_in_range [OF r])
qed

text \<open>The manager's reads over a sidecar that answers.\<close>

lemma mock_Collect:
  fixes w :: "mock_net world"
  assumes "mock_up (fst (net w))"
  shows "Collect l (Locking_ReadInput mock_sidecar) w = (Inr (telemetry_of l (mock_holding (fst (net w)))), w)"
proof -
  have "Locking_ReadInput mock_sidecar b n w = (Inr (bank_read (mock_holding (fst (net w))) b (nat n)), w)"
    if "0 \<le> b" "b < 65536" "1 \<le> n" "n \<le> 125" for b n
    using mock_input_up [OF assms that] by (simp add: Locking_ReadInput_def on_net_def mock_sidecar_def via_def)
  then show ?thesis
    using DecodeTelemetry_poll [of l "mock_holding (fst (net w))"]
    by (simp add: Collect_def block1Base_def block1Count_def block2Base_def block2Count_def maxReadRegisters_def bank_block_def)
qed

lemma mock_setpoints:
  "ReadSetpoints (sidecar_Holding (NewLocking mock_sidecar)) (w :: mock_net world) =
     (let (r, m) = ReadSetpoints mock_client (fst (net w)) in (r, w\<lparr>net := (m, snd (net w))\<rparr>))"
  by (simp add: NewLocking_bus ReadSetpoints_via mock_sidecar_def via_def Let_def split: prod.splits)

lemma mock_readState:
  fixes w :: "mock_net world"
  defines "bk \<equiv> mock_holding (fst (net w))"
  assumes "mock_up (fst (net w))" "slots_ok bk"
  obtains sp where "readState (mock_env t num conv ha cfg c win a) w =
      (((telemetry_of (t_loc t) bk, toHASetpoints sp t), None), w\<lparr>stale := False\<rparr>)"
    "Slots sp = slots_at bk" "finite_setpoints (toHASetpoints sp t)"
proof -
  from mock_ReadSetpoints [OF assms(2) assms(3) [unfolded bk_def]] obtain sp where
    R: "ReadSetpoints mock_client (fst (net w)) = (Inr sp, fst (net w))" by blast
  note S = mock.ReadSetpoints_bank [OF R, simplified]
  show ?thesis
  proof (rule that)
    show "readState (mock_env t num conv ha cfg c win a) w =
        (((telemetry_of (t_loc t) bk, toHASetpoints sp t), None), w\<lparr>stale := False\<rparr>)"
      using mock_Collect [OF assms(2)] mock_setpoints [of w] R
      by (simp add: readState_def newStateReader_def NewLocking_def [of mock_sidecar] LastState_def markFresh_def serve_now_def bk_def)
    show "Slots sp = slots_at bk" using S(2) by (simp add: bk_def)
    show "finite_setpoints (toHASetpoints sp t)"
      using S(2) by (simp add: finite_setpoints_def toHASetpoints_def DecodeAmps_Fin)
  qed
qed

text \<open>A slot register out of range fails the decoding of the setpoints: the reading is a stale one.\<close>

lemma mock_readState_stale:
  fixes w :: "mock_net world"
  assumes "mock_up (fst (net w))" "\<not> slots_ok (mock_holding (fst (net w)))"
  shows "readState (mock_env t num conv ha cfg c win a) w =
    (((telemetry_of (t_loc t) (mock_holding (fst (net w))), cache_sp w), None), w\<lparr>stale := True\<rparr>)"
proof -
  let ?m = "fst (net w)"
  obtain r m where R: "ReadSetpoints mock_client ?m = (r, m)" by fastforce
  have "m = ?m"
    using R mock_read_up [OF assms(1), of 43110 61]
    by (auto simp: ReadSetpoints_def RegWorkMode_def setpointBlockCount_def Let_def split: sum.splits if_splits)
  moreover obtain err where "r = Inl err"
    using R mock.ReadSetpoints_bank(1) [of ?m] assms(2) by (cases r) auto
  ultimately show ?thesis
    using mock_Collect [OF assms(1)] mock_setpoints [of w] R
    by (simp add: readState_def newStateReader_def NewLocking_def [of mock_sidecar] LastState_def markStale_def)
qed

lemma Drift_bounds: "\<bar>Drift t u\<bar> \<le> 2 ^ 63"
  by (auto simp: Drift_def Time_Sub_def minDuration_def maxDuration_def)

lemma mock_statePub:
  fixes w :: "mock_net world" and ha :: ha_Config and t :: Time and l :: location and bk :: bank
  assumes "finite_setpoints sp"
  defines "msg \<equiv> \<lparr>Topic = StateTopic ha, Payload = Json (JMap (State_members
      (State_of (telemetry_of l bk) (Drift (Telemetry_Time (telemetry_of l bk)) t) sp)))\<rparr>"
  shows "\<exists>st. statePub (mock_env t num conv ha cfg c win a) (telemetry_of l bk) sp w =
    (None, w\<lparr>net := (fst (net w), snd (Recording_Publish (Topic msg) (Payload msg) True (snd (net w)))), status := st\<rparr>) \<and>
    ready st = ready (status w) \<and> last_reading st \<noteq> None"
proof -
  let ?e = "mock_env t num conv ha cfg c win a" and ?T = "telemetry_of l bk"
  have B: "BuildState ha ?T (Drift (Telemetry_Time ?T) t) sp = Inr msg"
    using State_of_marshals [OF Drift_bounds assms(1), of l bk "Telemetry_Time ?T" t]
    by (simp add: BuildState_def json_Marshal_def msg_def del: marshals.simps)
  have P: "serve_pub ?e tp p b w =
      (None, w\<lparr>net := (fst (net w), snd (Recording_Publish tp p b (snd (net w))))\<rparr>)" for tp p b
    by (simp add: serve_pub_def on_net_def mock_broker_def via_def Recording_Publish_def Let_def)
  have S: "Service_PublishState (serve_svc ?e) ?T sp w =
      ((msg, None), w\<lparr>net := (fst (net w), snd (Recording_Publish (Topic msg) (Payload msg) True (snd (net w))))\<rparr>)"
    using B P by (simp add: Service_PublishState_def serve_svc_def Service_New_def serve_now_def)
  have "\<not> payload_empty (Payload msg)" by (simp add: msg_def payload_empty_def)
  moreover have "\<exists>rs. decodeValues (doc_of num (Payload msg)) = Inr rs"
    by (simp add: msg_def doc_of_def decodeValues_def)
  ultimately show ?thesis
    using S by (auto simp: statePub_def statePublisher_PublishState_def RecordReading_def Let_def)
qed

section \<open>A poll over a mock that is up\<close>

interpretation mock_system: live_bus "locked (mock_env t num conv ha cfg c win a)" UNIV
  "(mock_holding \<circ> fst) \<circ> net" "(mock_wear \<circ> fst) \<circ> net" "(mock_up \<circ> fst) \<circ> net"
  for t num conv ha cfg c win a
proof -
  have "live_bus (bus_via fst put_fst mock_client) UNIV (mock_holding \<circ> fst) (mock_wear \<circ> fst) (mock_up \<circ> fst)"
    by (rule bus_via_live [OF _ mock.live_bus_axioms]) simp
  from bus_via_live [OF _ this, where get = net and put = "\<lambda>n w. w\<lparr>net := n\<rparr>"]
  show "live_bus (locked (mock_env t num conv ha cfg c win a)) UNIV
      ((mock_holding \<circ> fst) \<circ> net) ((mock_wear \<circ> fst) \<circ> net) ((mock_up \<circ> fst) \<circ> net)"
    by (simp add: NewLocking_bus mock_sidecar_def)
qed

lemma mock_bus_keeps: "bus_keeps (locked (mock_env t num conv ha cfg c win a)) (\<lambda>w. snd (net w))"
  by (simp add: bus_keeps_def NewLocking_bus bus_via_def via_def mock_sidecar_def split: prod.splits)

context live_bus
begin

lemma Reconcile_up:
  assumes "rw h = bus" "up w" "slots_ok (holding w)" "enabled h" "slot_addrs \<subseteq> stable"
  shows "\<exists>wr w'. Reconcile h (slots_at (holding w)) w = ((wr, None), w')"
proof -
  define diff where "diff = filter (\<lambda>r. holding w (Addr r) \<noteq> Value r)
      (schedule_regs (Desired (tou h) (assertToU h) (slots_at (holding w)) (now h w)))"
  have "Addr ` set diff \<subseteq> slot_addrs" unfolding diff_def by (rule diff_addrs)
  then have "Addr ` set diff \<subseteq> stable \<inter> {0..<65536}" using assms(5) slot_addrs_control by fastforce
  from loop_up [OF assms(2) this, of False] show ?thesis
    using Reconcile_unfold [OF assms(3,4), of w] assms(1) by (auto simp: Let_def diff_def writeRegisters_def)
qed

end

text \<open>A poll that read, published and had no clock to set ends in its reconcile.\<close>

lemma poll_through:
  assumes "readState e w = (((tel, sp), None), w1)" "statePub e tel sp (RememberState tel sp w1) = (None, w2)"
    and "\<not> RTCSyncEnabled (env_sched e)" "env_controls e" "\<not> stale w2"
  shows "poll (serve_scheduler e) w = snd (Reconcile (serve_handler e) (ha_Slots sp) (w2\<lparr>status := MarkSuccess (status w2)\<rparr>))"
proof -
  have "readWithRetry (serve_scheduler e) w = (((tel, sp), None), w1)"
    using read_loop_rounds(2) [of 0 "serve_scheduler e" Second w w "(tel, sp)" w1 None] assms(1)
    by (simp add: readWithRetry_def gate_def)
  then show ?thesis
    using assms(2-5) by (simp add: poll_def Let_def maybeSyncRTC_def maybeReconcile_def gatedReconciler_def isStale_def)
qed

lemma Reconcile_keeps:
  assumes "bus_keeps bus f" "rw h = bus"
  shows "f (snd (Reconcile h slots w)) = f w"
proof -
  have "f (snd (writeRegisters h regs w)) = f w" for regs
    using loop_keeps [OF assms(1), of False regs w] by (simp add: writeRegisters_def assms(2)) (metis prod.collapse)
  then show ?thesis by (auto simp: Reconcile_def Let_def split: sum.splits)
qed

text \<open>The read and the publication of a poll against a mock sidecar that answers.\<close>

lemma mock_published:
  fixes w :: "mock_net world" and t :: Time and num conv ha cfg win asserted
  assumes "mock_up (fst (net w))" "slots_ok (mock_holding (fst (net w)))"
  defines "bk \<equiv> mock_holding (fst (net w))" and "e \<equiv> mock_env t num conv ha cfg True win asserted"
  defines "T \<equiv> telemetry_of (t_loc t) bk"
  obtains hs w2 msg where "readState e w = (((T, hs), None), w\<lparr>stale := False\<rparr>)"
    "statePub e T hs (RememberState T hs (w\<lparr>stale := False\<rparr>)) = (None, w2)" "ha_Slots hs = slots_at bk"
    "BuildState ha T (Drift (Telemetry_Time T) t) hs = Inr msg" "recorded_store (snd (net w2)) (StateTopic ha) = Some (Payload msg)"
    "fst (net w2) = fst (net w)" "LastState w2 = (T, hs, True)" "\<not> stale w2" "last_reading (status w2) \<noteq> None"
proof -
  obtain sp where R: "readState e w = (((T, toHASetpoints sp t), None), w\<lparr>stale := False\<rparr>)"
    and sp: "Slots sp = slots_at bk" "finite_setpoints (toHASetpoints sp t)"
    using mock_readState [OF assms(1,2)] unfolding bk_def e_def T_def by metis
  define hs where "hs = toHASetpoints sp t"
  define st where "st = State_of T (Drift (Telemetry_Time T) t) hs"
  define w1 where "w1 = RememberState T hs (w\<lparr>stale := False\<rparr>)"
  let ?r = "snd (Recording_Publish (StateTopic ha) (Json (JMap (State_members st))) True (snd (net w1)))"
  from mock_statePub [OF sp(2), of t num conv ha cfg True win asserted "t_loc t" bk w1] obtain s where
    P: "statePub e T hs w1 = (None, w1\<lparr>net := (fst (net w1), ?r), status := s\<rparr>)" "last_reading s \<noteq> None"
    by (auto simp: hs_def st_def e_def T_def)
  have B: "BuildState ha T (Drift (Telemetry_Time T) t) hs = Inr \<lparr>Topic = StateTopic ha, Payload = Json (JMap (State_members st))\<rparr>"
    using State_of_marshals [OF Drift_bounds sp(2) [folded hs_def], of "t_loc t" bk "Telemetry_Time T" t]
    by (simp add: BuildState_def json_Marshal_def st_def T_def del: marshals.simps)
  show thesis
    by (rule that [OF R [folded hs_def] P(1) [unfolded w1_def] _ B])
      (use P(2) sp(1) in \<open>simp_all add: hs_def toHASetpoints_def RememberState_def LastState_def
        recorded_store_def Recording_Publish_def payload_empty_def Let_def\<close>)
qed

section \<open>Properties\<close>


text \<open>A bank with a tariff and a time on its clock, and the default configuration against it.\<close>

definition demo_ha :: ha_Config where
  "demo_ha = \<lparr>DiscoveryPrefix = ''homeassistant'', TopicPrefix = ''solis'', Serial = ''1'', ObjectIDPrefix = '''', ControlsEnabled = True\<rparr>"

definition demo_tou :: TimedWindow where
  "demo_tou = \<lparr>Start = \<lparr>Hour = 23, Minute = 30\<rparr>, End = \<lparr>Hour = 5, Minute = 30\<rparr>\<rparr>"

definition demo_env :: "bool \<Rightarrow> mock_net serve_env" where
  "demo_env sync = mock_env Time_zero (\<lambda>_. ''0'') (\<lambda>_. 0) demo_ha
     \<lparr>PollInterval = 60 * Second, MaxRetries = 3, RTCSyncEnabled = sync, RTCDriftThreshold = 60 * Second\<rparr> True demo_tou True"

definition demo_start :: "(int \<rightharpoonup> int) \<Rightarrow> mock_net world" where
  "demo_start regs =
     serve_start \<lparr>FailureThreshold = 3, server_PollInterval = 60 * Second\<rparr> Time_zero
       (\<lparr>transport = \<lparr>mock_regs = regs, taken = []\<rparr>, fates = []\<rparr>, NewRecordingPublisher)"

lemma demo_start_net [simp]:
  "fst (net (demo_start regs)) = \<lparr>transport = \<lparr>mock_regs = regs, taken = []\<rparr>, fates = []\<rparr>"
  by (simp add: demo_start_def serve_start_def)


text \<open>
  C4: a poll that could not decode the setpoints decides nothing about the schedule from its cache:
  it writes no register but the six of the clock, and those only to set the clock, leaves every other
  register as it was and keeps the cached setpoints.
\<close>

theorem stale_poll_confined:
  assumes "plant bus S holding wear e" "isStale (poll (serve_scheduler e) w)"
  shows "(\<exists>frames. wear (net (poll (serve_scheduler e) w)) = wear (net w) @ frames \<and> fst ` set frames \<subseteq> {43000..43005}) \<and>
    (\<forall>b \<in> S - {43000..43005}. holding (net (poll (serve_scheduler e) w)) b = holding (net w) b) \<and>
    cache_sp (poll (serve_scheduler e) w) = cache_sp w"
  using plant.poll_stale [OF assms(1)] assms(2) by (simp add: isStale_def)

theorem stale_poll_confined_witness:
  "isStale (poll (serve_scheduler (demo_env True)) (demo_start [43143 \<mapsto> 99])) \<and>
   map (mock_holding (fst (net (poll (serve_scheduler (demo_env True)) (demo_start [43143 \<mapsto> 99])))))
     [43110, 43141, 43143, 43144, 43170] = [0, 0, 99, 0, 0]"
proof -
  let ?w = "demo_start [43143 \<mapsto> 99]"
  have hw: "mock_holding (fst (net ?w)) = (\<lambda>b. if b = 43143 then 99 else 0)" by (auto simp: mock_holding_def)
  have "mock_up (fst (net ?w))" "\<not> slots_ok (mock_holding (fst (net ?w)))"
    unfolding hw by (auto simp: mock_up_def slots_ok_def slot_ok_def window_ok_def timedSlotBase_def offset_defs reg_simps maxHour_def)
  note R = mock_readState_stale [OF this, of Time_zero "\<lambda>_. ''0''" "\<lambda>_. 0" demo_ha "env_sched (demo_env True)" True demo_tou True]
  have "readWithRetry (serve_scheduler (demo_env True)) ?w =
      (((telemetry_of UTC (mock_holding (fst (net ?w))), cache_sp ?w), None), ?w\<lparr>stale := True\<rparr>)"
    using read_loop_rounds(2) [of 0 "serve_scheduler (demo_env True)" Second ?w ?w] R
    by (simp add: readWithRetry_def gate_def demo_env_def Time_zero_def)
  from mock_plant.poll_keeps_stale [OF this [unfolded demo_env_def], folded demo_env_def]
  have S: "isStale (poll (serve_scheduler (demo_env True)) ?w)" by (simp add: isStale_def)
  have "plant (bus_via fst put_fst mock_client) UNIV (mock_holding \<circ> fst) (mock_wear \<circ> fst) (demo_env True)"
    unfolding demo_env_def by (rule mock_plant.plant_axioms)
  from stale_poll_confined [OF this S] S show ?thesis unfolding comp_def hw by simp
qed



end
