(* ===== verification/Mutex.thy ===== *)
theory Mutex
  imports MockSystem
begin

text \<open>
  The mutex of \<open>controls.Locking\<close> (\<open>internal/controls/locking.go\<close>): goroutines that call the wrapper at the
  same time, step by step. The transaction behind a call is not atomic here - it takes the state of
  the inverter when its request is sent and leaves its result when the reply comes - so that two
  transactions in flight would lose one another's effect. That a call is one step on the world, as
  the rest of the development has it, is then what the mutex gives.
\<close>

section \<open>Calls\<close>

datatype bus_call = CallReadInput int int | CallReadHolding int int | CallWriteHolding int u16

datatype bus_reply = Words "u16 list result" | Ack "unit result"

fun perform :: "'w sidecar \<Rightarrow> bus_call \<Rightarrow> 'w \<Rightarrow> bus_reply \<times> 'w" where
  "perform inner (CallReadInput addr count) w = map_prod Words id (sidecar_ReadInput inner addr count w)"
| "perform inner (CallReadHolding addr count) w = map_prod Words id (ReadHolding (sidecar_Holding inner) addr count w)"
| "perform inner (CallWriteHolding addr v) w = map_prod Ack id (WriteHolding (sidecar_Holding inner) addr v w)"

text \<open>
  Where a goroutine is in a method of the wrapper: outside, blocked in \<open>l.mu.Lock()\<close>, past it, in the
  inner call with its request sent, and returned from it with the deferred \<open>Unlock\<close> still to come.
\<close>

datatype 'w caller = Idle | Blocked bus_call | Locked bus_call | Sent bus_call 'w | Returned bus_reply

fun in_section :: "'w caller \<Rightarrow> bool" where
  "in_section (Locked q) = True"
| "in_section (Sent q w) = True"
| "in_section (Returned r) = True"
| "in_section _ = False"

record 'w lock_state =
  callers :: "nat \<Rightarrow> 'w caller"
  mu :: "nat option"
  line :: 'w
  calls_done :: "(nat \<times> bus_call \<times> bus_reply) list"

inductive lock_step :: "'w sidecar \<Rightarrow> 'w lock_state \<Rightarrow> 'w lock_state \<Rightarrow> bool" for inner where
  enters: "callers s t = Idle \<Longrightarrow> lock_step inner s (s\<lparr>callers := (callers s)(t := Blocked q)\<rparr>)"
| locks: "callers s t = Blocked q \<Longrightarrow> mu s = None \<Longrightarrow>
    lock_step inner s (s\<lparr>mu := Some t, callers := (callers s)(t := Locked q)\<rparr>)"
| sends: "callers s t = Locked q \<Longrightarrow> lock_step inner s (s\<lparr>callers := (callers s)(t := Sent q (line s))\<rparr>)"
| replies: "callers s t = Sent q w \<Longrightarrow> perform inner q w = (r, w') \<Longrightarrow>
    lock_step inner s (s\<lparr>line := w', callers := (callers s)(t := Returned r), calls_done := calls_done s @ [(t, q, r)]\<rparr>)"
| unlocks: "callers s t = Returned r \<Longrightarrow> lock_step inner s (s\<lparr>mu := None, callers := (callers s)(t := Idle)\<rparr>)"

inductive_cases lock_stepE: "lock_step inner s s'"

definition lock_start :: "'w \<Rightarrow> 'w lock_state" where
  "lock_start w = \<lparr>callers = (\<lambda>_. Idle), mu = None, line = w, calls_done = []\<rparr>"

text \<open>The calls of a log, each made at once on the world the one before it left.\<close>

fun one_by_one :: "'w sidecar \<Rightarrow> (nat \<times> bus_call \<times> bus_reply) list \<Rightarrow> 'w \<Rightarrow> 'w \<Rightarrow> bool" where
  "one_by_one inner [] w w' \<longleftrightarrow> w' = w"
| "one_by_one inner ((t, q, r) # cs) w w' \<longleftrightarrow> fst (perform inner q w) = r \<and> one_by_one inner cs (snd (perform inner q w)) w'"

section \<open>The invariant\<close>

text \<open>Whoever is in the section holds the mutex; a request in flight has seen the line as it still is.\<close>

definition lock_ok :: "'w lock_state \<Rightarrow> bool" where
  "lock_ok s \<longleftrightarrow> (\<forall>t. in_section (callers s t) \<longleftrightarrow> mu s = Some t) \<and> (\<forall>t q w. callers s t = Sent q w \<longrightarrow> w = line s)"

lemma lock_ok_start [simp]: "lock_ok (lock_start w)"
  by (simp add: lock_ok_def lock_start_def)

lemma lock_okD:
  assumes "lock_ok s"
  shows "in_section (callers s t) \<Longrightarrow> mu s = Some t" "mu s = Some t \<Longrightarrow> in_section (callers s t)"
    "callers s t = Sent q w \<Longrightarrow> w = line s"
  using assms by (auto simp: lock_ok_def)

lemma lock_ok_step:
  assumes "lock_step inner s s'" "lock_ok s"
  shows "lock_ok s'"
  using assms(1)
proof (cases rule: lock_step.cases)
  case (enters t q)
  then have "mu s \<noteq> Some t" using lock_okD(2) [OF assms(2), of t] by auto
  then show ?thesis using assms(2) enters by (auto simp: lock_ok_def)
next
  case (replies t q w r w')
  have "mu s = Some t" using lock_okD(1) [OF assms(2), of t] replies(2) by simp
  then have "callers s u \<noteq> Sent q' v" if "u \<noteq> t" for u q' v
    using lock_okD(1) [OF assms(2), of u] that by auto
  then show ?thesis using assms(2) replies by (auto simp: lock_ok_def split: if_splits)
next
  case (unlocks t r)
  have "mu s = Some t" using lock_okD(1) [OF assms(2), of t] unlocks(2) by simp
  then have "\<not> in_section (callers s u)" if "u \<noteq> t" for u using lock_okD(1) [OF assms(2), of u] that by auto
  then show ?thesis using assms(2) unlocks by (auto simp: lock_ok_def split: if_splits)
qed (use assms(2) in \<open>auto simp: lock_ok_def split: if_splits\<close>)

lemma one_by_one_snoc:
  "one_by_one inner (cs @ [(t, q, r)]) w w' \<longleftrightarrow>
     (\<exists>v. one_by_one inner cs w v \<and> perform inner q v = (r, w'))"
  by (induction cs arbitrary: w) (auto simp: prod_eq_iff)

lemma lock_reach:
  assumes "(lock_step inner)\<^sup>*\<^sup>* (lock_start w) s"
  shows "lock_ok s \<and> one_by_one inner (calls_done s) w (line s)"
  using assms
proof (induction rule: rtranclp_induct)
  case base
  then show ?case by simp (simp add: lock_start_def)
next
  case (step s s')
  have ok: "lock_ok s'" using step lock_ok_step by blast
  from step.hyps(2) show ?case
  proof (cases rule: lock_step.cases)
    case (replies t q v r w')
    with step.IH lock_okD(3) [of s t q v] have "v = line s" by blast
    then show ?thesis using ok step.IH replies by (auto simp: one_by_one_snoc)
  qed (use ok step.IH in auto)
qed


section \<open>Calls return\<close>

text \<open>The holder of the mutex can go on to its \<open>Unlock\<close> on its own, and leaves the other goroutines where they are.\<close>

lemma returned_releases:
  assumes "callers s t = Returned r"
  shows "\<exists>s'. (lock_step inner)\<^sup>*\<^sup>* s s' \<and> mu s' = None \<and> callers s' = (callers s)(t := Idle)"
  by (rule exI [of _ "s\<lparr>mu := None, callers := (callers s)(t := Idle)\<rparr>"])
    (use lock_step.unlocks [OF assms] in auto)

lemma sent_releases:
  assumes "callers s t = Sent q w"
  shows "\<exists>s'. (lock_step inner)\<^sup>*\<^sup>* s s' \<and> mu s' = None \<and> callers s' = (callers s)(t := Idle)"
proof -
  obtain r w' where P: "perform inner q w = (r, w')" by fastforce
  define s1 where "s1 = s\<lparr>line := w', callers := (callers s)(t := Returned r), calls_done := calls_done s @ [(t, q, r)]\<rparr>"
  have "lock_step inner s s1" unfolding s1_def by (rule lock_step.replies [OF assms P])
  moreover have "callers s1 t = Returned r" "(callers s1)(t := Idle) = (callers s)(t := Idle)" by (simp_all add: s1_def)
  ultimately show ?thesis using returned_releases [of s1 t r] by (metis converse_rtranclp_into_rtranclp)
qed

lemma holder_releases:
  assumes "in_section (callers s t)"
  shows "\<exists>s'. (lock_step inner)\<^sup>*\<^sup>* s s' \<and> mu s' = None \<and> callers s' = (callers s)(t := Idle)"
proof (cases "callers s t")
  case (Locked q)
  define s1 where "s1 = s\<lparr>callers := (callers s)(t := Sent q (line s))\<rparr>"
  have "lock_step inner s s1" unfolding s1_def by (rule lock_step.sends [OF Locked])
  moreover have "callers s1 t = Sent q (line s)" "(callers s1)(t := Idle) = (callers s)(t := Idle)" by (simp_all add: s1_def)
  ultimately show ?thesis using sent_releases [of s1 t q "line s"] by (metis converse_rtranclp_into_rtranclp)
qed (use assms sent_releases returned_releases in auto)

lemma caller_returns:
  assumes "lock_ok s"
  shows "\<exists>s'. (lock_step inner)\<^sup>*\<^sup>* s s' \<and> callers s' t = Idle"
proof (cases "callers s t")
  case Idle
  then show ?thesis by blast
next
  case (Blocked q)
  obtain s1 where s1: "(lock_step inner)\<^sup>*\<^sup>* s s1" "mu s1 = None" "callers s1 t = Blocked q"
  proof (cases "mu s")
    case None
    then show ?thesis using that [of s] Blocked by simp
  next
    case (Some u)
    then have u: "in_section (callers s u)" "u \<noteq> t" using lock_okD(2) [OF assms] Blocked by auto
    from holder_releases [OF u(1), of inner] show ?thesis using that u(2) Blocked by auto
  qed
  define s2 where "s2 = s1\<lparr>mu := Some t, callers := (callers s1)(t := Locked q)\<rparr>"
  have "lock_step inner s1 s2" unfolding s2_def by (rule lock_step.locks [OF s1(3,2)])
  moreover from holder_releases [of s2 t inner] obtain s3 where "(lock_step inner)\<^sup>*\<^sup>* s2 s3" "callers s3 t = Idle"
    by (auto simp: s2_def)
  ultimately show ?thesis using s1(1) by (meson rtranclp.rtrancl_into_rtrancl rtranclp_trans)
qed (use holder_releases [of s t inner] in auto)

section \<open>Properties\<close>

text \<open>
  C11: the wrapper's mutex makes its calls atomic: in every interleaving of any number of goroutines at
  most one is between lock and unlock, the inverter is as if the calls that have returned had been made
  at once and one after the other, each with the reply it had then, and whoever has entered a call can
  always come back from it.
\<close>

theorem locking_serialises:
  assumes "(lock_step inner)\<^sup>*\<^sup>* (lock_start w) s"
  shows "(in_section (callers s t) \<longrightarrow> in_section (callers s u) \<longrightarrow> t = u) \<and>
    one_by_one inner (calls_done s) w (line s) \<and>
    (\<exists>s'. (lock_step inner)\<^sup>*\<^sup>* s s' \<and> callers s' t = Idle)"
proof (intro conjI impI)
  from lock_reach [OF assms] have ok: "lock_ok s" and log: "one_by_one inner (calls_done s) w (line s)" by simp_all
  show "t = u" if "in_section (callers s t)" "in_section (callers s u)"
    using lock_okD(1) [OF ok that(1)] lock_okD(1) [OF ok that(2)] by simp
  show "one_by_one inner (calls_done s) w (line s)" by (rule log)
  show "\<exists>s'. (lock_step inner)\<^sup>*\<^sup>* s s' \<and> callers s' t = Idle" by (rule caller_returns [OF ok])
qed

theorem locking_serialises_witness:
  "\<exists>s'. (lock_step mock_sidecar)\<^sup>*\<^sup>*
     \<lparr>callers = (\<lambda>_. Idle)(0 := Sent (CallWriteHolding 43141 7) (net (demo_start Map.empty)), 1 := Blocked (CallReadHolding 43141 1)),
      mu = Some 0, line = net (demo_start Map.empty), calls_done = []\<rparr> s' \<and> callers s' 1 = Idle"
proof -
  let ?w = "net (demo_start Map.empty)" and ?q = "CallWriteHolding 43141 7" and ?r = "CallReadHolding 43141 1"
  let ?s1 = "\<lparr>callers = (\<lambda>_. Idle)(0 := Blocked ?q), mu = None, line = ?w, calls_done = []\<rparr>"
  let ?s2 = "\<lparr>callers = (\<lambda>_. Idle)(0 := Blocked ?q, 1 := Blocked ?r), mu = None, line = ?w, calls_done = []\<rparr>"
  let ?s3 = "\<lparr>callers = (\<lambda>_. Idle)(0 := Locked ?q, 1 := Blocked ?r), mu = Some 0, line = ?w, calls_done = []\<rparr>"
  let ?s4 = "\<lparr>callers = (\<lambda>_. Idle)(0 := Sent ?q ?w, 1 := Blocked ?r), mu = Some 0, line = ?w, calls_done = []\<rparr>"
  have "lock_step mock_sidecar (lock_start ?w) ?s1"
    using lock_step.enters [of "lock_start ?w" 0 mock_sidecar ?q] by (simp add: lock_start_def)
  moreover have "lock_step mock_sidecar ?s1 ?s2" using lock_step.enters [of ?s1 1 mock_sidecar ?r] by simp
  moreover have "lock_step mock_sidecar ?s2 ?s3"
    using lock_step.locks [of ?s2 0 ?q mock_sidecar] by (simp add: fun_upd_twist)
  moreover have "lock_step mock_sidecar ?s3 ?s4"
    using lock_step.sends [of ?s3 0 ?q mock_sidecar] by (simp add: fun_upd_twist)
  ultimately have "(lock_step mock_sidecar)\<^sup>*\<^sup>* (lock_start ?w) ?s4"
    by (meson rtranclp.rtrancl_refl rtranclp.rtrancl_into_rtrancl)
  from locking_serialises [OF this, of 1 0] show ?thesis by simp
qed

end
