(* ===== verification/Simulation.thy ===== *)
theory Simulation
  imports Manager
begin

text \<open>
  The operations of the controls, of the poll and of the publisher pass a world through and touch it
  only through the calls they are given. This theory makes that a theorem: if two worlds are related
  and the calls keep them related, so does every operation built from the calls. \<open>lost\<close> marks worlds of
  the first run in which it has stopped following the second; it stays marked.
\<close>

locale simulation =
  fixes R :: "'s \<Rightarrow> 't \<Rightarrow> bool" and lost :: "'s \<Rightarrow> bool"
begin

text \<open>Computations with a result, and plain changes of the world.\<close>

definition sim :: "('s \<Rightarrow> 'r \<times> 's) \<Rightarrow> ('t \<Rightarrow> 'r \<times> 't) \<Rightarrow> bool" where
  "sim f g \<longleftrightarrow>
     (\<forall>s. lost s \<longrightarrow> lost (snd (f s))) \<and>
     (\<forall>s t. R s t \<longrightarrow> lost (snd (f s)) \<or> fst (f s) = fst (g t) \<and> R (snd (f s)) (snd (g t)))"

definition simw :: "('s \<Rightarrow> 's) \<Rightarrow> ('t \<Rightarrow> 't) \<Rightarrow> bool" where
  "simw f g \<longleftrightarrow> (\<forall>s. lost s \<longrightarrow> lost (f s)) \<and> (\<forall>s t. R s t \<longrightarrow> lost (f s) \<or> R (f s) (g t))"

definition same :: "('s \<Rightarrow> 'a) \<Rightarrow> ('t \<Rightarrow> 'a) \<Rightarrow> bool" where
  "same f g \<longleftrightarrow> (\<forall>s t. R s t \<longrightarrow> f s = g t)"

lemma sim_return: "sim (\<lambda>s. (x, s)) (\<lambda>t. (x, t))"
  by (simp add: sim_def)

lemma simw_id: "simw (\<lambda>s. s) (\<lambda>t. t)"
  by (simp add: simw_def)

lemma sim_bind:
  assumes "sim f g" "\<And>r. sim (h r) (k r)"
  shows "sim (\<lambda>s. case f s of (r, s) \<Rightarrow> h r s) (\<lambda>t. case g t of (r, t) \<Rightarrow> k r t)"
  using assms unfolding sim_def by (simp add: case_prod_unfold) metis

lemma simw_bind:
  assumes "sim f g" "\<And>r. simw (h r) (k r)"
  shows "simw (\<lambda>s. case f s of (r, s) \<Rightarrow> h r s) (\<lambda>t. case g t of (r, t) \<Rightarrow> k r t)"
  using assms unfolding sim_def simw_def by (simp add: case_prod_unfold) metis

lemma sim_then: "simw f g \<Longrightarrow> sim h k \<Longrightarrow> sim (\<lambda>s. h (f s)) (\<lambda>t. k (g t))"
  unfolding sim_def simw_def by blast

lemma simw_then: "simw f g \<Longrightarrow> simw h k \<Longrightarrow> simw (\<lambda>s. h (f s)) (\<lambda>t. k (g t))"
  unfolding simw_def by blast

lemma sim_result: "simw f g \<Longrightarrow> sim (\<lambda>s. (x, f s)) (\<lambda>t. (x, g t))"
  by (simp add: sim_def simw_def)

lemma simw_snd: "sim f g \<Longrightarrow> simw (\<lambda>s. snd (f s)) (\<lambda>t. snd (g t))"
  by (auto simp: sim_def simw_def)

lemma simwD: "simw f g \<Longrightarrow> R s t \<Longrightarrow> \<not> lost (f s) \<Longrightarrow> R (f s) (g t)"
  by (auto simp: simw_def)

text \<open>A value read from the world before going on.\<close>

lemma sim_get:
  assumes "same f g" "\<And>x. sim (h x) (k x)"
  shows "sim (\<lambda>s. h (f s) s) (\<lambda>t. k (g t) t)"
  using assms unfolding sim_def same_def by (metis (no_types))

lemma simw_get:
  assumes "same f g" "\<And>x. simw (h x) (k x)"
  shows "simw (\<lambda>s. h (f s) s) (\<lambda>t. k (g t) t)"
  using assms unfolding simw_def same_def by (metis (no_types))

lemma sim_sum:
  assumes "\<And>x. sim (f x) (g x)" "\<And>y. sim (h y) (k y)"
  shows "sim (\<lambda>s. case r of Inl x \<Rightarrow> f x s | Inr y \<Rightarrow> h y s) (\<lambda>t. case r of Inl x \<Rightarrow> g x t | Inr y \<Rightarrow> k y t)"
  by (cases r) (simp_all add: assms)

lemma simw_sum:
  assumes "\<And>x. simw (f x) (g x)" "\<And>y. simw (h y) (k y)"
  shows "simw (\<lambda>s. case r of Inl x \<Rightarrow> f x s | Inr y \<Rightarrow> h y s) (\<lambda>t. case r of Inl x \<Rightarrow> g x t | Inr y \<Rightarrow> k y t)"
  by (cases r) (simp_all add: assms)

lemma sim_option:
  assumes "sim f g" "\<And>y. sim (h y) (k y)"
  shows "sim (\<lambda>s. case r of None \<Rightarrow> f s | Some y \<Rightarrow> h y s) (\<lambda>t. case r of None \<Rightarrow> g t | Some y \<Rightarrow> k y t)"
  by (cases r) (simp_all add: assms)

lemma simw_option:
  assumes "simw f g" "\<And>y. simw (h y) (k y)"
  shows "simw (\<lambda>s. case r of None \<Rightarrow> f s | Some y \<Rightarrow> h y s) (\<lambda>t. case r of None \<Rightarrow> g t | Some y \<Rightarrow> k y t)"
  by (cases r) (simp_all add: assms)

lemma sim_prod:
  "(\<And>x y. sim (f x y) (g x y)) \<Longrightarrow> sim (\<lambda>s. case r of (x, y) \<Rightarrow> f x y s) (\<lambda>t. case r of (x, y) \<Rightarrow> g x y t)"
  by (cases r) simp

lemma simw_prod:
  "(\<And>x y. simw (f x y) (g x y)) \<Longrightarrow> simw (\<lambda>s. case r of (x, y) \<Rightarrow> f x y s) (\<lambda>t. case r of (x, y) \<Rightarrow> g x y t)"
  by (cases r) simp

lemma sim_if:
  assumes "b \<Longrightarrow> sim f g" "\<not> b \<Longrightarrow> sim h k"
  shows "sim (\<lambda>s. if b then f s else h s) (\<lambda>t. if b then g t else k t)"
  by (cases b) (simp_all add: assms)

lemma simw_if:
  assumes "b \<Longrightarrow> simw f g" "\<not> b \<Longrightarrow> simw h k"
  shows "simw (\<lambda>s. if b then f s else h s) (\<lambda>t. if b then g t else k t)"
  by (cases b) (simp_all add: assms)

text \<open>The same for a case distinction that stands in front of the world.\<close>

lemma sim_case:
  "(\<And>x y. sim (f x y) (g x y)) \<Longrightarrow> sim (case p of (x, y) \<Rightarrow> f x y) (case p of (x, y) \<Rightarrow> g x y)"
  "(\<And>x. sim (f' x) (g' x)) \<Longrightarrow> (\<And>y. sim (h y) (k y)) \<Longrightarrow> sim (case r of Inl x \<Rightarrow> f' x | Inr y \<Rightarrow> h y) (case r of Inl x \<Rightarrow> g' x | Inr y \<Rightarrow> k y)"
  "sim f'' g'' \<Longrightarrow> (\<And>x. sim (f' x) (g' x)) \<Longrightarrow> sim (case m of None \<Rightarrow> f'' | Some x \<Rightarrow> f' x) (case m of None \<Rightarrow> g'' | Some x \<Rightarrow> g' x)"
  by (cases p, simp) (cases r, simp_all, cases m, simp_all)

lemma simw_case:
  "(\<And>x y. simw (f x y) (g x y)) \<Longrightarrow> simw (case p of (x, y) \<Rightarrow> f x y) (case p of (x, y) \<Rightarrow> g x y)"
  "(\<And>x. simw (f' x) (g' x)) \<Longrightarrow> (\<And>y. simw (h y) (k y)) \<Longrightarrow> simw (case r of Inl x \<Rightarrow> f' x | Inr y \<Rightarrow> h y) (case r of Inl x \<Rightarrow> g' x | Inr y \<Rightarrow> k y)"
  "simw f'' g'' \<Longrightarrow> (\<And>x. simw (f' x) (g' x)) \<Longrightarrow> simw (case m of None \<Rightarrow> f'' | Some x \<Rightarrow> f' x) (case m of None \<Rightarrow> g'' | Some x \<Rightarrow> g' x)"
  by (cases p, simp) (cases r, simp_all, cases m, simp_all)

lemmas sim_rules = sim_return sim_sum sim_option sim_prod sim_if sim_case
lemmas simw_rules = simw_id simw_sum simw_option simw_prod simw_if simw_case

end

section \<open>Two buses\<close>

locale bus_simulation = simulation R lost
  for R :: "'s \<Rightarrow> 't \<Rightarrow> bool" and lost +
  fixes bus :: "'s HoldingReadWriter" and bus' :: "'t HoldingReadWriter"
  assumes sim_read: "sim (ReadHolding bus a n) (ReadHolding bus' a n)"
    and sim_write: "sim (WriteHolding bus a v) (WriteHolding bus' a v)"
begin

lemma sim_readOne: "sim (readOne bus a) (readOne bus' a)"
  unfolding readOne_def [abs_def] by (rule sim_bind sim_read sim_rules)+

lemma sim_Guard: "sim (Guard bus a v) (Guard bus' a v)"
  unfolding Guard_def [abs_def] Let_def by (rule sim_bind sim_readOne sim_write sim_rules)+

lemma sim_guardRetry: "sim (guardRetry bus a v) (guardRetry bus' a v)"
  unfolding guardRetry_def [abs_def] Let_def by (rule sim_bind sim_Guard sim_rules)+

lemma sim_loop: "sim (writeRegisters_loop bus wrote regs) (writeRegisters_loop bus' wrote regs)"
proof (induction regs arbitrary: wrote)
  case Nil
  show ?case unfolding writeRegisters_loop.simps by (rule sim_rules)
next
  case (Cons reg regs)
  show ?case
    unfolding loop_Cons [abs_def] Let_def by (rule sim_bind sim_guardRetry sim_rules Cons.IH)+
qed

lemma sim_ReadSetpoints: "sim (ReadSetpoints bus) (ReadSetpoints bus')"
  unfolding ReadSetpoints_def [abs_def] Let_def by (rule sim_bind sim_read sim_rules)+

end

section \<open>Two handlers\<close>

locale handler_simulation = bus_simulation R lost bus bus'
  for R :: "'s \<Rightarrow> 't \<Rightarrow> bool" and lost bus bus' +
  fixes h :: "'s Handler" and h' :: "'t Handler"
  assumes handler_bus: "rw h = bus" "rw h' = bus'"
    and handler_cfg: "enabled h = enabled h'" "tou h = tou h'" "assertToU h = assertToU h'"
    and handler_now: "same (now h) (now h')"
    and handler_refresh: "rel_option simw (refresh h) (refresh h')"
begin

lemma sim_writeRegisters: "sim (writeRegisters h regs) (writeRegisters h' regs)"
  unfolding writeRegisters_def [abs_def] handler_bus by (rule sim_loop)

lemma simw_guardOne: "simw (guardOne h a v) (guardOne h' a v)"
  unfolding guardOne_def [abs_def] handler_bus by (rule simw_snd sim_Guard)+

lemma sim_setCurrent: "sim (setCurrent conv h a payload) (setCurrent conv h' a payload)"
  unfolding setCurrent_def [abs_def] by (rule sim_rules sim_result simw_guardOne)+

lemma sim_setOptimalIncome: "sim (setOptimalIncome h payload) (setOptimalIncome h' payload)"
  unfolding setOptimalIncome_def [abs_def] handler_bus Let_def
  by (rule sim_rules sim_result simw_guardOne sim_bind sim_readOne)+

lemma sim_syncRTCTo: "sim (syncRTCTo h) (syncRTCTo h')"
  unfolding syncRTCTo_def [abs_def]
  by (rule sim_get [where h = "\<lambda>t. writeRegisters h (RTCWriteRegisters t)"], rule handler_now, rule sim_writeRegisters)

lemma sim_planned:
  "sim (\<lambda>s. case PlanBoost mode minutes (now h s) (tou h) (assertToU h) of
           Inl err \<Rightarrow> (Inr True, s)
         | Inr slot \<Rightarrow> (case TimedSlotWriteRegisters boostSlot slot of
             Inl panic \<Rightarrow> (Inl panic, s) | Inr regs \<Rightarrow> (Inr True, snd (writeRegisters h regs s))))
       (\<lambda>t. case PlanBoost mode minutes (now h' t) (tou h') (assertToU h') of
           Inl err \<Rightarrow> (Inr True, t)
         | Inr slot \<Rightarrow> (case TimedSlotWriteRegisters boostSlot slot of
             Inl panic \<Rightarrow> (Inl panic, t) | Inr regs \<Rightarrow> (Inr True, snd (writeRegisters h' regs t))))"
  unfolding handler_cfg
  by (rule sim_get [OF handler_now, where h = "\<lambda>t s. case PlanBoost mode minutes t (tou h') (assertToU h') of
           Inl err \<Rightarrow> (Inr True, s)
         | Inr slot \<Rightarrow> (case TimedSlotWriteRegisters boostSlot slot of
             Inl panic \<Rightarrow> (Inl panic, s) | Inr regs \<Rightarrow> (Inr True, snd (writeRegisters h regs s)))"])
    (rule sim_rules sim_result simw_snd sim_writeRegisters)+

lemma sim_setBoost: "sim (setBoost h payload) (setBoost h' payload)"
  unfolding setBoost_def [abs_def] handler_bus
  by (rule sim_planned sim_rules sim_result simw_snd sim_writeRegisters sim_bind sim_readOne)+

lemma sim_route: "sim (route conv h key payload) (route conv h' key payload)"
  unfolding route_def [abs_def] syncRTC_def
  by (rule sim_rules sim_setCurrent sim_setOptimalIncome sim_setBoost sim_result simw_snd sim_syncRTCTo)+

lemma simw_OnMessage: "simw (OnMessage conv h topic payload) (OnMessage conv h' topic payload)"
proof -
  have "simw (\<lambda>s. case refresh h of Some f \<Rightarrow> if touched then f s else s | None \<Rightarrow> s)
      (\<lambda>t. case refresh h' of Some f \<Rightarrow> if touched then f t else t | None \<Rightarrow> t)" for touched
    using handler_refresh by (cases "refresh h"; cases "refresh h'") (simp_all add: simw_id simw_if)
  note refreshed = this
  show ?thesis
    unfolding OnMessage_def [abs_def] handler_cfg by (rule refreshed simw_rules simw_bind sim_route)+
qed

lemma sim_Reconcile: "sim (Reconcile h slots) (Reconcile h' slots)"
  unfolding Reconcile_def [abs_def] handler_cfg Let_def
  by (rule sim_if sim_return sim_get [OF handler_now, where h = "\<lambda>t s. case scheduleDiff (Desired (tou h') (assertToU h') slots t) slots of
           Inl panic \<Rightarrow> ((False, Some panic), s)
         | Inr diff \<Rightarrow> if length diff = 0 then ((False, None), s) else writeRegisters h diff s"] sim_sum sim_writeRegisters)+

end

section \<open>Two environments of the manager\<close>

definition world_rel :: "('u \<Rightarrow> 'v \<Rightarrow> bool) \<Rightarrow> 'u world \<Rightarrow> 'v world \<Rightarrow> bool" where
  "world_rel r w v \<longleftrightarrow>
     r (net w) (net v) \<and> cache_tel w = cache_tel v \<and> cache_sp w = cache_sp v \<and> have_state w = have_state v \<and>
     stale w = stale v \<and> status w = status v"

locale env_simulation = n: simulation r gone
  for r :: "'u \<Rightarrow> 'v \<Rightarrow> bool" and gone :: "'u \<Rightarrow> bool" +
  fixes e :: "'u serve_env" and e' :: "'v serve_env"
  assumes env_input: "n.sim (sidecar_ReadInput (env_client e) a n) (sidecar_ReadInput (env_client e') a n)"
    and env_read: "n.sim (ReadHolding (sidecar_Holding (env_client e)) a n) (ReadHolding (sidecar_Holding (env_client e')) a n)"
    and env_write: "n.sim (WriteHolding (sidecar_Holding (env_client e)) a v) (WriteHolding (sidecar_Holding (env_client e')) a v)"
    and env_publish: "rel_option (\<lambda>p p'. \<forall>t m b. n.sim (p t m b) (p' t m b)) (env_broker e) (env_broker e')"
    and env_waits: "n.sim (env_wait e d) (env_wait e' d)"
    and env_clock: "n.same (env_now e) (env_now e')" "n.same (env_ctx_Err e) (env_ctx_Err e')"
    and env_cfg: "env_local e = env_local e'" "env_num e = env_num e'" "env_conv e = env_conv e'" "env_ha e = env_ha e'"
      "env_sched e = env_sched e'" "env_controls e = env_controls e'" "env_tou e = env_tou e'" "env_assertToU e = env_assertToU e'"

sublocale env_simulation \<subseteq> simulation "world_rel r" "\<lambda>w. gone (net w)" .

context env_simulation
begin

lemma sim_on_net:
  assumes "n.sim f g"
  shows "sim (on_net f) (on_net g)"
  using assms unfolding n.sim_def sim_def world_rel_def by (simp add: on_net_def case_prod_unfold Let_def)

lemma same_net: "n.same f g \<Longrightarrow> same (\<lambda>w. f (net w)) (\<lambda>v. g (net v))"
  by (simp add: n.same_def same_def world_rel_def)

lemma same_now: "same (serve_now e) (serve_now e')"
  using same_net [OF env_clock(1)] by (simp add: serve_now_def [abs_def])

lemma same_fields:
  "same LastState LastState" "same isStale isStale" "same status status"
  by (simp_all add: same_def world_rel_def LastState_def isStale_def)

lemma simw_fields:
  "simw markFresh markFresh" "simw markStale markStale" "simw (RememberState tel sp) (RememberState tel sp)"
  "simw (\<lambda>w. w\<lparr>status := f (status w)\<rparr>) (\<lambda>w. w\<lparr>status := f (status w)\<rparr>)"
  by (simp_all add: simw_def world_rel_def markFresh_def markStale_def RememberState_def)

end

sublocale env_simulation \<subseteq> bus_simulation "world_rel r" "\<lambda>w. gone (net w)"
  "sidecar_Holding (NewLocking (env_client e))" "sidecar_Holding (NewLocking (env_client e'))"
  by unfold_locales
    (simp_all add: NewLocking_def Locking_ReadHolding_def Locking_WriteHolding_def sim_on_net env_read env_write)

context env_simulation
begin

lemma sim_Collect:
  "sim (Collect l (sidecar_ReadInput (NewLocking (env_client e)))) (Collect l (sidecar_ReadInput (NewLocking (env_client e'))))"
proof -
  have "sim (sidecar_ReadInput (NewLocking (env_client e)) a n) (sidecar_ReadInput (NewLocking (env_client e')) a n)" for a n
    by (simp add: NewLocking_def Locking_ReadInput_def sim_on_net env_input)
  note input = this
  show ?thesis unfolding Collect_def [abs_def] by (rule sim_bind input sim_rules)+
qed

lemma sim_readState: "sim (readState e) (readState e')"
proof -
  let ?bus = "sidecar_Holding (NewLocking (env_client e))" and ?bus' = "sidecar_Holding (NewLocking (env_client e'))"
  have fresh: "sim (\<lambda>w. (((tel, toHASetpoints sp (serve_now e w)), None), markFresh w))
      (\<lambda>w. (((tel, toHASetpoints sp (serve_now e' w)), None), markFresh w))" for tel sp
    by (rule sim_get [OF same_now, where h = "\<lambda>t w. (((tel, toHASetpoints sp t), None), markFresh w)"])
      (rule sim_result simw_fields)+
  have setpoints: "sim (\<lambda>w. case LastState w of (uu, haSp, ub) \<Rightarrow> (case ReadSetpoints ?bus w of
        (Inl err, w) \<Rightarrow> (((tel, haSp), None), markStale w)
      | (Inr sp, w) \<Rightarrow> (((tel, toHASetpoints sp (serve_now e w)), None), markFresh w)))
     (\<lambda>w. case LastState w of (uu, haSp, ub) \<Rightarrow> (case ReadSetpoints ?bus' w of
        (Inl err, w) \<Rightarrow> (((tel, haSp), None), markStale w)
      | (Inr sp, w) \<Rightarrow> (((tel, toHASetpoints sp (serve_now e' w)), None), markFresh w)))" for tel
    by (rule sim_get [OF same_fields(1), where h = "\<lambda>l w. case l of (uu, haSp, ub) \<Rightarrow> (case ReadSetpoints ?bus w of
        (Inl err, w) \<Rightarrow> (((tel, haSp), None), markStale w)
      | (Inr sp, w) \<Rightarrow> (((tel, toHASetpoints sp (serve_now e w)), None), markFresh w))"])
      (rule fresh sim_prod sim_bind sim_ReadSetpoints sim_sum sim_result simw_fields)+
  show ?thesis
    unfolding readState_def newStateReader_def [abs_def] env_cfg Let_def
    by (rule sim_bind sim_Collect sim_sum sim_return setpoints)+
qed

lemma sim_serve_pub: "sim (serve_pub e t m b) (serve_pub e' t m b)"
  using env_publish
  by (cases "env_broker e"; cases "env_broker e'") (simp_all add: serve_pub_def Discard_Publish_def [abs_def] sim_return sim_on_net)

lemma serve_svc_sel:
  "pub (serve_svc d) = serve_pub d" "svc_cfg (serve_svc d) = env_ha d" "svc_now (serve_svc d) = serve_now d"
  by (simp_all add: serve_svc_def Service_New_def)

lemma sim_PublishState: "sim (Service_PublishState (serve_svc e) tel sp) (Service_PublishState (serve_svc e') tel sp)"
  unfolding Service_PublishState_def [abs_def] serve_svc_sel env_cfg Let_def
  by (rule sim_get [OF same_now, where h = "\<lambda>t w. case BuildState (env_ha e') tel (Drift (Telemetry_Time tel) t) sp of
        Inl err \<Rightarrow> ((Message_zero, Some (Wrap ''build state'' err)), w)
      | Inr msg \<Rightarrow> (case serve_pub e (Topic msg) (Payload msg) True w of
          (Some err, w) \<Rightarrow> ((msg, Some (Wrap ''publish state'' err)), w) | (None, w) \<Rightarrow> ((msg, None), w))"])
    (rule sim_rules sim_bind sim_serve_pub)+

lemma sim_statePub: "sim (statePub e tel sp) (statePub e' tel sp)"
proof -
  have "simw (\<lambda>w. w\<lparr>status := snd (RecordReading \<lparr>Doc = d, SetpointsStale = isStale w\<rparr> (serve_now e w) (status w))\<rparr>)
      (\<lambda>w. w\<lparr>status := snd (RecordReading \<lparr>Doc = d, SetpointsStale = isStale w\<rparr> (serve_now e' w) (status w))\<rparr>)" for d
    using same_now by (simp add: simw_def same_def) (simp add: world_rel_def isStale_def)
  note recorded = this
  show ?thesis
    unfolding statePub_def statePublisher_PublishState_def [abs_def] option.case Let_def env_cfg
    by (rule sim_bind sim_PublishState sim_case sim_result simw_if simw_id recorded)+
qed

lemma simw_refresh: "simw (serve_refresh e) (serve_refresh e')"
  unfolding serve_refresh_def [abs_def] Let_def
  by (rule simw_bind sim_readState simw_rules sim_statePub simw_fields)+

end

sublocale env_simulation \<subseteq> handler_simulation "world_rel r" "\<lambda>w. gone (net w)"
  "sidecar_Holding (NewLocking (env_client e))" "sidecar_Holding (NewLocking (env_client e'))"
  "serve_handler e" "serve_handler e'"
  by unfold_locales (simp_all add: env_cfg same_now simw_refresh)

section \<open>Two managers\<close>

context env_simulation
begin

lemma same_ctx: "same (\<lambda>w. env_ctx_Err e (net w)) (\<lambda>w. env_ctx_Err e' (net w))"
  by (rule same_net [OF env_clock(2)])

lemma sim_gave_up:
  "sim (\<lambda>w. ((x, env_ctx_Err e (net w)), w)) (\<lambda>w. ((x, env_ctx_Err e' (net w)), w))"
  by (rule sim_get [OF same_ctx, where h = "\<lambda>err w. ((x, err), w)"]) (rule sim_return)

lemma sim_failed_attempt:
  assumes "sim f g"
  shows "sim (\<lambda>w. if env_ctx_Err e (net w) \<noteq> None then ((x, env_ctx_Err e (net w)), w) else f w)
    (\<lambda>w. if env_ctx_Err e' (net w) \<noteq> None then ((x, env_ctx_Err e' (net w)), w) else g w)"
  by (rule sim_get [OF same_ctx, where h = "\<lambda>err w. if err \<noteq> None then ((x, err), w) else f w"])
    (rule sim_if sim_return assms)+

lemma sim_read_loop:
  "sim (read_loop (serve_scheduler e) attempt backoff lastErr) (read_loop (serve_scheduler e') attempt backoff lastErr)"
proof (induction "nat (max 0 (MaxRetries (env_sched e')) + 1 - attempt)" arbitrary: attempt backoff lastErr rule: less_induct)
  case less
  show ?case
  proof (cases "attempt \<le> max 0 (MaxRetries (env_sched e'))")
    case True
    then have IH: "sim (read_loop (serve_scheduler e) (attempt + 1) b le) (read_loop (serve_scheduler e') (attempt + 1) b le)" for b le
      by (intro less.hyps) simp
    show ?thesis
      unfolding read_loop.simps [of "serve_scheduler e" attempt, abs_def] read_loop.simps [of "serve_scheduler e'" attempt, abs_def]
        serve_scheduler_sel env_cfg Let_def
      by (rule sim_bind sim_if sim_on_net env_waits sim_gave_up sim_readState sim_failed_attempt IH sim_rules)+
  next
    case False
    show ?thesis
      unfolding read_loop.simps [of "serve_scheduler e" attempt, abs_def] read_loop.simps [of "serve_scheduler e'" attempt, abs_def]
        serve_scheduler_sel env_cfg
      using False by (simp add: sim_return)
  qed
qed

lemma simw_maybeSyncRTC: "simw (maybeSyncRTC (serve_scheduler e) tel) (maybeSyncRTC (serve_scheduler e') tel)"
proof -
  have sync: "simw (\<lambda>w. snd (SyncRTC (serve_handler e) w)) (\<lambda>w. snd (SyncRTC (serve_handler e') w))"
    unfolding SyncRTC_def by (rule simw_snd sim_syncRTCTo)+
  have "simw (\<lambda>w. if abs_duration (Drift (Telemetry_Time tel) (serve_now e w)) \<le> d then w else snd (SyncRTC (serve_handler e) w))
      (\<lambda>w. if abs_duration (Drift (Telemetry_Time tel) (serve_now e' w)) \<le> d then w else snd (SyncRTC (serve_handler e') w))" for d
    by (rule simw_get [OF same_now, where h = "\<lambda>t w. if abs_duration (Drift (Telemetry_Time tel) t) \<le> d then w else snd (SyncRTC (serve_handler e) w)"])
      (rule simw_if simw_id sync)+
  note drifted = this
  show ?thesis
    unfolding maybeSyncRTC_def [abs_def] serve_scheduler_sel env_cfg Let_def
    by (cases "env_controls e'"; simp only: if_True if_False option.case) (rule simw_if simw_id drifted)+
qed

lemma simw_maybeReconcile: "simw (maybeReconcile (serve_scheduler e) slots) (maybeReconcile (serve_scheduler e') slots)"
proof -
  have "sim (gatedReconciler (Reconcile (serve_handler e)) slots) (gatedReconciler (Reconcile (serve_handler e')) slots)"
    unfolding gatedReconciler_def [abs_def]
    by (rule sim_get [OF same_fields(2), where h = "\<lambda>b w. if b then ((False, None), w) else Reconcile (serve_handler e) slots w"])
      (rule sim_if sim_return sim_Reconcile)+
  then show ?thesis
    unfolding maybeReconcile_def [abs_def] serve_scheduler_sel env_cfg
    by (cases "env_controls e'"; simp only: if_True if_False option.case) (rule simw_id simw_snd; assumption?)+
qed

lemma simw_poll: "simw (poll (serve_scheduler e)) (poll (serve_scheduler e'))"
proof -
  let ?fail = "\<lambda>w. w\<lparr>status := MarkFailure (status w)\<rparr>"
  have fail: "simw (\<lambda>w. if env_ctx_Err e (net w) \<noteq> None then w else ?fail w) (\<lambda>w. if env_ctx_Err e' (net w) \<noteq> None then w else ?fail w)"
    by (rule simw_get [OF same_ctx, where h = "\<lambda>err w. if err \<noteq> None then w else ?fail w"]) (rule simw_if simw_id simw_fields)+
  have rest: "simw (\<lambda>w. maybeReconcile (serve_scheduler e) slots (maybeSyncRTC (serve_scheduler e) tel (w\<lparr>status := MarkSuccess (status w)\<rparr>)))
      (\<lambda>w. maybeReconcile (serve_scheduler e') slots (maybeSyncRTC (serve_scheduler e') tel (w\<lparr>status := MarkSuccess (status w)\<rparr>)))" for slots tel
    by (rule simw_then [OF simw_then [OF simw_fields(4) simw_maybeSyncRTC] simw_maybeReconcile])
  have published: "simw (\<lambda>w. case statePub e tel sp (RememberState tel sp w) of
          (Some err, w) \<Rightarrow> ?fail w
        | (None, w) \<Rightarrow> maybeReconcile (serve_scheduler e) (ha_Slots sp) (maybeSyncRTC (serve_scheduler e) tel (w\<lparr>status := MarkSuccess (status w)\<rparr>)))
      (\<lambda>w. case statePub e' tel sp (RememberState tel sp w) of
          (Some err, w) \<Rightarrow> ?fail w
        | (None, w) \<Rightarrow> maybeReconcile (serve_scheduler e') (ha_Slots sp) (maybeSyncRTC (serve_scheduler e') tel (w\<lparr>status := MarkSuccess (status w)\<rparr>)))" for tel sp
    by (rule simw_bind, rule sim_then [OF simw_fields(3) sim_statePub]) (rule simw_option rest simw_fields)+
  show ?thesis
    unfolding poll_def [abs_def] readWithRetry_def serve_scheduler_sel Let_def
    by (rule simw_bind sim_read_loop fail published simw_prod simw_option)+
qed

lemma simw_ApplyCommand:
  "simw (ApplyCommand (serve_scheduler e) topic payload) (ApplyCommand (serve_scheduler e') topic payload)"
  unfolding ApplyCommand_def [abs_def] Apply_def [abs_def] serve_scheduler_sel env_cfg
  by (cases "env_controls e'"; simp only: if_True if_False option.case) (rule simw_id simw_OnMessage)+

end

end
