(* ===== verification/Preempt.thy ===== *)
theory Preempt
  imports MockSystem Simulation
begin

text \<open>
  The scheduler's \<open>apiMu\<close> (\<open>internal/scheduler/scheduler.go\<close>): goroutines that poll and apply commands at
  the same time, preempted at every call they make to the outside. A cycle in progress is the same
  code as everywhere in this development, run in an environment that lets it make the calls it has
  made so far and stops it at the next one: between its calls other goroutines have acted, and what
  they did is kept next to each call. The theorems are about the states in the middle of a cycle and
  about what the cycles amount to once the lock is free.
\<close>

section \<open>An environment that stops\<close>

text \<open>
  \<open>gaps\<close> has an entry for every call the cycle may still make: the actions of other goroutines that
  come just before it. A call without an entry is not made, and none after it; \<open>cut\<close> remembers that.
\<close>

record ('a, 'w) sliced =
  under :: 'w
  gaps :: "'a list list"
  cut :: bool

definition acts :: "('a \<Rightarrow> 'w \<Rightarrow> 'w) \<Rightarrow> 'a list \<Rightarrow> 'w \<Rightarrow> 'w" where
  "acts act as n = fold act as n"

definition sliced_call :: "('a \<Rightarrow> 'w \<Rightarrow> 'w) \<Rightarrow> 'r \<Rightarrow> ('w \<Rightarrow> 'r \<times> 'w) \<Rightarrow> ('a, 'w) sliced \<Rightarrow> 'r \<times> ('a, 'w) sliced" where
  "sliced_call act dead f s =
     (if cut s \<or> gaps s = [] then (dead, s\<lparr>cut := True\<rparr>)
      else
        (let (r, n) = f (acts act (hd (gaps s)) (under s))
         in (r, s\<lparr>under := n, gaps := tl (gaps s)\<rparr>)))"

definition stopped :: go_error where "stopped = Errorf ''stopped''"

definition sliced_bus :: "('a \<Rightarrow> 'w \<Rightarrow> 'w) \<Rightarrow> 'w HoldingReadWriter \<Rightarrow> ('a, 'w) sliced HoldingReadWriter" where
  "sliced_bus act bus =
     \<lparr>ReadHolding = (\<lambda>a n. sliced_call act (Inl stopped) (ReadHolding bus a n)),
      WriteHolding = (\<lambda>a v. sliced_call act (Inl stopped) (WriteHolding bus a v))\<rparr>"

definition sliced_env :: "('a \<Rightarrow> 'w \<Rightarrow> 'w) \<Rightarrow> 'w serve_env \<Rightarrow> ('a, 'w) sliced serve_env" where
  "sliced_env act e =
     \<lparr>env_local = env_local e,
      env_client =
        \<lparr>sidecar_ReadInput = (\<lambda>a n. sliced_call act (Inl stopped) (sidecar_ReadInput (env_client e) a n)),
         sidecar_Holding = sliced_bus act (sidecar_Holding (env_client e))\<rparr>,
      env_broker = map_option (\<lambda>p t m b. sliced_call act (Some stopped) (p t m b)) (env_broker e),
      env_now = (\<lambda>s. env_now e (under s)),
      env_ctx_Err = (\<lambda>s. env_ctx_Err e (under s)),
      env_wait = (\<lambda>d. sliced_call act True (env_wait e d)),
      env_num = env_num e, env_conv = env_conv e, env_ha = env_ha e, env_sched = env_sched e,
      env_controls = env_controls e, env_tou = env_tou e, env_assertToU = env_assertToU e\<rparr>"

section \<open>Goroutines under apiMu\<close>

datatype cycle = PollCycle | CommandCycle string string

fun cycle_run :: "'w serve_env \<Rightarrow> cycle \<Rightarrow> 'w world \<Rightarrow> 'w world" where
  "cycle_run e PollCycle w = poll (serve_scheduler e) w"
| "cycle_run e (CommandCycle topic payload) w = ApplyCommand (serve_scheduler e) topic payload w"

text \<open>A world of the manager with another outside.\<close>

definition with_net :: "('w \<Rightarrow> 'v) \<Rightarrow> 'w world \<Rightarrow> 'v world" where
  "with_net f w =
     \<lparr>cache_tel = cache_tel w, cache_sp = cache_sp w, have_state = have_state w, stale = stale w, status = status w, net = f (net w)\<rparr>"

text \<open>The cycle \<open>c\<close> from \<open>w\<close> as far as the calls in \<open>gs\<close> take it.\<close>

definition advance :: "('a \<Rightarrow> 'w \<Rightarrow> 'w) \<Rightarrow> 'w serve_env \<Rightarrow> cycle \<Rightarrow> 'w world \<Rightarrow> 'a list list \<Rightarrow> ('a, 'w) sliced world" where
  "advance act e c w gs = cycle_run (sliced_env act e) c (with_net (\<lambda>n. \<lparr>under = n, gaps = gs, cut = False\<rparr>) w)"

text \<open>
  \<open>resting\<close> is the world when the lock was last free; \<open>holder\<close> the cycle in progress with the gaps before
  its calls; \<open>gap\<close> what others did since its last call; \<open>blocked\<close> the cycles waiting in \<open>Lock\<close>, of which any
  may be next; \<open>completed\<close> the cycles that have released the lock, in order.
\<close>

record ('a, 'w) goroutines =
  resting :: "'w world"
  holder :: "(cycle \<times> 'a list list) option"
  gap :: "'a list"
  blocked :: "cycle list"
  completed :: "cycle list"

inductive apiMu_step :: "('a \<Rightarrow> 'w \<Rightarrow> 'w) \<Rightarrow> 'w serve_env \<Rightarrow> 'a set \<Rightarrow> ('a, 'w) goroutines \<Rightarrow> ('a, 'w) goroutines \<Rightarrow> bool"
  for act e A where
  arrives: "apiMu_step act e A s (s\<lparr>blocked := blocked s @ [c]\<rparr>)"
| acquires: "holder s = None \<Longrightarrow> blocked s = cs @ c # cs' \<Longrightarrow>
    apiMu_step act e A s (s\<lparr>holder := Some (c, []), blocked := cs @ cs'\<rparr>)"
| calls: "holder s = Some (c, gs) \<Longrightarrow> cut (net (advance act e c (resting s) gs)) \<Longrightarrow>
    apiMu_step act e A s (s\<lparr>holder := Some (c, gs @ [gap s]), gap := []\<rparr>)"
| releases: "holder s = Some (c, gs) \<Longrightarrow> \<not> cut (net (advance act e c (resting s) gs)) \<Longrightarrow>
    apiMu_step act e A s (s\<lparr>holder := None, gap := [], completed := completed s @ [c],
      resting := with_net (\<lambda>n. acts act (gap s) (under n)) (advance act e c (resting s) gs)\<rparr>)"
| others_rest: "holder s = None \<Longrightarrow> a \<in> A \<Longrightarrow>
    apiMu_step act e A s (s\<lparr>resting := with_net (act a) (resting s)\<rparr>)"
| others_meanwhile: "holder s = Some h \<Longrightarrow> a \<in> A \<Longrightarrow> apiMu_step act e A s (s\<lparr>gap := gap s @ [a]\<rparr>)"

definition goroutines_start :: "'w world \<Rightarrow> ('a, 'w) goroutines" where
  "goroutines_start w = \<lparr>resting = w, holder = None, gap = [], blocked = [], completed = []\<rparr>"

text \<open>The outside as it is now, in the middle of a cycle or not.\<close>

definition outside_now :: "('a \<Rightarrow> 'w \<Rightarrow> 'w) \<Rightarrow> 'w serve_env \<Rightarrow> ('a, 'w) goroutines \<Rightarrow> 'w" where
  "outside_now act e s =
     (case holder s of
        None \<Rightarrow> net (resting s)
      | Some (c, gs) \<Rightarrow> acts act (gap s) (under (net (advance act e c (resting s) gs))))"

section \<open>The stopping environment keeps the contract\<close>

lemma with_net_sel [simp]:
  "net (with_net f w) = f (net w)" "cache_tel (with_net f w) = cache_tel w" "cache_sp (with_net f w) = cache_sp w"
  "have_state (with_net f w) = have_state w" "stale (with_net f w) = stale w" "status (with_net f w) = status w"
  by (simp_all add: with_net_def)

lemma sliced_callE:
  assumes "sliced_call act dead f s = (r, s')"
  obtains (dead) "r = dead" "under s' = under s"
  | (made) g gs where "\<not> cut s" "gaps s = g # gs" "f (acts act g (under s)) = (r, under s')"
  using assms by (cases "gaps s") (auto simp: sliced_call_def Let_def split: if_splits prod.splits)

locale busy_plant = plant bus stable holding wear e
  for bus :: "'w HoldingReadWriter" and stable holding wear e +
  fixes act :: "'a \<Rightarrow> 'w \<Rightarrow> 'w"
  assumes act_quiet: "wear (act a n) = wear n" "b \<in> stable \<Longrightarrow> holding (act a n) b = holding n b"
begin

lemma acts_quiet [simp]: "wear (acts act as n) = wear n" "b \<in> stable \<Longrightarrow> holding (acts act as n) b = holding n b"
  by (induction as arbitrary: n) (simp_all add: acts_def act_quiet)

lemma sliced_faithful: "faithful_bus (sliced_bus act bus) stable (holding \<circ> under) (wear \<circ> under)"
  by unfold_locales
    (auto simp: sliced_bus_def elim!: sliced_callE dest: read_wear read_frame read_length read_words write_wear write_frame write_ok write_held)

end

sublocale busy_plant \<subseteq> pre: plant "sliced_bus act bus" stable "holding \<circ> under" "wear \<circ> under" "sliced_env act e"
  by (intro plant.intro plant_axioms.intro sliced_faithful)
    (auto simp: sliced_env_def client control_regs elim!: sliced_callE dest: input_quiet broker_quiet wait_quiet wait_done)

section \<open>In the middle of a cycle\<close>

context busy_plant
begin

text \<open>
  A cycle that is stopped has done to the registers what a cycle does on a bus whose calls all fail from
  there on, so whatever the manager keeps under failing calls holds between any two of its calls.
\<close>

lemma cycle_step: "manager_step e' holding' S w (cycle_run e' c w)"
  by (cases c) (auto intro: manager_step.intros)

lemma advance_no_slot_both:
  assumes "no_slot_both (holding (net w))"
  shows "no_slot_both (holding (under (net (advance act e c w gs))))"
proof -
  let ?v = "with_net (\<lambda>n. \<lparr>under = n, gaps = gs, cut = False\<rparr>) w"
  have "no_slot_both ((holding \<circ> under) (net ?v))" using assms by simp
  from pre.manager_no_slot_both [OF r_into_rtranclp this, OF cycle_step] show ?thesis by (simp add: advance_def)
qed

lemma no_slot_both_stable:
  assumes "\<And>b. b \<in> stable \<Longrightarrow> bk b = bk' b"
  shows "no_slot_both bk = no_slot_both bk'"
  using assms control_regs slot_addrs_control by (intro no_slot_both_cong) auto

lemma apiMu_no_slot_both:
  assumes "(apiMu_step act e A)\<^sup>*\<^sup>* (goroutines_start w) s" "no_slot_both (holding (net w))"
  shows "no_slot_both (holding (net (resting s)))"
  using assms(1)
proof (induction rule: rtranclp_induct)
  case base
  then show ?case using assms(2) by (simp add: goroutines_start_def)
next
  case (step s s')
  from step.hyps(2) show ?case
  proof (cases rule: apiMu_step.cases)
    case (releases c gs)
    have "no_slot_both (holding (acts act (gap s) (under (net (advance act e c (resting s) gs)))))"
      using advance_no_slot_both [OF step.IH] by (subst no_slot_both_stable) simp_all
    then show ?thesis using releases by simp
  next
    case (others_rest a)
    have "no_slot_both (holding (act a (net (resting s))))"
      using step.IH by (subst no_slot_both_stable) (simp_all add: act_quiet)
    then show ?thesis using others_rest by simp
  qed (use step.IH in simp_all)
qed

lemma outside_no_slot_both:
  assumes "(apiMu_step act e A)\<^sup>*\<^sup>* (goroutines_start w) s" "no_slot_both (holding (net w))"
  shows "no_slot_both (holding (outside_now act e s))"
proof (cases "holder s")
  case (Some h)
  obtain c gs where h: "h = (c, gs)" by fastforce
  have "no_slot_both (holding (acts act (gap s) (under (net (advance act e c (resting s) gs)))))"
    using advance_no_slot_both [OF apiMu_no_slot_both [OF assms]] by (subst no_slot_both_stable) simp_all
  then show ?thesis using Some h by (simp add: outside_now_def)
qed (use apiMu_no_slot_both [OF assms] in \<open>simp add: outside_now_def\<close>)

end

section \<open>What the cycles amount to\<close>

text \<open>A stopped run without interference follows the run that is not stopped.\<close>

definition follows :: "('a, 'w) sliced \<Rightarrow> 'w \<Rightarrow> bool" where
  "follows s n \<longleftrightarrow> \<not> cut s \<and> set (gaps s) \<subseteq> {[]} \<and> under s = n"

lemma sliced_call_follows: "simulation.sim follows cut (sliced_call act dead f) f"
proof -
  have "cut (snd (sliced_call act dead f s)) \<or> fst (sliced_call act dead f s) = fst (f n) \<and> follows (snd (sliced_call act dead f s)) (snd (f n))"
    if "follows s n" for s n
    using that by (cases "gaps s") (auto simp: follows_def sliced_call_def acts_def Let_def case_prod_unfold)
  then show ?thesis by (auto simp: simulation.sim_def sliced_call_def)
qed

interpretation slicing: env_simulation follows cut "sliced_env act e" e for act e
  by unfold_locales
    (simp_all add: sliced_env_def sliced_bus_def sliced_call_follows simulation.same_def follows_def option.rel_map option.rel_refl)

lemma advance_serial:
  assumes "set gs \<subseteq> {[]}" "\<not> cut (net (advance act e c w gs))"
  shows "with_net under (advance act e c w gs) = cycle_run e c w"
proof -
  let ?v = "with_net (\<lambda>n. \<lparr>under = n, gaps = gs, cut = False\<rparr>) w"
  have start: "world_rel follows ?v w" using assms(1) by (simp add: world_rel_def follows_def)
  have "slicing.simw (cycle_run (sliced_env act e) c) (cycle_run e c)"
    by (cases c) (simp_all add: cycle_run.simps [abs_def] slicing.simw_poll slicing.simw_ApplyCommand)
  from slicing.simwD [OF this start] assms(2) show ?thesis by (simp add: advance_def world_rel_def follows_def)
qed

lemma apiMu_serial:
  assumes "(apiMu_step act e {})\<^sup>*\<^sup>* (goroutines_start w) s"
  shows "gap s = [] \<and> (\<forall>c gs. holder s = Some (c, gs) \<longrightarrow> set gs \<subseteq> {[]}) \<and> resting s = fold (cycle_run e) (completed s) w"
  using assms
proof (induction rule: rtranclp_induct)
  case (step s s')
  from step.hyps(2) show ?case
  proof (cases rule: apiMu_step.cases)
    case (releases c gs)
    then have "with_net under (advance act e c (resting s) gs) = cycle_run e c (resting s)"
      using step.IH by (intro advance_serial) auto
    then show ?thesis using releases step.IH by (simp add: acts_def)
  qed (use step.IH in auto)
qed (simp add: goroutines_start_def)

section \<open>Every cycle ends\<close>

text \<open>
  An environment that never stops and counts its calls; \<open>others i\<close> is what the other goroutines do before
  the call number \<open>i\<close>. With as many gaps as calls were counted the cycle that can be stopped is not.
\<close>

record 'w counted =
  counted_world :: 'w
  calls_made :: nat

definition counted_call :: "('a \<Rightarrow> 'w \<Rightarrow> 'w) \<Rightarrow> (nat \<Rightarrow> 'a list) \<Rightarrow> ('w \<Rightarrow> 'r \<times> 'w) \<Rightarrow> 'w counted \<Rightarrow> 'r \<times> 'w counted" where
  "counted_call act others f s =
     (let (r, n) = f (acts act (others (calls_made s)) (counted_world s))
      in (r, \<lparr>counted_world = n, calls_made = Suc (calls_made s)\<rparr>))"

definition counted_env :: "('a \<Rightarrow> 'w \<Rightarrow> 'w) \<Rightarrow> (nat \<Rightarrow> 'a list) \<Rightarrow> 'w serve_env \<Rightarrow> 'w counted serve_env" where
  "counted_env act others e =
     \<lparr>env_local = env_local e,
      env_client =
        \<lparr>sidecar_ReadInput = (\<lambda>a n. counted_call act others (sidecar_ReadInput (env_client e) a n)),
         sidecar_Holding =
           \<lparr>ReadHolding = (\<lambda>a n. counted_call act others (ReadHolding (sidecar_Holding (env_client e)) a n)),
            WriteHolding = (\<lambda>a v. counted_call act others (WriteHolding (sidecar_Holding (env_client e)) a v))\<rparr>\<rparr>,
      env_broker = map_option (\<lambda>p t m b. counted_call act others (p t m b)) (env_broker e),
      env_now = (\<lambda>s. env_now e (counted_world s)),
      env_ctx_Err = (\<lambda>s. env_ctx_Err e (counted_world s)),
      env_wait = (\<lambda>d. counted_call act others (env_wait e d)),
      env_num = env_num e, env_conv = env_conv e, env_ha = env_ha e, env_sched = env_sched e,
      env_controls = env_controls e, env_tou = env_tou e, env_assertToU = env_assertToU e\<rparr>"

definition keeps_pace :: "nat \<Rightarrow> (nat \<Rightarrow> 'a list) \<Rightarrow> 'w counted \<Rightarrow> ('a, 'w) sliced \<Rightarrow> bool" where
  "keeps_pace m others s t \<longleftrightarrow>
     calls_made s \<le> m \<and> counted_world s = under t \<and> gaps t = map others [calls_made s..<m] \<and> \<not> cut t"

lemma counted_call_pace:
  "simulation.sim (keeps_pace m others) (\<lambda>s. m < calls_made s) (counted_call act others f) (sliced_call act dead f)"
proof -
  have "m < calls_made (snd (counted_call act others f s)) \<or>
      fst (counted_call act others f s) = fst (sliced_call act dead f t) \<and>
      keeps_pace m others (snd (counted_call act others f s)) (snd (sliced_call act dead f t))"
    if "keeps_pace m others s t" for s t
  proof (cases "calls_made s < m")
    case True
    then have "gaps t = others (calls_made s) # map others [Suc (calls_made s)..<m]"
      using that by (simp add: keeps_pace_def upt_rec [of "calls_made s"])
    moreover have "counted_world s = under t" "\<not> cut t" using that by (simp_all add: keeps_pace_def)
    ultimately show ?thesis
      using True by (simp add: keeps_pace_def counted_call_def sliced_call_def Let_def case_prod_unfold)
  next
    case False
    then show ?thesis by (simp add: counted_call_def Let_def case_prod_unfold)
  qed
  then show ?thesis by (auto simp: simulation.sim_def counted_call_def Let_def case_prod_unfold)
qed

interpretation pacing: env_simulation "keeps_pace m others" "\<lambda>s. m < calls_made s" "counted_env act others e" "sliced_env act e"
  for m others act e
  by unfold_locales
    (simp_all add: counted_env_def sliced_env_def sliced_bus_def counted_call_pace simulation.same_def keeps_pace_def
      option.rel_map option.rel_refl)

lemma advance_ends:
  "\<exists>k. \<forall>m \<ge> k. \<not> cut (net (advance act e c w (map others [0..<m])))"
proof -
  let ?v = "with_net (\<lambda>n. \<lparr>counted_world = n, calls_made = 0\<rparr>) w"
  let ?z = "cycle_run (counted_env act others e) c ?v"
  have "\<not> cut (net (advance act e c w (map others [0..<m])))" if "calls_made (net ?z) \<le> m" for m
  proof -
    let ?u = "with_net (\<lambda>n. \<lparr>under = n, gaps = map others [0..<m], cut = False\<rparr>) w"
    have start: "world_rel (keeps_pace m others) ?v ?u" by (simp add: world_rel_def keeps_pace_def)
    have "pacing.simw m others (cycle_run (counted_env act others e) c) (cycle_run (sliced_env act e) c)"
      by (cases c) (simp_all add: cycle_run.simps [abs_def] pacing.simw_poll pacing.simw_ApplyCommand)
    from pacing.simwD [OF this start] that show ?thesis by (simp add: advance_def world_rel_def keeps_pace_def)
  qed
  then show ?thesis by blast
qed

text \<open>The steps of the lock and its holder alone: no arrival, and nothing from other goroutines.\<close>

definition lock_moves :: "('a \<Rightarrow> 'w \<Rightarrow> 'w) \<Rightarrow> 'w serve_env \<Rightarrow> ('a, 'w) goroutines \<Rightarrow> ('a, 'w) goroutines \<Rightarrow> bool" where
  "lock_moves act e s s' \<longleftrightarrow> apiMu_step act e {} s s' \<and> length (blocked s') \<le> length (blocked s)"

lemma apiMu_mono: "apiMu_step act e A s s' \<Longrightarrow> A \<subseteq> B \<Longrightarrow> apiMu_step act e B s s'"
  by (induction rule: apiMu_step.induct) (auto intro: apiMu_step.intros)

lemma lock_moves_apiMu: "(lock_moves act e)\<^sup>*\<^sup>* s s' \<Longrightarrow> (apiMu_step act e A)\<^sup>*\<^sup>* s s'"
  by (induction rule: rtranclp_induct) (auto simp: lock_moves_def intro: rtranclp.rtrancl_into_rtrancl apiMu_mono)

lemma holder_runs:
  assumes "\<And>m. k \<le> m \<Longrightarrow> \<not> cut (net (advance act e c (resting s) (map others [0..<m])))"
    and "holder s = Some (c, gs)" "map others [0..<length gs] = gs" "gap s = others (length gs)" "\<And>i. length gs < i \<Longrightarrow> others i = []"
  shows "\<exists>s'. (lock_moves act e)\<^sup>*\<^sup>* s s' \<and> holder s' = None \<and> completed s' = completed s @ [c] \<and> blocked s' = blocked s \<and> gap s' = [] \<and>
    (set gs \<subseteq> {[]} \<and> gap s = [] \<longrightarrow> resting s' = cycle_run e c (resting s))"
  using assms
proof (induction "k - length gs" arbitrary: s gs rule: less_induct)
  case less
  show ?case
  proof (cases "cut (net (advance act e c (resting s) gs))")
    case True
    define s1 where "s1 = s\<lparr>holder := Some (c, gs @ [gap s]), gap := []\<rparr>"
    have step: "lock_moves act e s s1"
      unfolding s1_def lock_moves_def using apiMu_step.calls [OF less.prems(2) True] by simp
    have "length gs < k" using less.prems(1) [of "length gs"] less.prems(3) True by (metis not_le)
    then have fewer: "k - length (gs @ [gap s]) < k - length gs" by simp
    obtain s' where S: "(lock_moves act e)\<^sup>*\<^sup>* s1 s'" "holder s' = None" "completed s' = completed s @ [c]" "blocked s' = blocked s" "gap s' = []"
      "set gs \<subseteq> {[]} \<and> gap s = [] \<longrightarrow> resting s' = cycle_run e c (resting s)"
      using less.hyps [OF fewer, of s1] less.prems(1,3-5) by (auto simp: s1_def)
    show ?thesis by (intro exI [of _ s'] conjI converse_rtranclp_into_rtranclp [OF step S(1)] S(2-6))
  next
    case False
    note R = apiMu_step.releases [OF less.prems(2) False, of "{}"]
    show ?thesis
      by (intro exI conjI, rule r_into_rtranclp, unfold lock_moves_def, rule conjI [OF R])
        (use advance_serial [OF _ False] in \<open>simp_all add: acts_def\<close>)
  qed
qed

lemma holder_moves:
  assumes "holder s = Some (c, gs)"
  shows "\<exists>s'. (lock_moves act e)\<^sup>*\<^sup>* s s' \<and> holder s' = None \<and> completed s' = completed s @ [c] \<and> blocked s' = blocked s \<and> gap s' = [] \<and>
    (set gs \<subseteq> {[]} \<and> gap s = [] \<longrightarrow> resting s' = cycle_run e c (resting s))"
proof -
  define others where "others i = (if i < length gs then gs ! i else if i = length gs then gap s else [])" for i
  obtain k where k: "\<forall>m \<ge> k. \<not> cut (net (advance act e c (resting s) (map others [0..<m])))"
    using advance_ends by blast
  have "map others [0..<length gs] = gs" by (rule nth_equalityI) (simp_all add: others_def)
  note runs = holder_runs [where others = others and gs = gs and k = k, OF _ assms this]
  show ?thesis by (rule runs) (use k in \<open>simp_all add: others_def\<close>)
qed

lemma holder_ends:
  assumes "holder s = Some (c, gs)"
  shows "\<exists>s'. (apiMu_step act e A)\<^sup>*\<^sup>* s s' \<and> holder s' = None \<and> completed s' = completed s @ [c] \<and> blocked s' = blocked s"
  using holder_moves [OF assms] lock_moves_apiMu by blast

text \<open>A cycle that is blocked can always be run to its end; if the lock is free and nothing else acts, it runs whole.\<close>

lemma blocked_moves:
  assumes "blocked s = cs @ c # cs'"
  shows "\<exists>s'. (lock_moves act e)\<^sup>*\<^sup>* s s' \<and> holder s' = None \<and> blocked s' = cs @ cs' \<and> gap s' = [] \<and> last (completed s') = c \<and>
    (holder s = None \<and> gap s = [] \<longrightarrow> resting s' = cycle_run e c (resting s))"
proof -
  obtain s1 where s1: "(lock_moves act e)\<^sup>*\<^sup>* s s1" "holder s1 = None" "blocked s1 = cs @ c # cs'" "holder s = None \<longrightarrow> s1 = s"
  proof (cases "holder s")
    case None
    then show ?thesis using that [of s] assms by simp
  next
    case (Some h)
    then show ?thesis using holder_moves [of s "fst h" "snd h" act e] that assms by auto
  qed
  define s2 where "s2 = s1\<lparr>holder := Some (c, []), blocked := cs @ cs'\<rparr>"
  have s2: "holder s2 = Some (c, [])" "blocked s2 = cs @ cs'" "gap s2 = gap s1" "resting s2 = resting s1" by (simp_all add: s2_def)
  have "lock_moves act e s1 s2"
    unfolding s2_def lock_moves_def using apiMu_step.acquires [OF s1(2,3)] s1(3) by simp
  with s1(1) have reach: "(lock_moves act e)\<^sup>*\<^sup>* s s2" by (rule rtranclp.rtrancl_into_rtrancl)
  obtain s3 where s3: "(lock_moves act e)\<^sup>*\<^sup>* s2 s3" "holder s3 = None" "completed s3 = completed s2 @ [c]" "blocked s3 = blocked s2" "gap s3 = []"
    "set ([] :: 'a list list) \<subseteq> {[]} \<and> gap s2 = [] \<longrightarrow> resting s3 = cycle_run e c (resting s2)"
    using holder_moves [OF s2(1), of act e] by (elim exE conjE)
  have "resting s3 = cycle_run e c (resting s)" if "holder s = None \<and> gap s = []" using that s1(4) s2(3,4) s3(6) by simp
  then show ?thesis by (intro exI [of _ s3] conjI rtranclp_trans [OF reach s3(1)]) (use s2(2) s3(2-5) in simp_all)
qed

lemma blocked_ends:
  assumes "blocked s = cs @ c # cs'"
  shows "\<exists>s'. (apiMu_step act e A)\<^sup>*\<^sup>* s s' \<and> holder s' = None \<and> blocked s' = cs @ cs' \<and> last (completed s') = c"
  using blocked_moves [OF assms] lock_moves_apiMu by blast

section \<open>Other goroutines over the mock\<close>

text \<open>What the hooks do to the outside while a cycle runs: they publish.\<close>

definition hook_publish :: "string \<times> payload \<times> bool \<Rightarrow> mock_net \<Rightarrow> mock_net" where
  "hook_publish m n = (case m of (t, p, b) \<Rightarrow> snd (mock_broker t p b n))"

interpretation mock_busy: busy_plant "bus_via fst put_fst mock_client" UNIV "mock_holding \<circ> fst" "mock_wear \<circ> fst"
  "mock_env t num conv ha cfg controls win asserted" hook_publish
  for t num conv ha cfg controls win asserted
  by unfold_locales (simp_all add: hook_publish_def mock_broker_def via_def split: prod.splits)

text \<open>A goroutine that has just taken the lock for a poll.\<close>

definition polling :: "mock_net world \<Rightarrow> (string \<times> payload \<times> bool, mock_net) goroutines" where
  "polling w = \<lparr>resting = w, holder = Some (PollCycle, []), gap = [], blocked = [CommandCycle ''solis/1/rtc_sync/set'' []], completed = []\<rparr>"

lemma polling_reached: "(apiMu_step hook_publish e A)\<^sup>*\<^sup>* (goroutines_start w) (polling w)"
proof -
  let ?c = "CommandCycle ''solis/1/rtc_sync/set'' []"
  let ?s1 = "\<lparr>resting = w, holder = None, gap = [], blocked = [PollCycle], completed = []\<rparr>"
  let ?s2 = "\<lparr>resting = w, holder = None, gap = [], blocked = [PollCycle, ?c], completed = []\<rparr>"
  have "apiMu_step hook_publish e A (goroutines_start w) ?s1"
    using apiMu_step.arrives [of hook_publish e A "goroutines_start w" PollCycle] by (simp add: goroutines_start_def)
  moreover have "apiMu_step hook_publish e A ?s1 ?s2" using apiMu_step.arrives [of hook_publish e A ?s1 ?c] by simp
  moreover have "apiMu_step hook_publish e A ?s2 (polling w)"
    using apiMu_step.acquires [of ?s2 "[]" PollCycle "[?c]" hook_publish e A] by (simp add: polling_def)
  ultimately show ?thesis by (meson rtranclp.rtrancl_refl rtranclp.rtrancl_into_rtrancl)
qed

section \<open>Properties\<close>

text \<open>
  No slot has both directions set in any state of the running manager, those in the middle of a
  poll or of a command included: for goroutines that poll and apply commands under \<open>apiMu\<close>, preempted
  between any two calls by others that leave the inverter alone, and whatever call fails.
\<close>

theorem preempted_never_both:
  assumes "busy_plant bus S holding wear e act"
    and "(apiMu_step act e A)\<^sup>*\<^sup>* (goroutines_start w) s" "no_slot_both (holding (net w))"
  shows "no_slot_both (holding (outside_now act e s))"
  using busy_plant.outside_no_slot_both [OF assms] .

theorem preempted_never_both_witness:
  "no_slot_both (mock_holding (fst (outside_now hook_publish (demo_env False)
     ((polling (demo_start Map.empty))\<lparr>gap := [(''solis/1/availability'', Bytes ''online'', True)]\<rparr>))))"
proof -
  let ?s = "polling (demo_start Map.empty)" and ?m = "(''solis/1/availability'', Bytes ''online'', True)"
  have P: "busy_plant (bus_via fst put_fst mock_client) UNIV (mock_holding \<circ> fst) (mock_wear \<circ> fst) (demo_env False) hook_publish"
    unfolding demo_env_def by (rule mock_busy.busy_plant_axioms)
  have start: "no_slot_both ((mock_holding \<circ> fst) (net (demo_start Map.empty)))"
    by (simp add: no_slot_both_def both_set_def slot_at_def window_at_def IsZero_def mock_holding_def offset_defs)
  have "apiMu_step hook_publish (demo_env False) UNIV ?s (?s\<lparr>gap := [?m]\<rparr>)"
    using apiMu_step.others_meanwhile [of ?s "(PollCycle, [])" ?m UNIV hook_publish "demo_env False"] by (simp add: polling_def)
  with polling_reached have "(apiMu_step hook_publish (demo_env False) UNIV)\<^sup>*\<^sup>* (goroutines_start (demo_start Map.empty)) (?s\<lparr>gap := [?m]\<rparr>)"
    by (rule rtranclp.rtrancl_into_rtrancl)
  from preempted_never_both [OF P this start] show ?thesis by simp
qed



text \<open>
  No cycle keeps the lock for ever: whatever the other goroutines do in between, a cycle that waits
  for the lock can be run to its end, with its calls all made and the lock free again.
\<close>

theorem blocked_cycle_completes:
  assumes "blocked s = cs @ c # cs'"
  shows "\<exists>s'. (apiMu_step act e A)\<^sup>*\<^sup>* s s' \<and> holder s' = None \<and> blocked s' = cs @ cs' \<and> last (completed s') = c"
  by (rule blocked_ends [OF assms])

theorem blocked_cycle_completes_witness:
  "\<exists>s. (apiMu_step hook_publish (demo_env True) UNIV)\<^sup>*\<^sup>* (polling (demo_start Map.empty)) s \<and>
     holder s = None \<and> blocked s = [] \<and> last (completed s) = CommandCycle ''solis/1/rtc_sync/set'' []"
  using blocked_cycle_completes [of "polling (demo_start Map.empty)" "[]" "CommandCycle ''solis/1/rtc_sync/set'' []" "[]" hook_publish "demo_env True" UNIV]
  by (simp add: polling_def)

end
