(* ===== verification/Mqtt.thy ===== *)
theory Mqtt
  imports Publisher
begin

text \<open>
  \<open>internal/mqtt/client.go\<close>: the transport under the publisher. The connection manager is a third-party
  library: its calls are the functions of a record. The part of the client that is its own - the
  connection-up hook with its wait group and closing flag, the message hook, and the Will - is the
  record \<open>mqtt_Client\<close> and the operations on it; each runs under the client's mutex and is one step.
\<close>

section \<open>The connection manager\<close>

text \<open>\<open>cm_Publish topic payload qos retain\<close> and \<open>cm_Subscribe filter qos\<close>; \<open>None\<close> is a \<open>nil\<close> error.\<close>

record 'w ConnectionManager =
  cm_Publish :: "string \<Rightarrow> payload \<Rightarrow> int \<Rightarrow> bool \<Rightarrow> 'w \<Rightarrow> go_error option \<times> 'w"
  cm_Subscribe :: "string \<Rightarrow> int \<Rightarrow> 'w \<Rightarrow> go_error option \<times> 'w"
  cm_Disconnect :: "'w \<Rightarrow> go_error option \<times> 'w"

section \<open>client.go: the configuration\<close>

definition keepAliveSeconds :: int where "keepAliveSeconds = 20"

record Options =
  opt_BrokerURL :: string
  opt_Username :: string
  opt_Password :: string
  opt_ClientID :: string
  opt_AvailabilityTopic :: string

record WillMessage =
  Will_Topic :: string
  Will_Payload :: string
  Will_QoS :: int
  Will_Retain :: bool

text \<open>The fields of the library's configuration that the client sets; the callbacks are the operations below.\<close>

record 'u ClientConfig =
  ServerUrls :: "'u list"
  KeepAlive :: int
  CleanStartOnInitialConnection :: bool
  ConnectUsername :: string
  ConnectPassword :: string
  cfg_ClientID :: string
  cfg_WillMessage :: "WillMessage option"
  WillDelayInterval :: "u32 option"

definition buildClientConfig :: "'u \<Rightarrow> Options \<Rightarrow> 'u ClientConfig" where
  "buildClientConfig u opts =
     (let cfg = \<lparr>ServerUrls = [u], KeepAlive = keepAliveSeconds, CleanStartOnInitialConnection = False,
                 ConnectUsername = opt_Username opts, ConnectPassword = opt_Password opts,
                 cfg_ClientID = opt_ClientID opts, cfg_WillMessage = None, WillDelayInterval = None\<rparr>
      in if opt_AvailabilityTopic opts \<noteq> [] then
           (let willDelayInterval = of_int (2 * keepAliveSeconds) in
            cfg\<lparr>cfg_WillMessage := Some \<lparr>Will_Topic = opt_AvailabilityTopic opts, Will_Payload = ''offline'',
                                         Will_QoS = 1, Will_Retain = True\<rparr>,
                WillDelayInterval := Some willDelayInterval\<rparr>)
         else cfg)"

section \<open>client.go: the client\<close>

text \<open>
  \<open>'h\<close> is the type of the connection-up hook, \<open>'w\<close> the world the message hook works on. \<open>hookWG\<close> is the
  counter of the wait group, and \<open>hookCancelled\<close> whether \<open>hookCtx\<close> has been cancelled.
\<close>

record ('h, 'w) mqtt_Client =
  onUp :: "'h option"
  onMsg :: "(string \<Rightarrow> string \<Rightarrow> 'w \<Rightarrow> 'w) option"
  hookCancelled :: bool
  hookWG :: int
  hookClosing :: bool

text \<open>
  \<open>Connect\<close>: \<open>parse\<close> is \<open>url.Parse\<close>, \<open>newConnection\<close> and \<open>await\<close> the library's calls. It returns the client
  next to the error of the step that failed.
\<close>

definition Connect ::
  "(string \<Rightarrow> 'u result) \<Rightarrow> ('u ClientConfig \<Rightarrow> 'w \<Rightarrow> go_error option \<times> 'w) \<Rightarrow> ('w \<Rightarrow> go_error option \<times> 'w) \<Rightarrow>
   Options \<Rightarrow> 'h option \<Rightarrow> 'w \<Rightarrow> ('h, 'w) mqtt_Client result \<times> 'w" where
  "Connect parse newConnection await opts onConnectionUp w =
     (case parse (opt_BrokerURL opts) of
        Inl err \<Rightarrow> (Inl (Wrap ''parse MQTT broker URL'' err), w)
      | Inr u \<Rightarrow>
          (let c = \<lparr>onUp = onConnectionUp, onMsg = None, hookCancelled = False, hookWG = 0, hookClosing = False\<rparr>;
               cfg = buildClientConfig u opts
           in case newConnection cfg w of
                (Some err, w) \<Rightarrow> (Inl (Wrap ''mqtt new connection'' err), w)
              | (None, w) \<Rightarrow>
                  (case await w of
                     (Some err, w) \<Rightarrow> (Inl (Wrap ''mqtt await connection'' err), w)
                   | (None, w) \<Rightarrow> (Inr c, w))))"

definition SetOnConnectionUp :: "'h option \<Rightarrow> ('h, 'w) mqtt_Client \<Rightarrow> ('h, 'w) mqtt_Client" where
  "SetOnConnectionUp fn c = c\<lparr>onUp := fn\<rparr>"

text \<open>\<open>fireOnUp\<close> returns the hook whose goroutine it started, if any; \<open>hook_Done\<close> is its deferred \<open>Done\<close>.\<close>

definition fireOnUp :: "('h, 'w) mqtt_Client \<Rightarrow> ('h, 'w) mqtt_Client \<times> 'h option" where
  "fireOnUp c =
     (case onUp c of
        None \<Rightarrow> (c, None)
      | Some fn \<Rightarrow>
          if hookClosing c then (c, None)
          else (c\<lparr>hookWG := hookWG c + 1\<rparr>, Some fn))"

definition hook_Done :: "('h, 'w) mqtt_Client \<Rightarrow> ('h, 'w) mqtt_Client" where
  "hook_Done c = c\<lparr>hookWG := hookWG c - 1\<rparr>"

definition SetOnMessage :: "(string \<Rightarrow> string \<Rightarrow> 'w \<Rightarrow> 'w) option \<Rightarrow> ('h, 'w) mqtt_Client \<Rightarrow> ('h, 'w) mqtt_Client" where
  "SetOnMessage fn c = c\<lparr>onMsg := fn\<rparr>"

definition fireOnMessage :: "('h, 'w) mqtt_Client \<Rightarrow> string \<Rightarrow> string \<Rightarrow> 'w \<Rightarrow> 'w" where
  "fireOnMessage c topic payload w =
     (case onMsg c of
        None \<Rightarrow> w
      | Some fn \<Rightarrow> fn topic payload w)"

definition Client_Publish :: "'w ConnectionManager \<Rightarrow> 'w Publisher" where
  "Client_Publish cm topic payload retain w =
     (case cm_Publish cm topic payload 1 retain w of
        (Some err, w) \<Rightarrow> (Some (Wrap (''mqtt publish '' @ topic) err), w)
      | (None, w) \<Rightarrow> (None, w))"

definition Client_Subscribe :: "'w ConnectionManager \<Rightarrow> string \<Rightarrow> 'w \<Rightarrow> go_error option \<times> 'w" where
  "Client_Subscribe cm topicFilter w =
     (case cm_Subscribe cm topicFilter 1 w of
        (Some err, w) \<Rightarrow> (Some (Wrap (''mqtt subscribe '' @ topicFilter) err), w)
      | (None, w) \<Rightarrow> (None, w))"

text \<open>
  \<open>drainHook\<close> closes the hooks and cancels their context, and then waits until \<open>hook_drained\<close>, or until
  the context it was given is done.
\<close>

definition drainHook_close :: "('h, 'w) mqtt_Client \<Rightarrow> ('h, 'w) mqtt_Client" where
  "drainHook_close c = c\<lparr>hookClosing := True, hookCancelled := True\<rparr>"

definition hook_drained :: "('h, 'w) mqtt_Client \<Rightarrow> bool" where
  "hook_drained c \<longleftrightarrow> hookWG c = 0"

section \<open>The client as a publisher\<close>

text \<open>
  A connection manager whose retained QoS-1 publishes reach the broker's store makes the client a
  \<open>broker\<close>.
\<close>

lemma Client_broker:
  assumes "broker (\<lambda>t p r. cm_Publish cm t p 1 r) retained"
  shows "broker (Client_Publish cm) retained"
  using broker.publish_ok [OF assms] broker.publish_err [OF assms]
  by unfold_locales (auto simp: Client_Publish_def split: prod.splits option.splits)

text \<open>A connection manager over the recording publisher, for the properties of the whole process.\<close>

definition recording_cm :: "RecordingPublisher ConnectionManager" where
  "recording_cm =
     \<lparr>cm_Publish = (\<lambda>t p _ r. Recording_Publish t p r), cm_Subscribe = (\<lambda>_ _ w. (None, w)), cm_Disconnect = (\<lambda>w. (None, w))\<rparr>"

interpretation recording_client: broker "Client_Publish recording_cm" recorded_store
  by (rule Client_broker) (simp add: recording_cm_def recorder.broker_axioms)

end
