(* ===== verification/Lifecycle.thy ===== *)
theory Lifecycle
  imports MockSystem Mqtt
begin

text \<open>
  \<open>internal/cmd/serve.go\<close>: what the process does around the poll loop. The republish pass of the broker
  session, the teardown and the two exits as sequential functions; and the threads of the process -
  the main goroutine from the connect to the last step of the teardown, the hook goroutines of the
  MQTT client, the scheduler and the broker's deliveries - as a step relation, because what holds at
  shutdown depends on how they interleave.
\<close>

section \<open>serve.go: republisher\<close>

record 'w republisher =
  rp_svc :: "'w \<Rightarrow> 'w Service option"
  rp_lastState :: "'w \<Rightarrow> Telemetry \<times> ha_Setpoints \<times> bool"
  rp_subscribe :: "(string \<Rightarrow> 'w \<Rightarrow> go_error option \<times> 'w) option"
  commandTopic :: string

text \<open>One pass; the error of a step is only logged.\<close>

definition republisher_run :: "'w republisher \<Rightarrow> 'w \<Rightarrow> 'w" where
  "republisher_run r w =
     (case rp_svc r w of
        None \<Rightarrow> w
      | Some svc \<Rightarrow>
          (let (err, w) = PublishDiscovery svc w;
               (err, w) = PublishDiscoveryRemovals svc w;
               (err, w) = PublishAvailability svc True w;
               (tel, sp, have) = rp_lastState r w;
               w = (if have then snd (Service_PublishState svc tel sp w) else w)
           in case rp_subscribe r of
                None \<Rightarrow> w
              | Some subscribe \<Rightarrow> snd (subscribe (commandTopic r) w)))"

section \<open>serve.go: teardown\<close>

text \<open>
  The steps after \<open>schedDone\<close> is closed; \<open>None\<close> is a \<open>nil\<close> step. \<open>disconnect\<close> is \<open>mqtt.Client.Disconnect\<close>,
  whose drain of the hooks is part of the step relation below.
\<close>

record 'w teardown =
  offline :: "('w \<Rightarrow> go_error option \<times> 'w) option"
  disconnect :: "('w \<Rightarrow> go_error option \<times> 'w) option"
  stopHealth :: "'w \<Rightarrow> go_error option \<times> 'w"

definition teardown_run :: "'w teardown \<Rightarrow> 'w \<Rightarrow> 'w" where
  "teardown_run t w =
     (let w = (case offline t of None \<Rightarrow> w | Some f \<Rightarrow> snd (f w));
          w = (case disconnect t of None \<Rightarrow> w | Some f \<Rightarrow> snd (f w))
      in snd (stopHealth t w))"

section \<open>serve.go: the exits\<close>

definition healthExitError :: "go_error option \<Rightarrow> go_error option" where
  "healthExitError err =
     (case err of
        None \<Rightarrow> None
      | Some err \<Rightarrow> Some (Wrap ''health server'' err))"

text \<open>What the \<open>select\<close> of \<open>waitForExit\<close> receives.\<close>

datatype exit_event = HealthErr "go_error option" | CtxDone

definition waitForExit :: "exit_event \<Rightarrow> ('w \<Rightarrow> 'w) \<Rightarrow> ('w \<Rightarrow> 'w) \<Rightarrow> 'w \<Rightarrow> go_error option \<times> 'w" where
  "waitForExit ev cancel shutdown w =
     (case ev of
        HealthErr err \<Rightarrow> (let w = cancel w; w = shutdown w in (healthExitError err, w))
      | CtxDone \<Rightarrow> (let w = shutdown w in (None, w)))"

section \<open>serve.go: the threads of runServe\<close>

text \<open>
  What \<open>runServe\<close> hands to its threads when a broker is configured: the publisher it stores, the cache
  and the poll of the scheduler, the subscription and the message handler (\<open>None\<close> without controls).
\<close>

record 'w wiring =
  wire_svc :: "'w Service"
  wire_lastState :: "'w \<Rightarrow> Telemetry \<times> ha_Setpoints \<times> bool"
  wire_poll :: "'w \<Rightarrow> 'w"
  wire_subscribe :: "(string \<Rightarrow> 'w \<Rightarrow> go_error option \<times> 'w) option"
  wire_commandTopic :: string
  wire_onMsg :: "(string \<Rightarrow> string \<Rightarrow> 'w \<Rightarrow> 'w) option"
  wire_disconnect :: "'w \<Rightarrow> go_error option \<times> 'w"
  wire_stopHealth :: "'w \<Rightarrow> go_error option \<times> 'w"

definition serve_wiring :: "'w serve_env \<Rightarrow> 'w ConnectionManager \<Rightarrow> ('w world \<Rightarrow> go_error option \<times> 'w world) \<Rightarrow> 'w world wiring" where
  "serve_wiring e cm stop =
     \<lparr>wire_svc = serve_svc e, wire_lastState = LastState, wire_poll = poll (serve_scheduler e),
      wire_subscribe = (if env_controls e then Some (\<lambda>topic. on_net (Client_Subscribe cm topic)) else None),
      wire_commandTopic = BaseTopic (env_ha e) @ ''/+/set'',
      wire_onMsg = (if env_controls e then Some (ApplyCommand (serve_scheduler e)) else None),
      wire_disconnect = on_net (cm_Disconnect cm), wire_stopHealth = stop\<rparr>"

text \<open>
  A republish pass in progress: it loads the publisher first and makes its calls one by one. The cache
  it reads is empty until the scheduler exists.
\<close>

datatype call = CDiscovery | CRemovals | COnline | CState | CSubscribe

datatype 'w pass = Entered | Calls "'w Service" "call list"

definition pass_calls :: "call list" where
  "pass_calls = [CDiscovery, CRemovals, COnline, CState, CSubscribe]"

text \<open>Where the main goroutine is.\<close>

datatype 'w stage =
    Connecting
  | Connected
  | Stored
  | Built
  | Installed
  | Announcing "'w pass"
  | Serving
  | Exiting
  | SchedDone
  | OfflineSent
  | Closing
  | Drained
  | Disconnected
  | Stopped

record 'w process =
  stage :: "'w stage"
  client :: "(unit, 'w) mqtt_Client"
  svcPtr :: "'w Service option"
  have_sched :: bool
  hooks :: "'w pass list"
  subscribed :: bool
  expired :: bool
  exit_err :: "go_error option"
  env :: 'w

definition call_step :: "'w wiring \<Rightarrow> 'w Service \<Rightarrow> call \<Rightarrow> 'w process \<Rightarrow> 'w process" where
  "call_step W svc c s =
     (case c of
        CDiscovery \<Rightarrow> s\<lparr>env := snd (PublishDiscovery svc (env s))\<rparr>
      | CRemovals \<Rightarrow> s\<lparr>env := snd (PublishDiscoveryRemovals svc (env s))\<rparr>
      | COnline \<Rightarrow> s\<lparr>env := snd (PublishAvailability svc True (env s))\<rparr>
      | CState \<Rightarrow>
          (let (tel, sp, have) = (if have_sched s then wire_lastState W (env s) else (Telemetry_zero, ha_Setpoints_zero, False))
           in if have then s\<lparr>env := snd (Service_PublishState svc tel sp (env s))\<rparr> else s)
      | CSubscribe \<Rightarrow>
          (case wire_subscribe W of
             None \<Rightarrow> s
           | Some subscribe \<Rightarrow>
               (let (err, w) = subscribe (wire_commandTopic W) (env s)
                in s\<lparr>env := w, subscribed := subscribed s \<or> err = None\<rparr>)))"

text \<open>One step of a pass: \<open>None\<close> when it has returned.\<close>

definition pass_step :: "'w wiring \<Rightarrow> 'w pass \<Rightarrow> 'w process \<Rightarrow> 'w pass option \<times> 'w process" where
  "pass_step W p s =
     (case p of
        Entered \<Rightarrow> (case svcPtr s of None \<Rightarrow> (None, s) | Some svc \<Rightarrow> (Some (Calls svc pass_calls), s))
      | Calls svc [] \<Rightarrow> (None, s)
      | Calls svc (c # cs) \<Rightarrow> (Some (Calls svc cs), call_step W svc c s))"

fun has_transport :: "'w stage \<Rightarrow> bool" where
  "has_transport Disconnected = False"
| "has_transport Stopped = False"
| "has_transport st = True"

text \<open>
  The steps. The transport delivers connection-up events and messages until it is disconnected; the
  scheduler polls until its goroutine has returned; a hook moves on its own; and the main goroutine
  runs \<open>runServe\<close> from the connect on.
\<close>

inductive process_step :: "'w wiring \<Rightarrow> 'w process \<Rightarrow> 'w process \<Rightarrow> bool" for W where
  connection_up: "has_transport (stage s) \<Longrightarrow> fireOnUp (client s) = (c, h) \<Longrightarrow>
    process_step W s (s\<lparr>client := c, hooks := hooks s @ (case h of None \<Rightarrow> [] | Some _ \<Rightarrow> [Entered])\<rparr>)"
| message: "has_transport (stage s) \<Longrightarrow>
    process_step W s (s\<lparr>env := fireOnMessage (client s) topic payload (env s)\<rparr>)"
| polled: "stage s = Serving \<or> stage s = Exiting \<Longrightarrow> process_step W s (s\<lparr>env := wire_poll W (env s)\<rparr>)"
| hook_moves: "hooks s = hs @ p # hs' \<Longrightarrow> pass_step W p s = (Some p', s') \<Longrightarrow>
    process_step W s (s'\<lparr>hooks := hs @ p' # hs'\<rparr>)"
| hook_returns: "hooks s = hs @ p # hs' \<Longrightarrow> pass_step W p s = (None, s') \<Longrightarrow>
    process_step W s (s'\<lparr>hooks := hs @ hs', client := hook_Done (client s')\<rparr>)"
| connected: "stage s = Connecting \<Longrightarrow> process_step W s (s\<lparr>stage := Connected\<rparr>)"
| stored: "stage s = Connected \<Longrightarrow> process_step W s (s\<lparr>svcPtr := Some (wire_svc W), stage := Stored\<rparr>)"
| built: "stage s = Stored \<Longrightarrow> process_step W s (s\<lparr>have_sched := True, stage := Built\<rparr>)"
| installed: "stage s = Built \<Longrightarrow>
    process_step W s (s\<lparr>client := (if wire_onMsg W \<noteq> None then SetOnMessage (wire_onMsg W) (client s) else client s),
      stage := Installed\<rparr>)"
| announce: "stage s = Installed \<Longrightarrow> process_step W s (s\<lparr>stage := Announcing Entered\<rparr>)"
| announcing: "stage s = Announcing p \<Longrightarrow> pass_step W p s = (q, s') \<Longrightarrow>
    process_step W s (s'\<lparr>stage := (case q of None \<Rightarrow> Serving | Some p' \<Rightarrow> Announcing p')\<rparr>)"
| exits: "stage s = Serving \<Longrightarrow>
    process_step W s (s\<lparr>stage := Exiting, exit_err := (case ev of HealthErr err \<Rightarrow> healthExitError err | CtxDone \<Rightarrow> None)\<rparr>)"
| sched_done: "stage s = Exiting \<Longrightarrow> process_step W s (s\<lparr>stage := SchedDone\<rparr>)"
| offline_sent: "stage s = SchedDone \<Longrightarrow>
    process_step W s (s\<lparr>stage := OfflineSent,
      env := (case svcPtr s of None \<Rightarrow> env s | Some svc \<Rightarrow> snd (PublishAvailability svc False (env s)))\<rparr>)"
| closes: "stage s = OfflineSent \<Longrightarrow> process_step W s (s\<lparr>stage := Closing, client := drainHook_close (client s)\<rparr>)"
| drained: "stage s = Closing \<Longrightarrow> hook_drained (client s) \<Longrightarrow> process_step W s (s\<lparr>stage := Drained\<rparr>)"
| times_out: "stage s = Closing \<Longrightarrow> process_step W s (s\<lparr>stage := Drained, expired := True\<rparr>)"
| disconnects: "stage s = Drained \<Longrightarrow>
    process_step W s (s\<lparr>stage := Disconnected, env := snd (wire_disconnect W (env s))\<rparr>)"
| stops: "stage s = Disconnected \<Longrightarrow> process_step W s (s\<lparr>stage := Stopped, env := snd (wire_stopHealth W (env s))\<rparr>)"

inductive_cases process_stepE: "process_step W s s'"

definition process_start :: "'w \<Rightarrow> 'w process" where
  "process_start w =
     \<lparr>stage = Connecting,
      client = \<lparr>onUp = Some (), onMsg = None, hookCancelled = False, hookWG = 0, hookClosing = False\<rparr>,
      svcPtr = None, have_sched = False, hooks = [], subscribed = False, expired = False, exit_err = None, env = w\<rparr>"

section \<open>Steps\<close>

lemma call_step_fields [simp]:
  "stage (call_step W svc c s) = stage s" "client (call_step W svc c s) = client s"
  "svcPtr (call_step W svc c s) = svcPtr s" "have_sched (call_step W svc c s) = have_sched s"
  "hooks (call_step W svc c s) = hooks s" "expired (call_step W svc c s) = expired s"
  "exit_err (call_step W svc c s) = exit_err s"
  by (simp_all add: call_step_def Let_def split: call.splits option.splits prod.splits)

lemma pass_step_fields:
  assumes "pass_step W p s = (q, s')"
  shows "stage s' = stage s" "client s' = client s" "svcPtr s' = svcPtr s" "have_sched s' = have_sched s"
    "hooks s' = hooks s" "expired s' = expired s" "exit_err s' = exit_err s"
  using assms by (auto simp: pass_step_def split: pass.splits option.splits list.splits)

lemma fireOnUp_cases:
  assumes "fireOnUp c = (c', h)"
  obtains (off) "h = None" "c' = c" | (fired) f where "h = Some f" "c' = c\<lparr>hookWG := hookWG c + 1\<rparr>" "\<not> hookClosing c"
  using assms off fired by (cases "onUp c"; cases h) (auto simp: fireOnUp_def split: if_splits)

text \<open>
  What every reachable state of the process satisfies: the wait group counts the hooks in flight, the
  client is closing from the drain on, and a drain that did not time out left no hook.
\<close>

definition process_ok :: "'w process \<Rightarrow> bool" where
  "process_ok s \<longleftrightarrow>
     hookWG (client s) = int (length (hooks s)) \<and>
     (stage s \<in> {Closing, Drained, Disconnected, Stopped} \<longrightarrow> hookClosing (client s)) \<and>
     (stage s \<in> {Drained, Disconnected, Stopped} \<longrightarrow> expired s \<or> hooks s = [])"

lemma process_ok_start [simp]: "process_ok (process_start w)"
  by (simp add: process_ok_def process_start_def)

lemma process_ok_pass:
  assumes "pass_step W p s = (q, s')" "process_ok s"
  shows "process_ok s'"
  using pass_step_fields [OF assms(1)] assms(2) by (simp add: process_ok_def)

lemma process_ok_step:
  assumes "process_step W s s'" "process_ok s"
  shows "process_ok s'"
  using assms(1)
proof (cases rule: process_step.cases)
  case (connection_up c h)
  from connection_up(3) show ?thesis
    by (cases rule: fireOnUp_cases) (use assms(2) connection_up(1) in \<open>auto simp: process_ok_def\<close>)
next
  case (hook_moves hs p hs' p' t)
  note F = pass_step_fields [OF hook_moves(3)]
  show ?thesis using assms(2) hook_moves(1,2) F by (auto simp: process_ok_def)
next
  case (hook_returns hs p hs' t)
  note F = pass_step_fields [OF hook_returns(3)]
  show ?thesis using assms(2) hook_returns(1,2) F by (auto simp: process_ok_def hook_Done_def)
next
  case (announcing p q t)
  note F = pass_step_fields [OF announcing(3)]
  show ?thesis using assms(2) announcing(1,2) F by (auto simp: process_ok_def split: option.splits)
qed (use assms(2) in \<open>auto simp: process_ok_def SetOnMessage_def drainHook_close_def hook_drained_def\<close>)

lemma process_reach_ok: "(process_step W)\<^sup>*\<^sup>* (process_start w) s \<Longrightarrow> process_ok s"
  by (induction rule: rtranclp_induct) (auto intro: process_ok_step)

section \<open>Passes run to their end\<close>

fun pass_left :: "'w pass \<Rightarrow> nat" where
  "pass_left Entered = 7"
| "pass_left (Calls svc cs) = Suc (length cs)"

lemma pass_step_less: "pass_step W p s = (Some p', s') \<Longrightarrow> pass_left p' < pass_left p"
  by (auto simp: pass_step_def pass_calls_def split: pass.splits option.splits list.splits)

abbreviation same_threads :: "'w process \<Rightarrow> 'w process \<Rightarrow> bool" where
  "same_threads s s' \<equiv> svcPtr s' = svcPtr s \<and> have_sched s' = have_sched s \<and> expired s' = expired s \<and>
     exit_err s' = exit_err s"

lemma announce_returns:
  assumes "stage s = Announcing p"
  shows "\<exists>s'. (process_step W)\<^sup>*\<^sup>* s s' \<and> stage s' = Serving \<and> client s' = client s \<and> hooks s' = hooks s \<and> same_threads s s'"
  using assms
proof (induction "pass_left p" arbitrary: p s rule: less_induct)
  case less
  obtain q t where P: "pass_step W p s = (q, t)" by fastforce
  note F = pass_step_fields [OF P]
  have step: "process_step W s (t\<lparr>stage := (case q of None \<Rightarrow> Serving | Some p' \<Rightarrow> Announcing p')\<rparr>)"
    by (rule process_step.announcing [OF less.prems P])
  show ?case
  proof (cases q)
    case None
    with step F show ?thesis by (intro exI [of _ "t\<lparr>stage := Serving\<rparr>"]) (auto intro: r_into_rtranclp)
  next
    case (Some p')
    let ?t = "t\<lparr>stage := Announcing p'\<rparr>"
    from less.hyps [of p' ?t] pass_step_less [OF P [unfolded Some]] obtain s' where
      "(process_step W)\<^sup>*\<^sup>* ?t s'" "stage s' = Serving" "client s' = client ?t" "hooks s' = hooks ?t" "same_threads ?t s'"
      by auto
    moreover have "process_step W s ?t" using step Some by simp
    ultimately show ?thesis using F by (intro exI [of _ s']) (auto intro: converse_rtranclp_into_rtranclp)
  qed
qed

lemma hooks_return:
  "\<exists>s'. (process_step W)\<^sup>*\<^sup>* s s' \<and> hooks s' = [] \<and> stage s' = stage s \<and> same_threads s s'"
proof (induction "\<Sum>p\<leftarrow>hooks s. pass_left p" arbitrary: s rule: less_induct)
  case less
  show ?case
  proof (cases "hooks s")
    case Nil
    then show ?thesis by (intro exI [of _ s]) simp
  next
    case (Cons p hs)
    then have h: "hooks s = [] @ p # hs" by simp
    obtain q t where P: "pass_step W p s = (q, t)" by fastforce
    note F = pass_step_fields [OF P]
    define s1 where "s1 = (case q of None \<Rightarrow> t\<lparr>hooks := [] @ hs, client := hook_Done (client t)\<rparr> | Some p' \<Rightarrow> t\<lparr>hooks := [] @ p' # hs\<rparr>)"
    have step: "process_step W s s1"
      using process_step.hook_returns [OF h, of W t] process_step.hook_moves [OF h, of W _ t] P
      by (auto simp: s1_def split: option.splits)
    have "0 < pass_left p" by (cases p) auto
    then have "(\<Sum>p\<leftarrow>hooks s1. pass_left p) < (\<Sum>p\<leftarrow>hooks s. pass_left p)"
      using Cons pass_step_less [of W p s _ t] P by (auto simp: s1_def split: option.splits)
    from less.hyps [OF this] obtain s' where
      "(process_step W)\<^sup>*\<^sup>* s1 s'" "hooks s' = []" "stage s' = stage s1" "same_threads s1 s'" by blast
    moreover have "stage s1 = stage s" "same_threads s s1" using F by (auto simp: s1_def split: option.splits)
    ultimately show ?thesis using step by (intro exI [of _ s']) (auto intro: converse_rtranclp_into_rtranclp)
  qed
qed

section \<open>A process that serves\<close>

lemma reach_serving:
  "\<exists>s. (process_step W)\<^sup>*\<^sup>* (process_start w) s \<and> stage s = Serving \<and> hooks s = [] \<and> svcPtr s = Some (wire_svc W) \<and>
     have_sched s \<and> \<not> expired s \<and> onUp (client s) = Some () \<and> \<not> hookClosing (client s) \<and> onMsg (client s) = wire_onMsg W"
proof -
  let ?c0 = "client (process_start w)"
  let ?c = "if wire_onMsg W \<noteq> None then SetOnMessage (wire_onMsg W) ?c0 else ?c0"
  define s1 where "s1 = (process_start w)\<lparr>stage := Connected\<rparr>"
  define s2 where "s2 = s1\<lparr>svcPtr := Some (wire_svc W), stage := Stored\<rparr>"
  define s3 where "s3 = s2\<lparr>have_sched := True, stage := Built\<rparr>"
  define s4 where "s4 = s3\<lparr>client := (if wire_onMsg W \<noteq> None then SetOnMessage (wire_onMsg W) (client s3) else client s3), stage := Installed\<rparr>"
  define s5 where "s5 = s4\<lparr>stage := Announcing Entered\<rparr>"
  have steps: "process_step W (process_start w) s1" "process_step W s1 s2" "process_step W s2 s3" "process_step W s3 s4" "process_step W s4 s5"
    unfolding s5_def s4_def s3_def s2_def s1_def
    by (rule process_step.intros; simp add: process_start_def)+
  have "stage s5 = Announcing Entered" by (simp add: s5_def)
  from announce_returns [OF this, of W] obtain s where
    S: "(process_step W)\<^sup>*\<^sup>* s5 s" "stage s = Serving" "client s = client s5" "hooks s = hooks s5" "same_threads s5 s" by blast
  have "(process_step W)\<^sup>*\<^sup>* (process_start w) s" using steps S(1) by (meson converse_rtranclp_into_rtranclp)
  moreover have "client s5 = ?c" by (simp add: s5_def s4_def s3_def s2_def s1_def)
  ultimately show ?thesis
    using S by (intro exI [of _ s]) (simp add: s5_def s4_def s3_def s2_def s1_def process_start_def SetOnMessage_def)
qed

text \<open>A hook that is alone makes its next call.\<close>

lemma hook_alone:
  assumes "hooks s = [Calls svc (c # cs)]"
  shows "process_step W s ((call_step W svc c s)\<lparr>hooks := [Calls svc cs]\<rparr>)"
  using process_step.hook_moves [of s "[]" "Calls svc (c # cs)" "[]" W "Calls svc cs" "call_step W svc c s"] assms
  by (simp add: pass_step_def)

lemma hook_alone_enters:
  assumes "hooks s = [Entered]" "svcPtr s = Some svc"
  shows "process_step W s (s\<lparr>hooks := [Calls svc pass_calls]\<rparr>)"
  using process_step.hook_moves [of s "[]" Entered "[]" W "Calls svc pass_calls" s] assms
  by (simp add: pass_step_def)

text \<open>The rest of the teardown, stage by stage.\<close>

definition finishes :: "'w wiring \<Rightarrow> 'w process \<Rightarrow> bool" where
  "finishes W s \<longleftrightarrow>
     (\<exists>s'. (process_step W)\<^sup>*\<^sup>* s s' \<and> stage s' = Stopped \<and> expired s' = expired s \<and> exit_err s' = exit_err s)"

lemma finishes_steps:
  "(process_step W)\<^sup>*\<^sup>* s t \<Longrightarrow> expired t = expired s \<Longrightarrow> exit_err t = exit_err s \<Longrightarrow> finishes W t \<Longrightarrow> finishes W s"
  by (auto simp: finishes_def intro: rtranclp_trans)

lemmas finishes_step = finishes_steps [OF r_into_rtranclp]

lemma finishes_late:
  assumes "process_ok s"
  shows "stage s = Disconnected \<Longrightarrow> finishes W s" "stage s = Drained \<Longrightarrow> finishes W s" "stage s = Closing \<Longrightarrow> finishes W s"
    "stage s = OfflineSent \<Longrightarrow> finishes W s" "stage s = SchedDone \<Longrightarrow> finishes W s" "stage s = Exiting \<Longrightarrow> finishes W s"
proof -
  have stopped: "finishes W s" if "stage s = Stopped" for s using that by (auto simp: finishes_def)
  have disc: "finishes W s" if "stage s = Disconnected" for s
    by (rule finishes_step [OF process_step.stops [OF that]]) (simp_all add: stopped)
  have drained: "finishes W s" if "stage s = Drained" for s
    by (rule finishes_step [OF process_step.disconnects [OF that]]) (simp_all add: disc)
  have closing: "finishes W s" if S: "stage s = Closing" "process_ok s" for s
  proof -
    obtain t where T: "(process_step W)\<^sup>*\<^sup>* s t" "hooks t = []" "stage t = Closing" "expired t = expired s" "exit_err t = exit_err s"
      using hooks_return [of W s] S(1) by auto
    have "process_ok t" using T(1) S(2) by (induction rule: rtranclp_induct) (auto intro: process_ok_step)
    then have "hook_drained (client t)" using T(2) by (simp add: process_ok_def hook_drained_def)
    then have "finishes W t"
      by (rule finishes_step [OF process_step.drained [OF T(3)]]) (simp_all add: drained)
    with T show ?thesis by (blast intro: finishes_steps)
  qed
  have sent: "finishes W s" if "stage s = OfflineSent" "process_ok s" for s
    by (rule finishes_step [OF process_step.closes [OF that(1)]])
      (simp_all add: closing process_ok_step [OF process_step.closes [OF that(1)] that(2)])
  have sched: "finishes W s" if "stage s = SchedDone" "process_ok s" for s
    by (rule finishes_step [OF process_step.offline_sent [OF that(1)]])
      (simp_all add: sent process_ok_step [OF process_step.offline_sent [OF that(1)] that(2)])
  have exiting: "finishes W s" if "stage s = Exiting" "process_ok s" for s
    by (rule finishes_step [OF process_step.sched_done [OF that(1)]])
      (simp_all add: sched process_ok_step [OF process_step.sched_done [OF that(1)] that(2)])
  show "stage s = Disconnected \<Longrightarrow> finishes W s" "stage s = Drained \<Longrightarrow> finishes W s" "stage s = Closing \<Longrightarrow> finishes W s"
    "stage s = OfflineSent \<Longrightarrow> finishes W s" "stage s = SchedDone \<Longrightarrow> finishes W s" "stage s = Exiting \<Longrightarrow> finishes W s"
    using disc drained closing sent sched exiting assms by blast+
qed

text \<open>A connection comes up while the process exits: its hook has the announcement behind the offline.\<close>

lemma hook_behind_offline:
  "\<exists>s. (process_step W)\<^sup>*\<^sup>* (process_start w) s \<and> stage s = OfflineSent \<and>
     hooks s = [Calls (wire_svc W) [COnline, CState, CSubscribe]] \<and> \<not> expired s \<and> onMsg (client s) = wire_onMsg W"
proof -
  let ?svc = "wire_svc W"
  obtain s0 where R0: "(process_step W)\<^sup>*\<^sup>* (process_start w) s0" and S0: "stage s0 = Serving" "hooks s0 = []"
    "svcPtr s0 = Some ?svc" "\<not> expired s0" "onUp (client s0) = Some ()" "\<not> hookClosing (client s0)" "onMsg (client s0) = wire_onMsg W"
    using reach_serving [of W w] by blast
  define c1 where "c1 = (client s0)\<lparr>hookWG := hookWG (client s0) + 1\<rparr>"
  define s1 where "s1 = s0\<lparr>stage := Exiting, exit_err := None\<rparr>"
  define s2 where "s2 = s1\<lparr>client := c1, hooks := [Entered]\<rparr>"
  define s3 where "s3 = s2\<lparr>hooks := [Calls ?svc pass_calls]\<rparr>"
  define s4 where "s4 = (call_step W ?svc CDiscovery s3)\<lparr>hooks := [Calls ?svc [CRemovals, COnline, CState, CSubscribe]]\<rparr>"
  define s5 where "s5 = (call_step W ?svc CRemovals s4)\<lparr>hooks := [Calls ?svc [COnline, CState, CSubscribe]]\<rparr>"
  define s6 where "s6 = s5\<lparr>stage := SchedDone\<rparr>"
  define s7 where "s7 = s6\<lparr>stage := OfflineSent, env := snd (PublishAvailability ?svc False (env s6))\<rparr>"
  have e1: "process_step W s0 s1" using process_step.exits [OF S0(1), of W CtxDone] by (simp add: s1_def)
  have e2: "process_step W s1 s2"
    using process_step.connection_up [of s1 c1 "Some ()" W] S0 by (simp add: s2_def s1_def fireOnUp_def c1_def)
  have e3: "process_step W s2 s3" unfolding s3_def by (rule hook_alone_enters) (simp_all add: s2_def s1_def S0)
  have e4: "process_step W s3 s4" unfolding s4_def by (rule hook_alone) (simp add: s3_def pass_calls_def)
  have e5: "process_step W s4 s5" unfolding s5_def by (rule hook_alone) (simp add: s4_def)
  have e6: "process_step W s5 s6" unfolding s6_def by (rule process_step.sched_done) (simp add: s5_def s4_def s3_def s2_def s1_def)
  have e7: "process_step W s6 s7"
    using process_step.offline_sent [of s6 W] by (simp add: s7_def) (simp add: s6_def s5_def s4_def s3_def s2_def s1_def S0)
  have "(process_step W)\<^sup>*\<^sup>* (process_start w) s7"
    using R0 e1 e2 e3 e4 e5 e6 e7 by (meson rtranclp.rtrancl_into_rtrancl)
  then show ?thesis
    by (intro exI [of _ s7]) (simp add: s7_def s6_def s5_def s4_def s3_def s2_def s1_def c1_def S0)
qed

section \<open>What a pass leaves at the broker\<close>

lemma topics_differ [simp]:
  "AvailabilityTopic c \<noteq> StateTopic c" "StateTopic c \<noteq> AvailabilityTopic c"
  "DiscoveryTopic c k key \<noteq> AvailabilityTopic c" "DiscoveryTopic c k key \<noteq> StateTopic c"
  "AvailabilityTopic c \<noteq> DiscoveryTopic c k key" "StateTopic c \<noteq> DiscoveryTopic c k key"
proof -
  have suffix: "last (DiscoveryTopic c k key) = CHR ''g''" "last (AvailabilityTopic c) = CHR ''y''" "last (StateTopic c) = CHR ''e''"
    by (simp_all add: DiscoveryTopic_def AvailabilityTopic_def StateTopic_def)
  show "AvailabilityTopic c \<noteq> StateTopic c" "StateTopic c \<noteq> AvailabilityTopic c"
    "DiscoveryTopic c k key \<noteq> AvailabilityTopic c" "DiscoveryTopic c k key \<noteq> StateTopic c"
    "AvailabilityTopic c \<noteq> DiscoveryTopic c k key" "StateTopic c \<noteq> DiscoveryTopic c k key"
    by (auto dest!: arg_cong [of _ _ last] simp: suffix)
qed

lemma BuildState_topic: "BuildState c t d sp = Inr m \<Longrightarrow> Topic m = StateTopic c"
  by (auto simp: BuildState_def split: sum.splits)

text \<open>A broker in a part of a larger world.\<close>

lemma broker_via:
  assumes "\<And>p s. get (put p s) = p" "broker publish retained"
  shows "broker (\<lambda>t m r. via get put (publish t m r)) (retained \<circ> get)"
  by unfold_locales
    (use broker.publish_ok [OF assms(2)] broker.publish_err [OF assms(2)] in \<open>fastforce simp: assms(1) elim!: viaE\<close>)+

context broker
begin

lemma state_elsewhere:
  assumes "pub svc = publish" "t \<noteq> StateTopic (svc_cfg svc)"
  shows "retained (snd (Service_PublishState svc tel sp w)) t = retained w t"
proof (cases "BuildState (svc_cfg svc) tel (Drift (Telemetry_Time tel) (svc_now svc w)) sp")
  case (Inl e)
  then show ?thesis by (simp add: Service_PublishState_def)
next
  case (Inr m)
  obtain e w' where P: "publish (Topic m) (Payload m) True w = (e, w')" by fastforce
  have "retained w' = retained w \<or> retained w' = (retained w)(Topic m := stored (Payload m))"
    using P publish_ok publish_err by (cases e) blast+
  then show ?thesis
    using Inr P assms BuildState_topic [OF Inr] by (cases e) (auto simp: Service_PublishState_def)
qed

lemma availability_ok:
  assumes "pub svc = publish" "PublishAvailability svc b w = (None, w')"
  shows "retained w' = (retained w)(AvailabilityTopic (svc_cfg svc) \<mapsto> Bytes (if b then ''online'' else ''offline''))"
proof -
  have "publish (AvailabilityTopic (svc_cfg svc)) (Bytes (if b then ''online'' else ''offline'')) True w = (None, w')"
    using assms by (auto simp: PublishAvailability_def Let_def split: prod.splits option.splits if_splits)
  from publish_ok [OF this] show ?thesis by (simp add: stored_def payload_empty_def)
qed

end

text \<open>The retained messages after a pass in which every publish reached the broker.\<close>

definition session_store :: "ha_Config \<Rightarrow> Message list \<Rightarrow> Message option \<Rightarrow> (string \<rightharpoonup> payload) \<Rightarrow> (string \<rightharpoonup> payload)" where
  "session_store c msgs st m =
     (let m = fold store msgs m;
          m = fold store (BuildDiscoveryRemovals c) m;
          m = m(AvailabilityTopic c \<mapsto> Bytes ''online'')
      in case st of None \<Rightarrow> m | Some msg \<Rightarrow> store msg m)"

text \<open>The topics of a session are apart, so each keeps the last message of the pass.\<close>

definition discovery_ok :: "ha_Config \<Rightarrow> Message list \<Rightarrow> bool" where
  "discovery_ok c msgs \<longleftrightarrow> distinct (map Topic msgs) \<and> (\<forall>m \<in> set msgs. \<not> payload_empty (Payload m)) \<and>
     AvailabilityTopic c \<notin> Topic ` set msgs \<and> StateTopic c \<notin> Topic ` set msgs \<and>
     DiscoveryTopic c Switch ''optimal_income'' \<notin> Topic ` set msgs"

lemma discovery_msgs:
  obtains msgs where "BuildDiscovery c = Inr msgs" "discovery_ok c msgs"
proof -
  obtain msgs where M: "BuildDiscovery c = Inr msgs"
    "map Topic msgs = map (\<lambda>e. DiscoveryTopic c (Component e) (Entity_Key e)) (announced c)"
    "\<forall>m \<in> set msgs. \<not> payload_empty (Payload m)" by (rule BuildDiscovery_topics)
  have T: "Topic ` set msgs = (\<lambda>e. DiscoveryTopic c (Component e) (Entity_Key e)) ` set (announced c)"
    using arg_cong [OF M(2), of set] by simp
  have plain: "CHR ''/'' \<notin> set (Component e)" "Component e \<noteq> Switch" if "e \<in> set (announced c)" for e
    using that components_plain(1) no_switch by (auto simp: announced_def list_all_iff)
  have "distinct (map Topic msgs)"
    unfolding M(2) distinct_map using entity_keys_distinct plain(1)
    by (auto simp: announced_def distinct_map inj_on_def DiscoveryTopic_inject)
  moreover have "DiscoveryTopic c Switch ''optimal_income'' \<notin> Topic ` set msgs"
    unfolding T using plain components_plain(2) by (auto simp: DiscoveryTopic_inject) metis
  moreover have "AvailabilityTopic c \<notin> Topic ` set msgs" "StateTopic c \<notin> Topic ` set msgs" unfolding T by auto
  ultimately show ?thesis using M(1,3) by (intro that) (simp_all add: discovery_ok_def)
qed

lemma BuildState_payload:
  "BuildState c t d sp = Inr m \<Longrightarrow> Topic m = StateTopic c \<and> \<not> payload_empty (Payload m)"
  by (auto simp: BuildState_def json_Marshal_def payload_empty_def split: sum.splits if_splits)

lemma session_store_lookup:
  assumes "discovery_ok c msgs" "\<And>m. st = Some m \<Longrightarrow> Topic m = StateTopic c \<and> \<not> payload_empty (Payload m)"
  shows "m \<in> set msgs \<Longrightarrow> session_store c msgs st s (Topic m) = Some (Payload m)"
    "m \<in> set (BuildDiscoveryRemovals c) \<Longrightarrow> session_store c msgs st s (Topic m) = None"
    "session_store c msgs st s (AvailabilityTopic c) = Some (Bytes ''online'')"
    "st = Some m \<Longrightarrow> session_store c msgs st s (StateTopic c) = Some (Payload m)"
    "t \<notin> Topic ` set msgs \<Longrightarrow> t \<notin> Topic ` set (BuildDiscoveryRemovals c) \<Longrightarrow>
      t \<notin> {AvailabilityTopic c, StateTopic c} \<Longrightarrow> session_store c msgs st s t = s t"
    "st = None \<Longrightarrow> session_store c msgs st s (StateTopic c) = s (StateTopic c)"
proof -
  note D = assms(1) [unfolded discovery_ok_def]
  have D': "Topic m \<noteq> AvailabilityTopic c" "Topic m \<noteq> StateTopic c" "Topic m \<noteq> DiscoveryTopic c Switch ''optimal_income''"
    if "m \<in> set msgs" for m using D that by force+
  note defs = session_store_def BuildDiscoveryRemovals_def store_def stored_def payload_empty_def fold_store_notin Let_def
  show "m \<in> set msgs \<Longrightarrow> session_store c msgs st s (Topic m) = Some (Payload m)"
    using D D' [of m] assms(2) fold_store_in [of msgs m s]
    by (cases st) (auto simp: session_store_def BuildDiscoveryRemovals_def store_def stored_def Let_def)
  show "m \<in> set (BuildDiscoveryRemovals c) \<Longrightarrow> session_store c msgs st s (Topic m) = None"
    using assms(2) by (cases st) (auto simp: defs)
  show "session_store c msgs st s (AvailabilityTopic c) = Some (Bytes ''online'')"
    using assms(2) by (cases st) (auto simp: defs)
  show "st = Some m \<Longrightarrow> session_store c msgs st s (StateTopic c) = Some (Payload m)"
    using assms(2) [of m] by (simp add: session_store_def store_def stored_def)
  show "t \<notin> Topic ` set msgs \<Longrightarrow> t \<notin> Topic ` set (BuildDiscoveryRemovals c) \<Longrightarrow>
      t \<notin> {AvailabilityTopic c, StateTopic c} \<Longrightarrow> session_store c msgs st s t = s t"
    using assms(2) by (cases st) (auto simp: defs)
  show "st = None \<Longrightarrow> session_store c msgs st s (StateTopic c) = s (StateTopic c)"
    using D by (simp add: defs)
qed

lemma session_store_idem:
  assumes "discovery_ok c msgs" "\<And>m. st = Some m \<Longrightarrow> Topic m = StateTopic c \<and> \<not> payload_empty (Payload m)"
  shows "session_store c msgs st (session_store c msgs st s) = session_store c msgs st s"
proof
  fix t
  note L = session_store_lookup [OF assms]
  consider (disc) m where "m \<in> set msgs" "t = Topic m" | (rem) m where "m \<in> set (BuildDiscoveryRemovals c)" "t = Topic m"
    | (avail) "t = AvailabilityTopic c" | (state) "t = StateTopic c"
    | (other) "t \<notin> Topic ` set msgs" "t \<notin> Topic ` set (BuildDiscoveryRemovals c)" "t \<notin> {AvailabilityTopic c, StateTopic c}"
    by auto
  then show "session_store c msgs st (session_store c msgs st s) t = session_store c msgs st s t"
  proof cases
    case state
    then show ?thesis using L(4,6) by (cases st) simp_all
  qed (simp_all add: L)
qed

context broker
begin

lemma run_retained:
  assumes "pub svc = publish" "\<And>t p w. fst (publish t p True w) = None" "\<And>w. rp_svc r w = Some svc"
    and "\<And>w. rp_lastState r w = (tel, sp, cached)" "\<And>w. svc_now svc w = moment"
    and "\<And>f t w. rp_subscribe r = Some f \<Longrightarrow> retained (snd (f t w)) = retained w"
    and "BuildDiscovery (svc_cfg svc) = Inr msgs"
  shows "retained (republisher_run r w) = session_store (svc_cfg svc) msgs
    (if cached then (case BuildState (svc_cfg svc) tel (Drift (Telemetry_Time tel) moment) sp of Inl _ \<Rightarrow> None | Inr m \<Rightarrow> Some m) else None)
    (retained w)"
proof -
  let ?c = "svc_cfg svc"
  have ok: "\<exists>w'. publish t p True w = (None, w')" for t p w
    using assms(2) [of t p w] by (cases "publish t p True w") simp
  have loop: "\<exists>w'. publish_loop what publish ms w = (None, w')" for what ms w
  proof (induction ms arbitrary: w)
    case (Cons m ms)
    then show ?case using ok [of "Topic m" "Payload m" w] by auto
  qed simp
  obtain w1 where W1: "PublishDiscovery svc w = (None, w1)" "retained w1 = fold store msgs (retained w)"
    using loop [of "''publish discovery ''" msgs w] publish_loop_ok by (auto simp: PublishDiscovery_def assms(1,7))
  obtain w2 where W2: "PublishDiscoveryRemovals svc w1 = (None, w2)" "retained w2 = fold store (BuildDiscoveryRemovals ?c) (retained w1)"
    using loop [of "''publish discovery removal ''" "BuildDiscoveryRemovals ?c" w1] publish_loop_ok
    by (auto simp: PublishDiscoveryRemovals_def assms(1))
  obtain w3 where W3: "PublishAvailability svc True w2 = (None, w3)"
    using ok [of "AvailabilityTopic ?c" "Bytes ''online''" w2] by (auto simp: PublishAvailability_def assms(1))
  note A = availability_ok [OF assms(1) W3]
  let ?w4 = "if cached then snd (Service_PublishState svc tel sp w3) else w3"
  have "retained (republisher_run r w) = retained ?w4"
    using assms(3-6) W1(1) W2(1) W3 by (auto simp: republisher_run_def split: option.splits)
  moreover have "retained (snd (Service_PublishState svc tel sp w3)) =
      (case BuildState ?c tel (Drift (Telemetry_Time tel) moment) sp of Inl _ \<Rightarrow> retained w3 | Inr m \<Rightarrow> store m (retained w3))"
  proof (cases "BuildState ?c tel (Drift (Telemetry_Time tel) moment) sp")
    case (Inr m)
    from ok [of "Topic m" "Payload m" w3] obtain w4 where "publish (Topic m) (Payload m) True w3 = (None, w4)" by blast
    with publish_ok [OF this] Inr show ?thesis by (simp add: Service_PublishState_def assms(1,5) store_def)
  qed (simp add: Service_PublishState_def assms(1,5))
  ultimately show ?thesis
    using A W1(2) W2(2) by (simp add: session_store_def Let_def split: sum.splits)
qed

end

section \<open>The manager's own threads\<close>

text \<open>The wiring of the manager over the mock sidecar and the recording broker.\<close>

definition mock_cm :: "mock_net ConnectionManager" where
  "mock_cm = \<lparr>cm_Publish = (\<lambda>t p _ r. mock_broker t p r), cm_Subscribe = (\<lambda>_ _ n. (None, n)), cm_Disconnect = (\<lambda>n. (None, n))\<rparr>"

definition demo_wiring :: "mock_net world wiring" where
  "demo_wiring = serve_wiring (demo_env False) mock_cm (\<lambda>w. (None, w))"

abbreviation net_store :: "mock_net world \<Rightarrow> (string \<rightharpoonup> payload)" where
  "net_store \<equiv> (recorded_store \<circ> snd) \<circ> net"

lemma demo_wiring_sel [simp]:
  "wire_svc demo_wiring = serve_svc (demo_env False)" "wire_lastState demo_wiring = LastState"
  "wire_subscribe demo_wiring = Some (\<lambda>topic. on_net (Client_Subscribe mock_cm topic))"
  "wire_onMsg demo_wiring = Some (ApplyCommand (serve_scheduler (demo_env False)))"
  "wire_disconnect demo_wiring = on_net (cm_Disconnect mock_cm)" "wire_stopHealth demo_wiring = (\<lambda>w. (None, w))"
  by (simp_all add: demo_wiring_def serve_wiring_def demo_env_def)

lemma demo_pub: "pub (serve_svc (demo_env b)) = (\<lambda>t p r. via net (\<lambda>n w. w\<lparr>net := n\<rparr>) (mock_broker t p r))"
  by (simp add: serve_svc_def Service_New_def serve_pub_def demo_env_def on_net_via)

interpretation demo_session: broker "pub (serve_svc (demo_env b))" net_store for b
proof -
  have "broker (\<lambda>t p r. via snd put_snd (Recording_Publish t p r)) (recorded_store \<circ> snd)"
    by (rule broker_via [OF _ recorder.broker_axioms]) simp
  then have "broker mock_broker (recorded_store \<circ> snd)" by (simp add: mock_broker_def [abs_def])
  then show "broker (pub (serve_svc (demo_env b))) net_store" unfolding demo_pub by (intro broker_via) simp_all
qed

lemma demo_up: "fst (pub (serve_svc (demo_env b)) t p r w) = None"
  by (simp add: demo_pub via_def mock_broker_def Recording_Publish_def Let_def)

lemma demo_quiet [simp]:
  "net_store (snd (on_net (Client_Subscribe mock_cm topic) w)) = net_store w"
  "net_store (snd (on_net (cm_Disconnect mock_cm) w)) = net_store w"
  by (simp_all add: on_net_def Client_Subscribe_def mock_cm_def)

lemma demo_exiting:
  "\<exists>s. (process_step demo_wiring)\<^sup>*\<^sup>* (process_start (demo_start Map.empty)) s \<and> stage s = Exiting \<and> \<not> expired s"
proof -
  obtain s where R: "(process_step demo_wiring)\<^sup>*\<^sup>* (process_start (demo_start Map.empty)) s" "stage s = Serving" "\<not> expired s"
    using reach_serving [of demo_wiring] by blast
  from process_step.exits [OF R(2), of demo_wiring CtxDone] R(1)
  have "(process_step demo_wiring)\<^sup>*\<^sup>* (process_start (demo_start Map.empty)) (s\<lparr>stage := Exiting, exit_err := None\<rparr>)"
    by (simp add: rtranclp.rtrancl_into_rtrancl)
  with R(3) show ?thesis by (intro exI [of _ "s\<lparr>stage := Exiting, exit_err := None\<rparr>"]) simp
qed

section \<open>Properties\<close>



text \<open>
  The shutdown never gets stuck: from every state of a process that is exiting, whatever hooks are
  in flight, the threads can run on to the end of the teardown without a timeout, and the exit error
  is the one of the branch that was taken.
\<close>

theorem teardown_completes:
  assumes "(process_step W)\<^sup>*\<^sup>* (process_start w) s"
    and "stage s \<in> {Exiting, SchedDone, OfflineSent, Closing, Drained, Disconnected}"
  shows "\<exists>s'. (process_step W)\<^sup>*\<^sup>* s s' \<and> stage s' = Stopped \<and> expired s' = expired s \<and> exit_err s' = exit_err s"
proof -
  have ok: "process_ok s" by (rule process_reach_ok [OF assms(1)])
  have "finishes W s"
    using assms(2) ok finishes_late [of s W] by auto
  then show ?thesis by (simp add: finishes_def)
qed

theorem teardown_completes_witness:
  "\<exists>s s'. (process_step demo_wiring)\<^sup>*\<^sup>* (process_start (demo_start Map.empty)) s \<and> stage s = Exiting \<and>
     (process_step demo_wiring)\<^sup>*\<^sup>* s s' \<and> stage s' = Stopped"
proof -
  obtain s where R: "(process_step demo_wiring)\<^sup>*\<^sup>* (process_start (demo_start Map.empty)) s" "stage s = Exiting"
    using demo_exiting by blast
  from teardown_completes [OF R(1)] R show ?thesis by blast
qed

text \<open>With no hook in flight the teardown goes on alone after its offline, and ends the process.\<close>

lemma teardown_alone:
  assumes "(process_step W)\<^sup>*\<^sup>* (process_start w) s" "stage s = OfflineSent" "hooks s = []"
  shows "\<exists>s'. (process_step W)\<^sup>*\<^sup>* (process_start w) s' \<and> stage s' = Stopped \<and> expired s' = expired s \<and>
    env s' = snd (wire_stopHealth W (snd (wire_disconnect W (env s))))"
proof -
  define s1 where "s1 = s\<lparr>stage := Closing, client := drainHook_close (client s)\<rparr>"
  define s2 where "s2 = s1\<lparr>stage := Drained\<rparr>"
  define s3 where "s3 = s2\<lparr>stage := Disconnected, env := snd (wire_disconnect W (env s2))\<rparr>"
  define s4 where "s4 = s3\<lparr>stage := Stopped, env := snd (wire_stopHealth W (env s3))\<rparr>"
  have "process_step W s s1" unfolding s1_def by (rule process_step.closes [OF assms(2)])
  with assms(1) have R1: "(process_step W)\<^sup>*\<^sup>* (process_start w) s1" by (rule rtranclp.rtrancl_into_rtrancl)
  have C: "hooks s1 = []" "stage s1 = Closing" using assms(3) by (simp_all add: s1_def)
  then have "hook_drained (client s1)" using process_reach_ok [OF R1] by (simp add: process_ok_def hook_drained_def)
  from process_step.drained [OF C(2) this] have e2: "process_step W s1 s2" by (simp add: s2_def)
  have e3: "process_step W s2 s3" unfolding s3_def by (rule process_step.disconnects) (simp add: s2_def)
  have e4: "process_step W s3 s4" unfolding s4_def by (rule process_step.stops) (simp add: s3_def)
  have "(process_step W)\<^sup>*\<^sup>* (process_start w) s4" using R1 e2 e3 e4 by (meson rtranclp.rtrancl_into_rtrancl)
  then show ?thesis by (intro exI [of _ s4]) (simp add: s4_def s3_def s2_def s1_def)
qed

text \<open>
  C19: the retained availability can end up wrong: on every broker that works, there is a run in which
  the process shuts down cleanly, the teardown publishes offline, and the broker is left with online.
  A connection-up hook in flight publishes online after the teardown's offline, because the hooks are
  closed and drained only by the disconnect that follows it, and the clean disconnect then suppresses
  the Will.
\<close>

theorem offline_overtaken:
  assumes "broker (pub (wire_svc W)) retained" "\<And>t p w. fst (pub (wire_svc W) t p True w) = None"
    and "\<And>w. retained (snd (wire_disconnect W w)) = retained w" "\<And>w. retained (snd (wire_stopHealth W w)) = retained w"
    and "\<And>f t w. wire_subscribe W = Some f \<Longrightarrow> retained (snd (f t w)) = retained w"
  shows "\<exists>s. (process_step W)\<^sup>*\<^sup>* (process_start w) s \<and> stage s = Stopped \<and> \<not> expired s \<and>
    retained (env s) (AvailabilityTopic (svc_cfg (wire_svc W))) = Some (Bytes ''online'')"
proof -
  let ?svc = "wire_svc W" and ?A = "AvailabilityTopic (svc_cfg (wire_svc W))"
  obtain s7 where R7: "(process_step W)\<^sup>*\<^sup>* (process_start w) s7" and S7: "stage s7 = OfflineSent"
    "hooks s7 = [Calls ?svc [COnline, CState, CSubscribe]]" "\<not> expired s7"
    using hook_behind_offline [of W w] by blast
  define s8 where "s8 = (call_step W ?svc COnline s7)\<lparr>hooks := [Calls ?svc [CState, CSubscribe]]\<rparr>"
  define s9 where "s9 = (call_step W ?svc CState s8)\<lparr>hooks := [Calls ?svc [CSubscribe]]\<rparr>"
  define s10 where "s10 = (call_step W ?svc CSubscribe s9)\<lparr>hooks := [Calls ?svc []]\<rparr>"
  define s11 where "s11 = s10\<lparr>hooks := [], client := hook_Done (client s10)\<rparr>"
  have e8: "process_step W s7 s8" unfolding s8_def by (rule hook_alone [OF S7(2)])
  have e9: "process_step W s8 s9" unfolding s9_def by (rule hook_alone) (simp add: s8_def)
  have e10: "process_step W s9 s10" unfolding s10_def by (rule hook_alone) (simp add: s9_def)
  have e11: "process_step W s10 s11"
    using process_step.hook_returns [of s10 "[]" "Calls ?svc []" "[]" W s10] by (simp add: s11_def pass_step_def) (simp add: s10_def)
  have R11: "(process_step W)\<^sup>*\<^sup>* (process_start w) s11" using R7 e8 e9 e10 e11 by (meson rtranclp.rtrancl_into_rtrancl)
  have S11: "stage s11 = OfflineSent" "hooks s11 = []" by (simp_all add: s11_def s10_def s9_def s8_def S7(1))
  from teardown_alone [OF R11 S11] obtain s' where E: "(process_step W)\<^sup>*\<^sup>* (process_start w) s'" "stage s' = Stopped" "expired s' = expired s11"
    "env s' = snd (wire_stopHealth W (snd (wire_disconnect W (env s11))))"
    by (elim exE conjE)
  have "fst (PublishAvailability ?svc True (env s7)) = None"
    using assms(2) [of ?A "Bytes ''online''" "env s7"] by (auto simp: PublishAvailability_def split: prod.splits option.splits)
  then have "retained (env s8) ?A = Some (Bytes ''online'')"
    using broker.availability_ok [OF assms(1), of ?svc True "env s7" "env s8"]
    by (cases "PublishAvailability ?svc True (env s7)") (simp add: s8_def call_step_def)
  then have "retained (env s9) ?A = Some (Bytes ''online'')"
    using broker.state_elsewhere [OF assms(1), of ?svc ?A]
    by (simp add: s9_def call_step_def split: prod.splits)
  then have "retained (env s10) ?A = Some (Bytes ''online'')"
    using assms(5) by (auto simp: s10_def call_step_def split: option.splits prod.splits) (metis snd_conv)
  then have "retained (env s') ?A = Some (Bytes ''online'')" using assms(3,4) E(4) by (simp add: s11_def)
  moreover have "\<not> expired s'" using S7(3) E(3) by (simp add: s11_def s10_def s9_def s8_def)
  ultimately show ?thesis using E(1,2) by blast
qed

theorem offline_overtaken_witness:
  "\<exists>s. (process_step demo_wiring)\<^sup>*\<^sup>* (process_start (demo_start Map.empty)) s \<and> stage s = Stopped \<and> \<not> expired s \<and>
     net_store (env s) ''solis/1/availability'' = Some (Bytes ''online'')"
proof -
  have "AvailabilityTopic (svc_cfg (wire_svc demo_wiring)) = ''solis/1/availability''"
    by (simp add: serve_svc_def Service_New_def demo_env_def demo_ha_def AvailabilityTopic_def BaseTopic_def)
  moreover have "\<exists>s. (process_step demo_wiring)\<^sup>*\<^sup>* (process_start (demo_start Map.empty)) s \<and> stage s = Stopped \<and> \<not> expired s \<and>
      net_store (env s) (AvailabilityTopic (svc_cfg (wire_svc demo_wiring))) = Some (Bytes ''online'')"
    by (rule offline_overtaken) (use demo_session.broker_axioms demo_up in \<open>auto simp del: comp_apply\<close>)
  ultimately show ?thesis by simp
qed

text \<open>
  C20: a republish pass over a broker that works restores the session: every announced entity has its
  discovery document, the retired topics are cleared, the availability is online, the last state is on
  the state topic if there is one, no other topic is touched, and a second pass changes nothing.
\<close>

theorem republish_announces:
  assumes "broker (pub svc) retained" "\<And>t p w. fst (pub svc t p True w) = None"
    and "\<And>w. rp_svc r w = Some svc" "\<And>w. rp_lastState r w = (tel, sp, cached)" "\<And>w. svc_now svc w = moment"
    and "\<And>f t w. rp_subscribe r = Some f \<Longrightarrow> retained (snd (f t w)) = retained w"
  shows "\<exists>msgs. BuildDiscovery (svc_cfg svc) = Inr msgs \<and>
    (\<forall>m \<in> set msgs. retained (republisher_run r w) (Topic m) = Some (Payload m)) \<and>
    (\<forall>m \<in> set (BuildDiscoveryRemovals (svc_cfg svc)). retained (republisher_run r w) (Topic m) = None) \<and>
    retained (republisher_run r w) (AvailabilityTopic (svc_cfg svc)) = Some (Bytes ''online'') \<and>
    (\<forall>m. cached \<and> BuildState (svc_cfg svc) tel (Drift (Telemetry_Time tel) moment) sp = Inr m \<longrightarrow>
       retained (republisher_run r w) (StateTopic (svc_cfg svc)) = Some (Payload m)) \<and>
    (\<forall>t. t \<notin> Topic ` set msgs \<union> Topic ` set (BuildDiscoveryRemovals (svc_cfg svc)) \<union>
       {AvailabilityTopic (svc_cfg svc), StateTopic (svc_cfg svc)} \<longrightarrow> retained (republisher_run r w) t = retained w t) \<and>
    retained (republisher_run r (republisher_run r w)) = retained (republisher_run r w)"
proof -
  let ?c = "svc_cfg svc"
  obtain msgs where D: "BuildDiscovery ?c = Inr msgs" and D': "discovery_ok ?c msgs" by (rule discovery_msgs)
  define st where "st = (if cached then (case BuildState ?c tel (Drift (Telemetry_Time tel) moment) sp of Inl _ \<Rightarrow> None | Inr m \<Rightarrow> Some m) else None)"
  have st: "Topic m = StateTopic ?c \<and> \<not> payload_empty (Payload m)" if "st = Some m" for m
    using that BuildState_payload by (auto simp: st_def split: if_splits sum.splits)
  have R: "retained (republisher_run r w) = session_store ?c msgs st (retained w)" for w
    unfolding st_def using assms(2-6) D by (intro broker.run_retained [OF assms(1) refl]) auto
  note S = session_store_lookup [OF D' st]
  have "session_store ?c msgs st (session_store ?c msgs st (retained w)) = session_store ?c msgs st (retained w)"
    by (rule session_store_idem [OF D' st])
  with S D show ?thesis unfolding R by (intro exI [of _ msgs]) (auto simp: st_def)
qed

text \<open>A reconnect after the first poll: the manager's cache is a decoded reading.\<close>

theorem republish_announces_witness:
  "recorded_store (snd (net (republisher_run
     \<lparr>rp_svc = (\<lambda>_. Some (serve_svc (demo_env False))), rp_lastState = (\<lambda>_. (telemetry_of UTC (\<lambda>_. 0), ha_Setpoints_zero, True)),
      rp_subscribe = None, commandTopic = ''solis/1/+/set''\<rparr> (demo_start Map.empty)))) ''solis/1/availability'' = Some (Bytes ''online'')"
proof -
  let ?svc = "serve_svc (demo_env False)"
  let ?r = "\<lparr>rp_svc = (\<lambda>_. Some ?svc), rp_lastState = (\<lambda>_. (telemetry_of UTC (\<lambda>_. 0), ha_Setpoints_zero, True)),
      rp_subscribe = None, commandTopic = ''solis/1/+/set''\<rparr>"
  have "AvailabilityTopic (svc_cfg ?svc) = ''solis/1/availability''"
    by (simp add: serve_svc_def Service_New_def demo_env_def demo_ha_def AvailabilityTopic_def BaseTopic_def)
  moreover have "svc_now ?svc w = Time_zero" for w by (simp add: serve_svc_def Service_New_def serve_now_def demo_env_def)
  ultimately show ?thesis
    using republish_announces [OF demo_session.broker_axioms [of False] demo_up [of False], where r = ?r
        and tel = "telemetry_of UTC (\<lambda>_. 0)" and sp = ha_Setpoints_zero and cached = True and moment = Time_zero and w = "demo_start Map.empty"]
    by auto
qed

text \<open>
  The command subscription can be in force while no handler is installed: a connection-up hook that
  runs between the publisher being stored and the handler being set subscribes, and what the broker
  delivers then changes nothing.
\<close>

theorem subscribed_without_handler:
  assumes "wire_subscribe W = Some f" "\<And>t w. fst (f t w) = None"
  shows "\<exists>s. (process_step W)\<^sup>*\<^sup>* (process_start w) s \<and> stage s = Stored \<and> subscribed s \<and>
    (\<forall>topic payload. fireOnMessage (client s) topic payload (env s) = env s)"
proof -
  let ?svc = "wire_svc W"
  define s1 where "s1 = (process_start w)\<lparr>client := (client (process_start w))\<lparr>hookWG := 1\<rparr>, hooks := [Entered]\<rparr>"
  define s2 where "s2 = s1\<lparr>stage := Connected\<rparr>"
  define s3 where "s3 = s2\<lparr>svcPtr := Some ?svc, stage := Stored\<rparr>"
  define s4 where "s4 = s3\<lparr>hooks := [Calls ?svc pass_calls]\<rparr>"
  define s5 where "s5 = (call_step W ?svc CDiscovery s4)\<lparr>hooks := [Calls ?svc [CRemovals, COnline, CState, CSubscribe]]\<rparr>"
  define s6 where "s6 = (call_step W ?svc CRemovals s5)\<lparr>hooks := [Calls ?svc [COnline, CState, CSubscribe]]\<rparr>"
  define s7 where "s7 = (call_step W ?svc COnline s6)\<lparr>hooks := [Calls ?svc [CState, CSubscribe]]\<rparr>"
  define s8 where "s8 = (call_step W ?svc CState s7)\<lparr>hooks := [Calls ?svc [CSubscribe]]\<rparr>"
  define s9 where "s9 = (call_step W ?svc CSubscribe s8)\<lparr>hooks := [Calls ?svc []]\<rparr>"
  have e1: "process_step W (process_start w) s1"
    using process_step.connection_up [of "process_start w" "(client (process_start w))\<lparr>hookWG := 1\<rparr>" "Some ()" W]
    by (simp add: s1_def process_start_def fireOnUp_def)
  have e2: "process_step W s1 s2" unfolding s2_def by (rule process_step.connected) (simp add: s1_def process_start_def)
  have e3: "process_step W s2 s3" unfolding s3_def by (rule process_step.stored) (simp add: s2_def)
  have e4: "process_step W s3 s4" unfolding s4_def by (rule hook_alone_enters) (simp_all add: s3_def s2_def s1_def)
  have e5: "process_step W s4 s5" unfolding s5_def by (rule hook_alone) (simp add: s4_def pass_calls_def)
  have e6: "process_step W s5 s6" unfolding s6_def by (rule hook_alone) (simp add: s5_def)
  have e7: "process_step W s6 s7" unfolding s7_def by (rule hook_alone) (simp add: s6_def)
  have e8: "process_step W s7 s8" unfolding s8_def by (rule hook_alone) (simp add: s7_def)
  have e9: "process_step W s8 s9" unfolding s9_def by (rule hook_alone) (simp add: s8_def)
  have "(process_step W)\<^sup>*\<^sup>* (process_start w) s9"
    using e1 e2 e3 e4 e5 e6 e7 e8 e9 by (meson rtranclp.rtrancl_into_rtrancl rtranclp.rtrancl_refl)
  moreover have "onMsg (client s9) = None" "stage s9 = Stored"
    by (simp_all add: s9_def s8_def s7_def s6_def s5_def s4_def s3_def s2_def s1_def process_start_def)
  moreover have "subscribed s9"
    using assms(1) assms(2) [of "wire_commandTopic W" "env s8"]
    by (cases "f (wire_commandTopic W) (env s8)") (simp add: s9_def call_step_def)
  ultimately show ?thesis by (intro exI [of _ s9]) (simp add: fireOnMessage_def)
qed

text \<open>
  The teardown's first step drains the scheduler, not the commands: after it, and after the offline, a
  message from the broker is still applied to the inverter.
\<close>

theorem command_after_drain:
  assumes "wire_onMsg W = Some f"
  shows "\<exists>s. (process_step W)\<^sup>*\<^sup>* (process_start w) s \<and> stage s = OfflineSent \<and>
    (\<forall>topic payload. process_step W s (s\<lparr>env := f topic payload (env s)\<rparr>))"
proof -
  obtain s where S: "(process_step W)\<^sup>*\<^sup>* (process_start w) s" "stage s = OfflineSent" "onMsg (client s) = Some f"
    using hook_behind_offline [of W w] assms by auto
  then have "process_step W s (s\<lparr>env := f topic payload (env s)\<rparr>)" for topic payload
    using process_step.message [of s W topic payload] by (simp add: fireOnMessage_def)
  with S show ?thesis by blast
qed

end
