(* ===== verification/GoParse.thy ===== *)
theory GoParse
  imports GoDuration GoFloat
begin

text \<open>
  The parts of Go's standard library that read the environment: \<open>strings.ToLower\<close>, \<open>strconv.Atoi\<close>,
  \<open>strconv.ParseBool\<close> and \<open>time.ParseDuration\<close>. An \<open>int\<close> is 64 bits wide.
\<close>

section \<open>strings.ToLower\<close>

text \<open>
  As far as a comparison with an ASCII literal can see: ASCII letters, and the two code points beyond
  ASCII whose lower case is an ASCII letter, U+0130 (dotted I) and U+212A (Kelvin sign).
\<close>

definition lower_char :: "char \<Rightarrow> char" where
  "lower_char c = (let n = of_char c :: nat in if 65 \<le> n \<and> n \<le> 90 then char_of (n + 32) else c)"

fun ToLower :: "string \<Rightarrow> string" where
  "ToLower [] = []"
| "ToLower (c # cs) =
     (case strip_prefix (map char_of [196, 176 :: nat]) (c # cs) of
        Some rest \<Rightarrow> CHR ''i'' # ToLower (drop 1 cs)
      | None \<Rightarrow>
          (case strip_prefix (map char_of [226, 132, 170 :: nat]) (c # cs) of
             Some rest \<Rightarrow> CHR ''k'' # ToLower (drop 2 cs)
           | None \<Rightarrow> lower_char c # ToLower cs))"

section \<open>strconv\<close>

text \<open>\<open>strconv.Atoi\<close>: a sign and decimal digits, within \<open>int64\<close>.\<close>

definition Atoi :: "string \<Rightarrow> int result" where
  "Atoi s =
     (let (neg, ds) = (case s of [] \<Rightarrow> (False, []) | c # cs \<Rightarrow>
            if c = CHR ''-'' then (True, cs) else if c = CHR ''+'' then (False, cs) else (False, s))
      in if ds = [] then Inl (Errorf ''strconv.Atoi: invalid syntax'')
         else
           (case parse_digits 0 ds of
              None \<Rightarrow> Inl (Errorf ''strconv.Atoi: invalid syntax'')
            | Some n \<Rightarrow>
                (let i = (if neg then - int n else int n) in
                 if i < - (2 ^ 63) \<or> i \<ge> 2 ^ 63 then Inl (Errorf ''strconv.Atoi: value out of range'')
                 else Inr i)))"

definition ParseBool :: "string \<Rightarrow> bool result" where
  "ParseBool s =
     (if s \<in> {''1'', ''t'', ''T'', ''true'', ''TRUE'', ''True''} then Inr True
      else if s \<in> {''0'', ''f'', ''F'', ''false'', ''FALSE'', ''False''} then Inr False
      else Inl (Errorf ''strconv.ParseBool: invalid syntax''))"

section \<open>time.ParseDuration\<close>

text \<open>\<open>leadingInt\<close>; \<open>None\<close> is its overflow error. The digits are accumulated in a \<open>uint64\<close>.\<close>

fun leadingInt :: "int \<Rightarrow> string \<Rightarrow> (int \<times> string) option" where
  "leadingInt x [] = Some (x, [])"
| "leadingInt x (c # cs) =
     (case digit_val c of
        None \<Rightarrow> Some (x, c # cs)
      | Some d \<Rightarrow>
          if x > 2 ^ 63 div 10 then None
          else
            (let x = x * 10 + int d in
             if x > 2 ^ 63 then None else leadingInt x cs))"

text \<open>\<open>leadingFraction\<close> with its value, scale and overflow flag.\<close>

fun leadingFraction :: "int \<Rightarrow> float64 \<Rightarrow> bool \<Rightarrow> string \<Rightarrow> int \<times> float64 \<times> string" where
  "leadingFraction x scale overflow [] = (x, scale, [])"
| "leadingFraction x scale overflow (c # cs) =
     (case digit_val c of
        None \<Rightarrow> (x, scale, c # cs)
      | Some d \<Rightarrow>
          if overflow then leadingFraction x scale overflow cs
          else if x > (2 ^ 63 - 1) div 10 then leadingFraction x scale True cs
          else
            (let y = x * 10 + int d in
             if y > 2 ^ 63 then leadingFraction x scale True cs
             else leadingFraction y (fmul scale (Fin False 10)) overflow cs))"

definition unitMap :: "string \<Rightarrow> int option" where
  "unitMap u =
     map_of [(''ns'', Nanosecond), (''us'', Microsecond),
             (map char_of [194, 181 :: nat] @ ''s'', Microsecond), (map char_of [206, 188 :: nat] @ ''s'', Microsecond),
             (''ms'', Millisecond), (''s'', Second), (''m'', 60 * Second), (''h'', 3600 * Second)] u"

definition number_char :: "char \<Rightarrow> bool" where
  "number_char c \<longleftrightarrow> c = CHR ''.'' \<or> digit_val c \<noteq> None"

text \<open>\<open>uint64(x)\<close> of a float that is in range, which is all that gets here.\<close>

definition uint64_of_float :: "float64 \<Rightarrow> int" where
  "uint64_of_float x = \<lfloor>fvalue x\<rfloor>"

definition invalid_duration :: "string \<Rightarrow> go_error" where
  "invalid_duration orig = Errorf (''time: invalid duration '' @ fmt_q orig)"

text \<open>One turn of the loop: what it adds, in nanoseconds, and the rest.\<close>

definition duration_part :: "string \<Rightarrow> string \<Rightarrow> (int \<times> string) result" where
  "duration_part orig s =
     (if \<not> number_char (hd s) then Inl (invalid_duration orig)
      else
        (case leadingInt 0 s of
           None \<Rightarrow> Inl (invalid_duration orig)
         | Some (v, s1) \<Rightarrow>
             (let pre = (length s1 \<noteq> length s);
                  (f, scale, s2, post) =
                    (if s1 \<noteq> [] \<and> hd s1 = CHR ''.'' then
                       (let (f, scale, s2) = leadingFraction 0 (Fin False 1) False (tl s1)
                        in (f, scale, s2, length s2 \<noteq> length (tl s1)))
                     else (0, Fin False 1, s1, False));
                  u = takeWhile (\<lambda>c. \<not> number_char c) s2;
                  rest = dropWhile (\<lambda>c. \<not> number_char c) s2
              in if \<not> pre \<and> \<not> post then Inl (invalid_duration orig)
                 else if u = [] then Inl (Errorf (''time: missing unit in duration '' @ fmt_q orig))
                 else
                   (case unitMap u of
                      None \<Rightarrow> Inl (Errorf (''time: unknown unit '' @ fmt_q u @ '' in duration '' @ fmt_q orig))
                    | Some unit \<Rightarrow>
                        if v > 2 ^ 63 div unit then Inl (invalid_duration orig)
                        else
                          (let v = v * unit in
                           if f > 0 then
                             (let v = v + uint64_of_float (fmul (float64_of_int f) (fdiv (float64_of_int unit) scale)) in
                              if v > 2 ^ 63 then Inl (invalid_duration orig) else Inr (v, rest))
                           else Inr (v, rest))))))"

text \<open>The loop; the sum is a \<open>uint64\<close>.\<close>

lemma leadingInt_shorter: "leadingInt x s = Some (v, t) \<Longrightarrow> length t \<le> length s"
  by (induction s arbitrary: x) (auto simp: Let_def split: option.splits if_splits intro: le_SucI)

lemma leadingFraction_shorter: "leadingFraction x sc ov s = (v, sc', t) \<Longrightarrow> length t \<le> length s"
  by (induction s arbitrary: x sc ov) (auto simp: Let_def split: option.splits if_splits intro: le_SucI)

lemma duration_part_shorter:
  assumes "duration_part orig s = Inr (v, rest)"
  shows "length rest < length s"
proof -
  obtain v0 s1 where L: "leadingInt 0 s = Some (v0, s1)"
    using assms by (auto simp: duration_part_def split: if_splits option.splits)
  obtain f sc s2 where F: "leadingFraction 0 (Fin False 1) False (tl s1) = (f, sc, s2)" by (metis prod_cases3)
  define t where "t = (if s1 \<noteq> [] \<and> hd s1 = CHR ''.'' then s2 else s1)"
  have "rest = dropWhile (\<lambda>c. \<not> number_char c) t" "takeWhile (\<lambda>c. \<not> number_char c) t \<noteq> []"
    using assms L F by (auto simp: duration_part_def t_def Let_def split: if_splits option.splits)
  moreover have "length t \<le> length s"
    using leadingInt_shorter [OF L] leadingFraction_shorter [OF F] by (auto simp: t_def)
  moreover have "length (takeWhile P t) + length (dropWhile P t) = length t" for P
    by (metis length_append takeWhile_dropWhile_id)
  ultimately have "0 < length (takeWhile (\<lambda>c. \<not> number_char c) t)"
    "length (takeWhile (\<lambda>c. \<not> number_char c) t) + length rest = length t" "length t \<le> length s" by auto
  then show ?thesis by linarith
qed

function duration_loop :: "string \<Rightarrow> int \<Rightarrow> string \<Rightarrow> int result" where
  "duration_loop orig d s =
     (if s = [] then Inr d
      else
        (case duration_part orig s of
           Inl err \<Rightarrow> Inl err
         | Inr (v, rest) \<Rightarrow>
             (let d = (d + v) mod 2 ^ 64 in
              if d > 2 ^ 63 then Inl (invalid_duration orig) else duration_loop orig d rest)))"
  by pat_completeness auto

termination duration_loop
  by (relation "measure (\<lambda>(_, _, s). length s)") (auto dest: duration_part_shorter)

declare duration_loop.simps [simp del]

definition ParseDuration :: "string \<Rightarrow> Duration result" where
  "ParseDuration orig =
     (let (neg, s) = (case orig of [] \<Rightarrow> (False, []) | c # cs \<Rightarrow>
            if c = CHR ''-'' \<or> c = CHR ''+'' then (c = CHR ''-'', cs) else (False, orig))
      in if s = ''0'' then Inr 0
         else if s = [] then Inl (invalid_duration orig)
         else
           (case duration_loop orig 0 s of
              Inl err \<Rightarrow> Inl err
            | Inr d \<Rightarrow>
                if neg then Inr (wrap64 (- wrap64 d))
                else if d > 2 ^ 63 - 1 then Inl (invalid_duration orig)
                else Inr d))"

end
