(* ===== verification/Config.thy ===== *)
theory Config
  imports GoParse Scheduler Server
begin

text \<open>
  \<open>internal/config/config.go\<close>: the configuration read from the environment, its validation and its
  redacted renderings; and what \<open>runServe\<close> hands of it to its parts. The environment is a partial map;
  \<open>errors.Join\<close> of a non-empty list is the list.
\<close>

section \<open>config.go: constants\<close>

definition MinPollInterval :: Duration where "MinPollInterval = 5 * Second"
definition defaultToUWindow :: string where "defaultToUWindow = ''23:30-05:30''"
definition redacted :: string where "redacted = ''REDACTED''"

text \<open>\<open>objectIDPrefixPattern\<close>, \<open>^[a-z0-9_]+$\<close>.\<close>

definition slug_char :: "char \<Rightarrow> bool" where
  "slug_char c \<longleftrightarrow> (let n = of_char c :: nat in 97 \<le> n \<and> n \<le> 122 \<or> 48 \<le> n \<and> n \<le> 57 \<or> c = CHR ''_'')"

definition objectIDPrefixPattern :: "string \<Rightarrow> bool" where
  "objectIDPrefixPattern s \<longleftrightarrow> s \<noteq> [] \<and> list_all slug_char s"

record cfg_Config =
  cf_Mode :: string
  InverterIP :: string
  InverterSerial :: string
  InverterPort :: int
  InverterSocketTimeout :: Duration
  SidecarURL :: string
  SidecarStartupTimeout :: Duration
  cf_PollInterval :: Duration
  PollMaxRetries :: int
  cf_FailureThreshold :: int
  cf_RTCSyncEnabled :: bool
  cf_RTCDriftThreshold :: Duration
  MQTTBrokerURL :: string
  MQTTUsername :: string
  MQTTPassword :: string
  MQTTClientID :: string
  MQTTTopicPrefix :: string
  HADiscoveryPrefix :: string
  HAObjectIDPrefix :: string
  cf_ControlsEnabled :: bool
  TOUWindow :: string
  TOUWindowSet :: bool
  HealthAddr :: string
  LogLevel :: string
  LogFormat :: string

section \<open>config.go: the readers\<close>

type_synonym environ = "string \<rightharpoonup> string"

definition Getenv :: "environ \<Rightarrow> string \<Rightarrow> string" where
  "Getenv env key = (case env key of None \<Rightarrow> [] | Some v \<Rightarrow> v)"

definition getEnv :: "environ \<Rightarrow> string \<Rightarrow> string \<Rightarrow> string" where
  "getEnv env key def = (if Getenv env key \<noteq> [] then Getenv env key else def)"

text \<open>The two results of a reader: the value and the error.\<close>

definition parseInt :: "environ \<Rightarrow> string \<Rightarrow> int \<Rightarrow> int \<times> go_error option" where
  "parseInt env key def =
     (let v = Getenv env key in
      if v = [] then (def, None)
      else
        (case Atoi (TrimSpace v) of
           Inl err \<Rightarrow> (def, Some (Wrap (key @ '' is not a valid integer'') err))
         | Inr n \<Rightarrow> (n, None)))"

definition parseBool :: "environ \<Rightarrow> string \<Rightarrow> bool \<Rightarrow> bool \<times> go_error option" where
  "parseBool env key def =
     (let v = Getenv env key in
      if v = [] then (def, None)
      else
        (case ParseBool (TrimSpace v) of
           Inl err \<Rightarrow> (def, Some (Wrap (key @ '' is not a valid boolean'') err))
         | Inr b \<Rightarrow> (b, None)))"

definition parseDuration :: "environ \<Rightarrow> string \<Rightarrow> Duration \<Rightarrow> Duration \<times> go_error option" where
  "parseDuration env key def =
     (let v = Getenv env key in
      if v = [] then (def, None)
      else
        (case ParseDuration v of
           Inl err \<Rightarrow> (0, Some (Wrap (key @ '' is not a valid duration'') err))
         | Inr d \<Rightarrow> (d, None)))"

definition parseDurationOrSeconds :: "environ \<Rightarrow> string \<Rightarrow> Duration \<Rightarrow> Duration \<times> go_error option" where
  "parseDurationOrSeconds env key def =
     (let v = Getenv env key in
      if v = [] then (def, None)
      else
        (case Atoi v of
           Inr secs \<Rightarrow> (wrap64 (secs * Second), None)
         | Inl _ \<Rightarrow>
             (case ParseDuration v of
                Inl err \<Rightarrow> (0, Some (Wrap (key @ '' is not a valid duration or integer seconds'') err))
              | Inr d \<Rightarrow> (d, None))))"

section \<open>config.go: Load\<close>

text \<open>An error is appended when a reader failed, or else when the value is out of range.\<close>

definition checked :: "go_error list \<Rightarrow> go_error option \<Rightarrow> bool \<Rightarrow> string \<Rightarrow> go_error list" where
  "checked errs err bad complaint =
     (case err of
        Some err \<Rightarrow> errs @ [err]
      | None \<Rightarrow> if bad then errs @ [Errorf complaint] else errs)"

text \<open>The \<open>switch\<close> on the mode.\<close>

definition mode_errs :: "string \<Rightarrow> string \<Rightarrow> string \<Rightarrow> string \<Rightarrow> go_error list" where
  "mode_errs mode ip serial broker =
     (if mode = ''live'' then
        (if ip = [] then [Errorf ''INVERTER_IP is required when MODE=live''] else []) @
        (if serial = [] then [Errorf ''INVERTER_SERIAL is required when MODE=live''] else []) @
        (if broker = [] then [Errorf ''MQTT_BROKER_URL is required when MODE=live''] else [])
      else if mode = ''mock'' then []
      else [Errorf (''MODE must be live or mock, got '' @ fmt_q mode)])"

text \<open>\<open>parse\<close> is the error of \<open>url.Parse\<close>.\<close>

definition Load :: "(string \<Rightarrow> go_error option) \<Rightarrow> environ \<Rightarrow> go_error list + cfg_Config" where
  "Load parse env =
     (let mode = ToLower (getEnv env ''MODE'' ''live'');
          ip = Getenv env ''INVERTER_IP'';
          serial = Getenv env ''INVERTER_SERIAL'';
          broker = Getenv env ''MQTT_BROKER_URL'';
          sidecar = getEnv env ''SIDECAR_URL'' ''http://127.0.0.1:8081'';
          prefix = getEnv env ''HA_OBJECT_ID_PREFIX'' DefaultObjectIDPrefix;
          errs = mode_errs mode ip serial broker;
          errs = errs @ (if broker \<noteq> [] then
                           (case parse broker of None \<Rightarrow> [] | Some err \<Rightarrow> [Wrap ''MQTT_BROKER_URL is invalid'' err])
                         else []);
          errs = errs @ (case parse sidecar of None \<Rightarrow> [] | Some err \<Rightarrow> [Wrap ''SIDECAR_URL is invalid'' err]);
          errs = (if \<not> objectIDPrefixPattern prefix
                  then errs @ [Errorf (''HA_OBJECT_ID_PREFIX '' @ fmt_q prefix @ '' must be a non-empty slug matching ^[a-z0-9_]+$'')]
                  else errs);
          (port, err) = parseInt env ''INVERTER_PORT'' 8899;
          errs = checked errs err (port < 1 \<or> port > 65535) (''INVERTER_PORT '' @ fmt_d port @ '' is out of range 1-65535'');
          (socketTimeout, err) = parseDurationOrSeconds env ''INVERTER_SOCKET_TIMEOUT'' (10 * Second);
          errs = checked errs err (socketTimeout \<le> 0) ''INVERTER_SOCKET_TIMEOUT must be > 0'';
          (startupTimeout, err) = parseDuration env ''SIDECAR_STARTUP_TIMEOUT'' (30 * Second);
          errs = checked errs err (startupTimeout < 0) ''SIDECAR_STARTUP_TIMEOUT must be >= 0'';
          (interval, err) = parseDuration env ''POLL_INTERVAL'' (60 * Second);
          errs = checked errs err (interval < MinPollInterval)
            (''POLL_INTERVAL '' @ Duration_String interval @ '' is below the '' @ Duration_String MinPollInterval @ '' floor'');
          (maxRetries, err) = parseInt env ''POLL_MAX_RETRIES'' 3;
          errs = checked errs err (maxRetries < 0) ''POLL_MAX_RETRIES must be >= 0'';
          (failureThreshold, err) = parseInt env ''FAILURE_THRESHOLD'' 3;
          errs = checked errs err (failureThreshold < 1) ''FAILURE_THRESHOLD must be >= 1'';
          (controlsEnabled, err) = parseBool env ''CONTROLS_ENABLED'' True;
          errs = checked errs err False [];
          (window, windowSet) = (case env ''TOU_WINDOW'' of None \<Rightarrow> (defaultToUWindow, False) | Some v \<Rightarrow> (v, True));
          errs = (case ParseToUWindow window of Inl err \<Rightarrow> errs @ [Wrap ''TOU_WINDOW'' err] | Inr _ \<Rightarrow> errs);
          (rtcSyncEnabled, err) = parseBool env ''RTC_SYNC_ENABLED'' False;
          errs = checked errs err False [];
          (rtcDrift, err) = parseDuration env ''RTC_DRIFT_THRESHOLD'' (60 * Second);
          errs = checked errs err (rtcDrift \<le> 0) ''RTC_DRIFT_THRESHOLD must be > 0''
      in if errs \<noteq> [] then Inl errs
         else Inr
           \<lparr>cf_Mode = mode, InverterIP = ip, InverterSerial = serial, InverterPort = port,
            InverterSocketTimeout = socketTimeout, SidecarURL = sidecar, SidecarStartupTimeout = startupTimeout,
            cf_PollInterval = interval, PollMaxRetries = maxRetries, cf_FailureThreshold = failureThreshold,
            cf_RTCSyncEnabled = rtcSyncEnabled, cf_RTCDriftThreshold = rtcDrift,
            MQTTBrokerURL = broker, MQTTUsername = Getenv env ''MQTT_USERNAME'', MQTTPassword = Getenv env ''MQTT_PASSWORD'',
            MQTTClientID = getEnv env ''MQTT_CLIENT_ID'' ''solis-inverter-manager'',
            MQTTTopicPrefix = getEnv env ''MQTT_TOPIC_PREFIX'' ''solis'',
            HADiscoveryPrefix = getEnv env ''HA_DISCOVERY_PREFIX'' ''homeassistant'', HAObjectIDPrefix = prefix,
            cf_ControlsEnabled = controlsEnabled, TOUWindow = window, TOUWindowSet = windowSet,
            HealthAddr = getEnv env ''HEALTH_ADDR'' '':8080'',
            LogLevel = ToLower (getEnv env ''LOG_LEVEL'' ''info''), LogFormat = ToLower (getEnv env ''LOG_FORMAT'' ''json'')\<rparr>)"

section \<open>config.go: the renderings\<close>

definition fmt_t :: "bool \<Rightarrow> string" where
  "fmt_t b = (if b then ''true'' else ''false'')"

definition Config_String :: "cfg_Config \<Rightarrow> string" where
  "Config_String c =
     (let serial = (if InverterSerial c \<noteq> [] then redacted else []);
          password = (if MQTTPassword c \<noteq> [] then redacted else [])
      in ''Config{mode='' @ cf_Mode c @ '' inverterIP='' @ InverterIP c @ '' inverterSerial='' @ serial
         @ '' inverterPort='' @ fmt_d (InverterPort c)
         @ '' socketTimeout='' @ Duration_String (InverterSocketTimeout c) @ '' sidecar='' @ SidecarURL c
         @ '' sidecarStartupTimeout='' @ Duration_String (SidecarStartupTimeout c)
         @ '' poll='' @ Duration_String (cf_PollInterval c) @ '' maxRetries='' @ fmt_d (PollMaxRetries c)
         @ '' failThreshold='' @ fmt_d (cf_FailureThreshold c)
         @ '' rtcSyncEnabled='' @ fmt_t (cf_RTCSyncEnabled c) @ '' rtcDriftThreshold='' @ Duration_String (cf_RTCDriftThreshold c)
         @ '' controlsEnabled='' @ fmt_t (cf_ControlsEnabled c) @ '' touWindow='' @ TOUWindow c
         @ '' broker='' @ MQTTBrokerURL c @ '' user='' @ MQTTUsername c @ '' password='' @ password
         @ '' clientID='' @ MQTTClientID c @ '' topicPrefix='' @ MQTTTopicPrefix c @ '' haPrefix='' @ HADiscoveryPrefix c
         @ '' haObjectIDPrefix='' @ HAObjectIDPrefix c
         @ '' health='' @ HealthAddr c @ '' log='' @ LogLevel c @ ''/'' @ LogFormat c @ ''}'')"

datatype slog_Value = slog_String string | slog_Int int | slog_Duration Duration | slog_Bool bool

definition redactSecret :: "string \<Rightarrow> string" where
  "redactSecret v = (if v = [] then [] else redacted)"

definition LogValue :: "cfg_Config \<Rightarrow> (string \<times> slog_Value) list" where
  "LogValue c =
     [(''mode'', slog_String (cf_Mode c)),
      (''inverter_ip'', slog_String (InverterIP c)),
      (''inverter_serial'', slog_String (redactSecret (InverterSerial c))),
      (''inverter_port'', slog_Int (InverterPort c)),
      (''socket_timeout'', slog_Duration (InverterSocketTimeout c)),
      (''sidecar_url'', slog_String (SidecarURL c)),
      (''sidecar_startup_timeout'', slog_Duration (SidecarStartupTimeout c)),
      (''poll_interval'', slog_Duration (cf_PollInterval c)),
      (''poll_max_retries'', slog_Int (PollMaxRetries c)),
      (''failure_threshold'', slog_Int (cf_FailureThreshold c)),
      (''rtc_sync_enabled'', slog_Bool (cf_RTCSyncEnabled c)),
      (''rtc_drift_threshold'', slog_Duration (cf_RTCDriftThreshold c)),
      (''controls_enabled'', slog_Bool (cf_ControlsEnabled c)),
      (''tou_window'', slog_String (TOUWindow c)),
      (''mqtt_broker_url'', slog_String (MQTTBrokerURL c)),
      (''mqtt_username'', slog_String (MQTTUsername c)),
      (''mqtt_password'', slog_String (redactSecret (MQTTPassword c))),
      (''mqtt_client_id'', slog_String (MQTTClientID c)),
      (''mqtt_topic_prefix'', slog_String (MQTTTopicPrefix c)),
      (''ha_discovery_prefix'', slog_String (HADiscoveryPrefix c)),
      (''ha_object_id_prefix'', slog_String (HAObjectIDPrefix c)),
      (''health_addr'', slog_String (HealthAddr c)),
      (''log_level'', slog_String (LogLevel c)),
      (''log_format'', slog_String (LogFormat c))]"

section \<open>serve.go: what the parts get\<close>

definition touWarningApplies :: "cfg_Config \<Rightarrow> bool" where
  "touWarningApplies cfg \<longleftrightarrow> TOUWindowSet cfg \<and> TOUWindow cfg \<noteq> [] \<and> \<not> cf_ControlsEnabled cfg"

definition serve_server_Config :: "cfg_Config \<Rightarrow> server_Config" where
  "serve_server_Config cfg = \<lparr>FailureThreshold = cf_FailureThreshold cfg, server_PollInterval = cf_PollInterval cfg\<rparr>"

definition serve_ha_Config :: "cfg_Config \<Rightarrow> ha_Config" where
  "serve_ha_Config cfg =
     \<lparr>DiscoveryPrefix = HADiscoveryPrefix cfg, TopicPrefix = MQTTTopicPrefix cfg, Serial = InverterSerial cfg,
      ObjectIDPrefix = HAObjectIDPrefix cfg, ControlsEnabled = cf_ControlsEnabled cfg\<rparr>"

definition serve_sched_Config :: "cfg_Config \<Rightarrow> sched_Config" where
  "serve_sched_Config cfg =
     \<lparr>PollInterval = cf_PollInterval cfg, MaxRetries = PollMaxRetries cfg, RTCSyncEnabled = cf_RTCSyncEnabled cfg,
      RTCDriftThreshold = cf_RTCDriftThreshold cfg\<rparr>"

section \<open>What a loaded configuration satisfies\<close>

lemma checked_Nil [simp]: "checked errs err bad s = [] \<longleftrightarrow> errs = [] \<and> err = None \<and> \<not> bad"
  by (auto simp: checked_def split: option.splits)

lemma no_errs:
  "(if errs \<noteq> [] then Inl errs else Inr c) = Inr c' \<longleftrightarrow> errs = [] \<and> c = c'"
  "(if b then errs @ [e] else errs) = [] \<longleftrightarrow> errs = [] \<and> \<not> b"
  "(if b then [e] else []) = [] \<longleftrightarrow> \<not> b"
  "(case r of Inl err \<Rightarrow> errs @ [f err] | Inr _ \<Rightarrow> errs) = [] \<longleftrightarrow> errs = [] \<and> is_ok r"
  "(case x of None \<Rightarrow> [] | Some err \<Rightarrow> [g err]) = [] \<longleftrightarrow> x = None"
  "(if b then xs else []) = [] \<longleftrightarrow> (b \<longrightarrow> xs = [])"
  by (auto simp: is_ok_def split: option.splits sum.splits)

lemma mode_errs_Nil:
  "mode_errs mode ip serial broker = [] \<longleftrightarrow>
     mode = ''live'' \<and> ip \<noteq> [] \<and> serial \<noteq> [] \<and> broker \<noteq> [] \<or> mode = ''mock''"
  by (simp add: mode_errs_def)

lemma duration_loop_bounds: "duration_loop orig d s = Inr r \<Longrightarrow> 0 \<le> d \<Longrightarrow> d \<le> 2 ^ 63 \<Longrightarrow> 0 \<le> r \<and> r \<le> 2 ^ 63"
proof (induction orig d s rule: duration_loop.induct)
  case (1 orig d s)
  show ?case
  proof (cases "s = []")
    case True
    then show ?thesis using "1.prems" by (simp add: duration_loop.simps [of orig d "[]"])
  next
    case False
    then obtain v rest where P: "duration_part orig s = Inr (v, rest)" "\<not> (d + v) mod 2 ^ 64 > 2 ^ 63"
      "duration_loop orig ((d + v) mod 2 ^ 64) rest = Inr r"
      using "1.prems"(1) by (auto simp: duration_loop.simps [of orig d s] Let_def split: sum.splits if_splits)
    from "1.IH" [OF False P(1) refl refl P(2,3)] P(2) show ?thesis by simp
  qed
qed

lemma ParseDuration_bounds: "ParseDuration s = Inr d \<Longrightarrow> - (2 ^ 63) \<le> d \<and> d < 2 ^ 63"
  using wrap64_bounds [of "- wrap64 r" for r]
  by (auto simp: ParseDuration_def Let_def split: list.splits if_splits sum.splits
      dest!: duration_loop_bounds) 

lemma Atoi_bounds: "Atoi s = Inr i \<Longrightarrow> - (2 ^ 63) \<le> i \<and> i < 2 ^ 63"
  by (auto simp: Atoi_def Let_def split: prod.splits if_splits option.splits)

text \<open>The values of the readers are of their Go types.\<close>

lemma reader_bounds:
  assumes "- (2 ^ 63) \<le> def" "def < 2 ^ 63"
  shows "parseInt env key def = (n, err) \<Longrightarrow> - (2 ^ 63) \<le> n \<and> n < 2 ^ 63"
    "parseDuration env key def = (n, err) \<Longrightarrow> - (2 ^ 63) \<le> n \<and> n < 2 ^ 63"
    "parseDurationOrSeconds env key def = (n, err) \<Longrightarrow> - (2 ^ 63) \<le> n \<and> n < 2 ^ 63"
  using assms wrap64_bounds
  by (auto simp: parseInt_def parseDuration_def parseDurationOrSeconds_def Let_def split: if_splits sum.splits
      dest!: Atoi_bounds ParseDuration_bounds)

definition valid_config :: "(string \<Rightarrow> go_error option) \<Rightarrow> cfg_Config \<Rightarrow> bool" where
  "valid_config parse c \<longleftrightarrow>
     (cf_Mode c = ''live'' \<and> InverterIP c \<noteq> [] \<and> InverterSerial c \<noteq> [] \<and> MQTTBrokerURL c \<noteq> [] \<or> cf_Mode c = ''mock'') \<and>
     (MQTTBrokerURL c = [] \<or> parse (MQTTBrokerURL c) = None) \<and> parse (SidecarURL c) = None \<and>
     objectIDPrefixPattern (HAObjectIDPrefix c) \<and> InverterPort c \<in> {1..65535} \<and>
     InverterSocketTimeout c \<in> {0<..<2 ^ 63} \<and> SidecarStartupTimeout c \<in> {0..<2 ^ 63} \<and>
     cf_PollInterval c \<in> {MinPollInterval..<2 ^ 63} \<and> PollMaxRetries c \<in> {0..<2 ^ 63} \<and>
     cf_FailureThreshold c \<in> {1..<2 ^ 63} \<and> cf_RTCDriftThreshold c \<in> {0<..<2 ^ 63} \<and>
     is_ok (ParseToUWindow (TOUWindow c)) \<and> (TOUWindowSet c \<or> TOUWindow c = defaultToUWindow)"

text \<open>
  What a successful \<open>Load\<close> was made of: no reader failed and no check complained, and every field is
  the value of its reader.
\<close>

lemma Load_Inr:
  assumes "Load parse env = Inr c"
  shows "parseInt env ''INVERTER_PORT'' 8899 = (InverterPort c, None)" (is ?r1)
    and "parseDurationOrSeconds env ''INVERTER_SOCKET_TIMEOUT'' (10 * Second) = (InverterSocketTimeout c, None)" (is ?r2)
    and "parseDuration env ''SIDECAR_STARTUP_TIMEOUT'' (30 * Second) = (SidecarStartupTimeout c, None)" (is ?r3)
    and "parseDuration env ''POLL_INTERVAL'' (60 * Second) = (cf_PollInterval c, None)" (is ?r4)
    and "parseInt env ''POLL_MAX_RETRIES'' 3 = (PollMaxRetries c, None)" (is ?r5)
    and "parseInt env ''FAILURE_THRESHOLD'' 3 = (cf_FailureThreshold c, None)" (is ?r6)
    and "parseBool env ''CONTROLS_ENABLED'' True = (cf_ControlsEnabled c, None)" (is ?r7)
    and "parseBool env ''RTC_SYNC_ENABLED'' False = (cf_RTCSyncEnabled c, None)" (is ?r8)
    and "parseDuration env ''RTC_DRIFT_THRESHOLD'' (60 * Second) = (cf_RTCDriftThreshold c, None)" (is ?r9)
    and "(case env ''TOU_WINDOW'' of None \<Rightarrow> (defaultToUWindow, False) | Some v \<Rightarrow> (v, True)) = (TOUWindow c, TOUWindowSet c)" (is ?rw)
    and "cf_Mode c = ToLower (getEnv env ''MODE'' ''live'')" (is ?mode)
    and "InverterIP c = Getenv env ''INVERTER_IP'' \<and> InverterSerial c = Getenv env ''INVERTER_SERIAL'' \<and>
      MQTTBrokerURL c = Getenv env ''MQTT_BROKER_URL''" (is ?strings)
    and "mode_errs (cf_Mode c) (InverterIP c) (InverterSerial c) (MQTTBrokerURL c) = []" (is ?m)
    and "MQTTBrokerURL c \<noteq> [] \<longrightarrow> parse (MQTTBrokerURL c) = None" (is ?u1) and "parse (SidecarURL c) = None" (is ?u2)
    and "\<not> \<not> objectIDPrefixPattern (HAObjectIDPrefix c)" (is ?p) and "is_ok (ParseToUWindow (TOUWindow c))" (is ?w)
    and "\<not> (InverterPort c < 1 \<or> InverterPort c > 65535)" (is ?c1) and "\<not> InverterSocketTimeout c \<le> 0" (is ?c2)
    and "\<not> SidecarStartupTimeout c < 0" (is ?c3) and "\<not> cf_PollInterval c < MinPollInterval" (is ?c4)
    and "\<not> PollMaxRetries c < 0" (is ?c5) and "\<not> cf_FailureThreshold c < 1" (is ?c6) and "\<not> cf_RTCDriftThreshold c \<le> 0" (is ?c9)
proof -
  obtain port e1 where P1: "parseInt env ''INVERTER_PORT'' 8899 = (port, e1)" by fastforce
  obtain st e2 where P2: "parseDurationOrSeconds env ''INVERTER_SOCKET_TIMEOUT'' (10 * Second) = (st, e2)" by fastforce
  obtain su e3 where P3: "parseDuration env ''SIDECAR_STARTUP_TIMEOUT'' (30 * Second) = (su, e3)" by fastforce
  obtain iv e4 where P4: "parseDuration env ''POLL_INTERVAL'' (60 * Second) = (iv, e4)" by fastforce
  obtain mr e5 where P5: "parseInt env ''POLL_MAX_RETRIES'' 3 = (mr, e5)" by fastforce
  obtain ft e6 where P6: "parseInt env ''FAILURE_THRESHOLD'' 3 = (ft, e6)" by fastforce
  obtain ce e7 where P7: "parseBool env ''CONTROLS_ENABLED'' True = (ce, e7)" by fastforce
  obtain rs e8 where P8: "parseBool env ''RTC_SYNC_ENABLED'' False = (rs, e8)" by fastforce
  obtain rd e9 where P9: "parseDuration env ''RTC_DRIFT_THRESHOLD'' (60 * Second) = (rd, e9)" by fastforce
  obtain w ws where PW: "(case env ''TOU_WINDOW'' of None \<Rightarrow> (defaultToUWindow, False) | Some v \<Rightarrow> (v, True)) = (w, ws)" by fastforce
  note P = P1 P2 P3 P4 P5 P6 P7 P8 P9 PW
  note L = assms [unfolded Load_def Let_def P prod.case, unfolded no_errs(1), unfolded no_errs(2-) checked_Nil append_is_Nil_conv]
  note F = L [THEN conjunct1] and c = L [THEN conjunct2, symmetric]
  have "e1 = None \<and> e2 = None \<and> e3 = None \<and> e4 = None \<and> e5 = None \<and> e6 = None \<and> e7 = None \<and> e8 = None \<and> e9 = None"
    using F by (elim conjE) (intro conjI; assumption)
  then have E: "e1 = None" "e2 = None" "e3 = None" "e4 = None" "e5 = None" "e6 = None" "e7 = None" "e8 = None" "e9 = None"
    by simp_all
  show ?r1 ?r2 ?r3 ?r4 ?r5 ?r6 ?r7 ?r8 ?r9 ?rw unfolding c P E cfg_Config.simps by (rule refl)+
  show ?mode ?strings unfolding c cfg_Config.simps by (intro conjI refl)+
  have "?m \<and> ?u1 \<and> ?u2 \<and> ?p \<and> ?w \<and> ?c1 \<and> ?c2 \<and> ?c3 \<and> ?c4 \<and> ?c5 \<and> ?c6 \<and> ?c9"
    unfolding c cfg_Config.simps using F by (elim conjE) (intro conjI; assumption)
  then show ?m ?u1 ?u2 ?p ?w ?c1 ?c2 ?c3 ?c4 ?c5 ?c6 ?c9 by blast+
qed

lemma Load_valid:
  assumes "Load parse env = Inr c"
  shows "valid_config parse c" "MQTTBrokerURL c = Getenv env ''MQTT_BROKER_URL''" "cf_ControlsEnabled c = fst (parseBool env ''CONTROLS_ENABLED'' True)"
proof -
  note L = Load_Inr [OF assms]
  have B: "InverterSocketTimeout c < 2 ^ 63" "SidecarStartupTimeout c < 2 ^ 63" "cf_PollInterval c < 2 ^ 63" "PollMaxRetries c < 2 ^ 63"
    "cf_FailureThreshold c < 2 ^ 63" "cf_RTCDriftThreshold c < 2 ^ 63"
    using reader_bounds(3) [OF _ _ L(2)] reader_bounds(2) [OF _ _ L(3)] reader_bounds(2) [OF _ _ L(4)] reader_bounds(1) [OF _ _ L(5)]
      reader_bounds(1) [OF _ _ L(6)] reader_bounds(2) [OF _ _ L(9)] by (simp_all add: Second_def)
  have W: "TOUWindowSet c \<or> TOUWindow c = defaultToUWindow" using L(10) by (auto split: option.splits)
  show "valid_config parse c"
    unfolding valid_config_def using L(13) [unfolded mode_errs_Nil] L(14-24) B W by auto
  show "MQTTBrokerURL c = Getenv env ''MQTT_BROKER_URL''" using L(12) by simp
  show "cf_ControlsEnabled c = fst (parseBool env ''CONTROLS_ENABLED'' True)" by (simp add: L(7))
qed

text \<open>Nothing but these rules is checked.\<close>

lemma Load_accepts:
  assumes "mode_errs (ToLower (getEnv env ''MODE'' ''live'')) (Getenv env ''INVERTER_IP'') (Getenv env ''INVERTER_SERIAL'')
      (Getenv env ''MQTT_BROKER_URL'') = []"
    and "\<And>u. parse u = None" "objectIDPrefixPattern (getEnv env ''HA_OBJECT_ID_PREFIX'' DefaultObjectIDPrefix)"
    and P1: "parseInt env ''INVERTER_PORT'' 8899 = (port, None)" and R1: "\<not> (port < 1 \<or> port > 65535)"
    and P2: "parseDurationOrSeconds env ''INVERTER_SOCKET_TIMEOUT'' (10 * Second) = (st, None)" and R2: "\<not> st \<le> 0"
    and P3: "parseDuration env ''SIDECAR_STARTUP_TIMEOUT'' (30 * Second) = (su, None)" and R3: "\<not> su < 0"
    and P4: "parseDuration env ''POLL_INTERVAL'' (60 * Second) = (iv, None)" and R4: "\<not> iv < MinPollInterval"
    and P5: "parseInt env ''POLL_MAX_RETRIES'' 3 = (mr, None)" and R5: "\<not> mr < 0"
    and P6: "parseInt env ''FAILURE_THRESHOLD'' 3 = (ft, None)" and R6: "\<not> ft < 1"
    and P7: "parseBool env ''CONTROLS_ENABLED'' True = (ce, None)"
    and PW: "(case env ''TOU_WINDOW'' of None \<Rightarrow> (defaultToUWindow, False) | Some v \<Rightarrow> (v, True)) = (w, ws)"
    and T: "is_ok (ParseToUWindow w)"
    and P8: "parseBool env ''RTC_SYNC_ENABLED'' False = (rs, None)"
    and P9: "parseDuration env ''RTC_DRIFT_THRESHOLD'' (60 * Second) = (rd, None)" and R9: "\<not> rd \<le> 0"
  shows "\<exists>c. Load parse env = Inr c \<and> InverterSocketTimeout c = st \<and> cf_PollInterval c = iv \<and> TOUWindow c = w \<and>
    InverterSerial c = Getenv env ''INVERTER_SERIAL'' \<and> MQTTPassword c = Getenv env ''MQTT_PASSWORD''"
proof -
  have ok: "checked errs None b s = errs" if "\<not> b" for errs b s using that by (simp add: checked_def)
  obtain tw where T': "ParseToUWindow w = Inr tw" using T by (rule is_okE)
  have b: "(if b then [] else [] :: go_error list) = []" for b by simp
  show ?thesis
    unfolding Load_def Let_def P1 P2 P3 P4 P5 P6 P7 P8 P9 PW prod.case T' sum.case
    by (simp only: ok [OF R1] ok [OF R2] ok [OF R3] ok [OF R4] ok [OF R5] ok [OF R6] ok [OF R9] ok [OF not_False_eq_True [THEN eqTrueE]]
        assms(1-3) option.case b append_Nil if_True if_False not_True_eq_False simp_thms cfg_Config.simps sum.inject ex_simps)
qed

text \<open>A mock run in which only the poll interval and the password are set.\<close>

definition mock_environ :: "string \<Rightarrow> string \<Rightarrow> environ" where
  "mock_environ interval password = [''MODE'' \<mapsto> ''Mock'', ''POLL_INTERVAL'' \<mapsto> interval, ''MQTT_PASSWORD'' \<mapsto> password]"

lemma reader_unset:
  "env key = None \<Longrightarrow> parseInt env key n = (n, None)" "env key = None \<Longrightarrow> parseBool env key b = (b, None)"
  "env key = None \<Longrightarrow> parseDuration env key d = (d, None)" "env key = None \<Longrightarrow> parseDurationOrSeconds env key d = (d, None)"
  by (simp_all add: parseInt_def parseBool_def parseDuration_def parseDurationOrSeconds_def Getenv_def)

text \<open>In mock mode, with only the poll interval, the controls, the broker and the credentials set.\<close>

lemma Load_mostly_unset:
  assumes "e ''MODE'' = Some ''Mock''" "e ''POLL_INTERVAL'' = Some interval"
    and unset: "list_all (\<lambda>key. e key = None)
      [''INVERTER_PORT'', ''INVERTER_SOCKET_TIMEOUT'', ''SIDECAR_STARTUP_TIMEOUT'', ''POLL_MAX_RETRIES'', ''FAILURE_THRESHOLD'',
       ''TOU_WINDOW'', ''RTC_SYNC_ENABLED'', ''RTC_DRIFT_THRESHOLD'', ''INVERTER_SERIAL'', ''HA_OBJECT_ID_PREFIX'']"
    and "ParseDuration interval = Inr iv" "interval \<noteq> []" "MinPollInterval \<le> iv" "parseBool e ''CONTROLS_ENABLED'' True = (ce, None)"
  shows "\<exists>c. Load (\<lambda>_. None) e = Inr c \<and> cf_PollInterval c = iv \<and> InverterSerial c = [] \<and> MQTTPassword c = Getenv e ''MQTT_PASSWORD''"
proof -
  have keys: "e ''INVERTER_PORT'' = None" "e ''INVERTER_SOCKET_TIMEOUT'' = None" "e ''SIDECAR_STARTUP_TIMEOUT'' = None"
    "e ''POLL_MAX_RETRIES'' = None" "e ''FAILURE_THRESHOLD'' = None" "e ''TOU_WINDOW'' = None" "e ''RTC_SYNC_ENABLED'' = None"
    "e ''RTC_DRIFT_THRESHOLD'' = None" "e ''INVERTER_SERIAL'' = None" "e ''HA_OBJECT_ID_PREFIX'' = None"
    using unset by simp_all
  have "ToLower ''Mock'' = ''mock''" by code_simp
  then have mode: "mode_errs (ToLower (getEnv e ''MODE'' ''live'')) ip serial broker = []" for ip serial broker
    by (simp add: mode_errs_Nil getEnv_def Getenv_def assms(1))
  have "objectIDPrefixPattern DefaultObjectIDPrefix" by code_simp
  then have prefix: "objectIDPrefixPattern (getEnv e ''HA_OBJECT_ID_PREFIX'' DefaultObjectIDPrefix)"
    by (simp add: getEnv_def Getenv_def keys)
  have interval: "parseDuration e ''POLL_INTERVAL'' (60 * Second) = (iv, None)"
    using assms(2,4,5) by (simp add: parseDuration_def Getenv_def)
  have window: "is_ok (ParseToUWindow defaultToUWindow)" by code_simp
  have windowed: "(case e ''TOU_WINDOW'' of None \<Rightarrow> (defaultToUWindow, False) | Some v \<Rightarrow> (v, True)) = (defaultToUWindow, False)"
    by (simp add: keys)
  have readers: "parseInt e ''INVERTER_PORT'' 8899 = (8899, None)" "parseDurationOrSeconds e ''INVERTER_SOCKET_TIMEOUT'' (10 * Second) = (10 * Second, None)"
    "parseDuration e ''SIDECAR_STARTUP_TIMEOUT'' (30 * Second) = (30 * Second, None)" "parseInt e ''POLL_MAX_RETRIES'' 3 = (3, None)"
    "parseInt e ''FAILURE_THRESHOLD'' 3 = (3, None)" "parseBool e ''RTC_SYNC_ENABLED'' False = (False, None)"
    "parseDuration e ''RTC_DRIFT_THRESHOLD'' (60 * Second) = (60 * Second, None)"
    by (simp_all add: reader_unset keys)
  from Load_accepts [OF mode refl prefix readers(1) _ readers(2) _ readers(3) _ interval _ readers(4) _ readers(5) _ assms(7) windowed window
      readers(6,7)] assms(6)
  show ?thesis by (auto simp: Second_def Getenv_def keys)
qed

lemma Load_mock:
  assumes "ParseDuration interval = Inr iv" "interval \<noteq> []" "MinPollInterval \<le> iv"
  shows "\<exists>c. Load (\<lambda>_. None) (mock_environ interval password) = Inr c \<and> cf_PollInterval c = iv \<and>
    InverterSerial c = [] \<and> MQTTPassword c = password"
proof -
  have "parseBool (mock_environ interval password) ''CONTROLS_ENABLED'' True = (True, None)"
    by (rule reader_unset) (simp add: mock_environ_def)
  from Load_mostly_unset [OF _ _ _ assms this] show ?thesis by (simp add: mock_environ_def Getenv_def)
qed

section \<open>Properties\<close>

text \<open>
  C22: a configuration that loads is one the manager can run with: every documented rule holds, the
  parse of the tariff window that the startup repeats cannot fail and gives a window of valid clocks
  that is unset or has two different ends, and no value the parts are built with is clamped.
\<close>

theorem load_serves:
  assumes "Load parse env = Inr c"
  shows "valid_config parse c \<and>
    (\<exists>w asserted. ParseToUWindow (TOUWindow c) = Inr (w, asserted) \<and> valid_window w \<and> (Start w \<noteq> End w \<or> IsZero w) \<and>
       (asserted \<longleftrightarrow> TOUWindow c \<noteq> [])) \<and>
    threshold (Server_New (serve_server_Config c) t) = cf_FailureThreshold c \<and>
    sched_cfg (Scheduler_New (s\<lparr>sched_cfg := serve_sched_Config c\<rparr>)) = serve_sched_Config c \<and>
    objectID (serve_ha_Config c) key = HAObjectIDPrefix c @ ''_'' @ key"
proof -
  have V: "valid_config parse c" by (rule Load_valid(1) [OF assms])
  then obtain w a where T: "ParseToUWindow (TOUWindow c) = Inr (w, a)" by (auto simp: valid_config_def elim!: is_okE)
  have "valid_window w \<and> (Start w \<noteq> End w \<or> IsZero w) \<and> (a \<longleftrightarrow> TOUWindow c \<noteq> [])"
    using ParseToUWindow_Inr [OF T]
    by (cases a) (auto simp: valid_window_def valid_clock_def IsZero_def maxHour_def maxMinute_def)
  moreover have "cf_FailureThreshold c \<ge> 1" "PollMaxRetries c \<ge> 0" "HAObjectIDPrefix c \<noteq> []"
    using V by (auto simp: valid_config_def objectIDPrefixPattern_def)
  ultimately show ?thesis
    using V T by (auto simp: Server_New_def Scheduler_New_def serve_server_Config_def serve_sched_Config_def
        serve_ha_Config_def objectID_def Let_def)
qed

theorem load_serves_witness:
  "\<exists>c. Load (\<lambda>_. None) (mock_environ ''1m30s'' '''') = Inr c \<and> cf_PollInterval c = 90 * Second \<and> is_ok (ParseToUWindow (TOUWindow c))"
proof -
  have "ParseDuration ''1m30s'' = Inr (90 * Second)" by code_simp
  from Load_mock [OF this, of "''''"] obtain c where
    "Load (\<lambda>_. None) (mock_environ ''1m30s'' '''') = Inr c" "cf_PollInterval c = 90 * Second"
    by (auto simp: MinPollInterval_def Second_def)
  moreover from load_serves [OF this(1), of Time_zero undefined "[]"] obtain w a where "ParseToUWindow (TOUWindow c) = Inr (w, a)" by blast
  ultimately show ?thesis by simp
qed

text \<open>
  C26: the renderings do not depend on the secrets: two configurations that differ in the serial and
  the password only, and agree on which of them are set, have the same text and the same log value.
\<close>

theorem secrets_hidden:
  assumes "c\<lparr>InverterSerial := [], MQTTPassword := []\<rparr> = c'\<lparr>InverterSerial := [], MQTTPassword := []\<rparr>"
    and "InverterSerial c = [] \<longleftrightarrow> InverterSerial c' = []" "MQTTPassword c = [] \<longleftrightarrow> MQTTPassword c' = []"
  shows "Config_String c = Config_String c' \<and> LogValue c = LogValue c'"
  using assms by (cases c; cases c') (simp add: Config_String_def LogValue_def redactSecret_def)

theorem secrets_hidden_witness:
  "LogValue (projr (Load (\<lambda>_. None) (mock_environ ''60s'' ''swordfish''))\<lparr>InverterSerial := ''1234''\<rparr>) =
   LogValue (projr (Load (\<lambda>_. None) (mock_environ ''60s'' ''swordfish''))\<lparr>InverterSerial := ''987'', MQTTPassword := ''hunter2''\<rparr>)"
proof -
  have "ParseDuration ''60s'' = Inr (60 * Second)" by code_simp
  from Load_mock [OF this, of "''swordfish''"] obtain c where
    c: "projr (Load (\<lambda>_. None) (mock_environ ''60s'' ''swordfish'')) = c" "MQTTPassword c = ''swordfish''"
    by (auto simp: MinPollInterval_def Second_def)
  from secrets_hidden [of "c\<lparr>InverterSerial := ''1234''\<rparr>" "c\<lparr>InverterSerial := ''987'', MQTTPassword := ''hunter2''\<rparr>"] c(2)
  show ?thesis unfolding c(1) by simp
qed

text \<open>
  A count of bare seconds is multiplied without an overflow check: a timeout of 18446744074 seconds is
  read as one of less than a third of a second.
\<close>

theorem bare_seconds_wrap:
  "parseDurationOrSeconds [''INVERTER_SOCKET_TIMEOUT'' \<mapsto> ''18446744074''] ''INVERTER_SOCKET_TIMEOUT'' (10 * Second) = (290448384, None)"
proof -
  have "Atoi ''18446744074'' = Inr 18446744074" by (simp add: Atoi_def digit_val_def)
  then show ?thesis by (simp add: parseDurationOrSeconds_def Getenv_def wrap64_def Second_def)
qed

text \<open>A boolean is not read case-insensitively: of the spellings of the word only three are accepted.\<close>

theorem bool_spellings:
  "snd (parseBool [''CONTROLS_ENABLED'' \<mapsto> ''TRUE''] ''CONTROLS_ENABLED'' True) = None \<and>
   snd (parseBool [''CONTROLS_ENABLED'' \<mapsto> ''tRUE''] ''CONTROLS_ENABLED'' True) \<noteq> None"
proof -
  have "TrimSpace ''TRUE'' = ''TRUE''" "TrimSpace ''tRUE'' = ''tRUE''" by (rule TrimSpace_visible; simp add: visible_def)+
  then show ?thesis by (simp add: parseBool_def Getenv_def ParseBool_def)
qed

end
