(* ===== verification/Startup.thy ===== *)
theory Startup
  imports Sidecar GoDuration
begin

text \<open>
  The startup wait: \<open>Health\<close>, \<open>probeServing\<close> and \<open>WaitUntilServing\<close> of \<open>internal/sidecarclient/client.go\<close>
  and \<open>waitForSidecar\<close> of \<open>internal/cmd/serve.go\<close>. The wait loops until a probe succeeds or its context
  ends, which need never happen: it is a partial function, and the theorems say when it returns.
\<close>

section \<open>client.go: the health endpoint\<close>

record Health =
  Health_OK :: bool
  InverterReachable :: bool
  Health_Mode :: string

definition json_bool :: "json option \<Rightarrow> bool option" where
  "json_bool j = (case j of None \<Rightarrow> Some False | Some JNull \<Rightarrow> Some False | Some (JBool b) \<Rightarrow> Some b | _ \<Rightarrow> None)"

definition decode_Health :: "json \<Rightarrow> Health option" where
  "decode_Health j =
     (if \<not> (case j of JObject _ \<Rightarrow> True | JNull \<Rightarrow> True | _ \<Rightarrow> False) then None
      else
        (case (json_bool (json_field j ''ok''), json_bool (json_field j ''inverter_reachable''), json_text (json_field j ''mode'')) of
           (Some ok, Some reachable, Some mode) \<Rightarrow> Some \<lparr>Health_OK = ok, InverterReachable = reachable, Health_Mode = mode\<rparr>
         | _ \<Rightarrow> None))"

definition Client_Health :: "'w httpDoer \<Rightarrow> 'w \<Rightarrow> Health result \<times> 'w" where
  "Client_Health http w =
     (case Client_do http ''GET'' ''/health'' None decode_Health w of
        (Inl err, w) \<Rightarrow> (Inl (Wrap ''health'' err), w)
      | (Inr h, w) \<Rightarrow> (Inr h, w))"

text \<open>The body of a 200 is not read.\<close>

definition probeServing :: "'w httpDoer \<Rightarrow> 'w \<Rightarrow> go_error option \<times> 'w" where
  "probeServing http w =
     (case http ''GET'' ''/health'' None w of
        (Inl err, w) \<Rightarrow> (Some (Wrap ''http GET /health'' (Errorf err)), w)
      | (Inr resp, w) \<Rightarrow> if fst resp \<noteq> 200 then (Some (parseError resp), w) else (None, w))"

text \<open>
  \<open>wait\<close> is the \<open>select\<close> between the end of the context (\<open>False\<close>) and the timer, and \<open>ctxErr\<close> the error of
  the context. The two wrapped errors of the failure are kept in order.
\<close>

partial_function (option) WaitUntilServing ::
  "'w httpDoer \<Rightarrow> (Duration \<Rightarrow> 'w \<Rightarrow> bool \<times> 'w) \<Rightarrow> ('w \<Rightarrow> go_error) \<Rightarrow> Duration \<Rightarrow> 'w \<Rightarrow> ((go_error \<times> go_error) option \<times> 'w) option" where
  "WaitUntilServing http wait ctxErr every w =
     (case probeServing http w of
        (None, w) \<Rightarrow> Some (None, w)
      | (Some lastErr, w) \<Rightarrow>
          (case wait every w of
             (fired, w) \<Rightarrow>
               if \<not> fired then Some (Some (ctxErr w, lastErr), w)
               else WaitUntilServing http wait ctxErr every w))"

section \<open>serve.go\<close>

definition sidecarProbeInterval :: Duration where "sidecarProbeInterval = 500 * Millisecond"

text \<open>
  \<open>waitForSidecar\<close> under the context with the timeout: \<open>wait\<close> and \<open>ctxErr\<close> are those of that context. It
  returns nothing: a failure is logged, and the startup goes on.
\<close>

definition waitForSidecar ::
  "'w httpDoer \<Rightarrow> (Duration \<Rightarrow> 'w \<Rightarrow> bool \<times> 'w) \<Rightarrow> ('w \<Rightarrow> go_error) \<Rightarrow> Duration \<Rightarrow> 'w \<Rightarrow> 'w option" where
  "waitForSidecar http wait ctxErr timeout w =
     (if timeout \<le> 0 then Some w
      else map_option snd (WaitUntilServing http wait ctxErr sidecarProbeInterval w))"

section \<open>The wait ends with its context\<close>

text \<open>
  A context with a deadline: \<open>left\<close> is the time it has left. A timer that runs its time uses it up, one
  that would outlast it is ended by the context, and no probe gives time back.
\<close>

locale deadline =
  fixes http :: "'w httpDoer" and wait :: "Duration \<Rightarrow> 'w \<Rightarrow> bool \<times> 'w" and left :: "'w \<Rightarrow> Duration"
  assumes probe_left: "http ''GET'' ''/health'' None w = (r, w') \<Longrightarrow> left w' \<le> left w"
    and wait_left: "wait d w = (True, w') \<Longrightarrow> left w' \<le> left w - d"
    and wait_over: "wait d w = (True, w') \<Longrightarrow> d \<le> left w"
begin

lemma probeServing_left: "probeServing http w = (r, w') \<Longrightarrow> left w' \<le> left w"
  by (auto simp: probeServing_def split: prod.splits sum.splits if_splits dest: probe_left)

text \<open>What the outcome says of the last round.\<close>

definition outcome :: "('w \<Rightarrow> go_error) \<Rightarrow> Duration \<Rightarrow> (go_error \<times> go_error) option \<times> 'w \<Rightarrow> bool" where
  "outcome ctxErr every r \<longleftrightarrow>
     (case r of
        (None, w') \<Rightarrow> \<exists>w0. probeServing http w0 = (None, w')
      | (Some (cause, err), w') \<Rightarrow> cause = ctxErr w' \<and>
          (\<exists>w0 w1. probeServing http w0 = (Some err, w1) \<and> wait every w1 = (False, w')))"

lemma wait_returns:
  assumes "0 < every"
  shows "\<exists>r. WaitUntilServing http wait ctxErr every w = Some r \<and> outcome ctxErr every r"
proof (induction "nat (left w)" arbitrary: w rule: less_induct)
  case less
  note unfold = WaitUntilServing.simps [of http wait ctxErr every w]
  obtain e w1 where P: "probeServing http w = (e, w1)" by fastforce
  show ?case
  proof (cases e)
    case None
    with P show ?thesis by (auto simp: unfold outcome_def)
  next
    case (Some err)
    obtain b w2 where W: "wait every w1 = (b, w2)" by fastforce
    show ?thesis
    proof (cases b)
      case True
      have "left w2 < left w" "0 < left w"
        using probeServing_left [OF P] wait_left [of every w1 w2] wait_over [of every w1 w2] W True assms by auto
      then have "nat (left w2) < nat (left w)" by simp
      from less.hyps [OF this] show ?thesis using P Some W True by (simp add: unfold)
    next
      case False
      with P Some W show ?thesis by (auto simp: unfold outcome_def)
    qed
  qed
qed

end

section \<open>Properties\<close>

text \<open>
  C27: the startup wait ends: under a context with a deadline it returns, with no error exactly when
  its last probe was answered with a 200, and otherwise with the error of the context and that of the
  last probe; and a startup with the wait switched off does not probe at all.
\<close>

theorem startup_wait_ends:
  assumes "deadline http wait left"
  shows "(\<exists>r w'. WaitUntilServing http wait ctxErr sidecarProbeInterval w = Some (r, w') \<and>
      waitForSidecar http wait ctxErr timeout w = Some (if timeout \<le> 0 then w else w') \<and>
      (r = None \<longrightarrow> (\<exists>w0. probeServing http w0 = (None, w'))) \<and>
      (\<forall>cause err. r = Some (cause, err) \<longrightarrow> cause = ctxErr w' \<and>
         (\<exists>w0 w1. probeServing http w0 = (Some err, w1) \<and> wait sidecarProbeInterval w1 = (False, w'))))"
proof -
  have "0 < sidecarProbeInterval" by (simp add: sidecarProbeInterval_def Millisecond_def)
  from deadline.wait_returns [OF assms this, of ctxErr w] obtain r w' where
    R: "WaitUntilServing http wait ctxErr sidecarProbeInterval w = Some (r, w')"
    "deadline.outcome http wait ctxErr sidecarProbeInterval (r, w')" by fastforce
  then show ?thesis
    using R(2) unfolding deadline.outcome_def [OF assms]
    by (intro exI [of _ r] exI [of _ w']) (auto simp: waitForSidecar_def)
qed

text \<open>The mock sidecar behind its network, and a clock that counts the deadline down.\<close>

definition timed_http :: "(mock_world \<times> Duration) httpDoer" where
  "timed_http meth path body w = (case mock_http meth path body (fst w) of (r, m) \<Rightarrow> (r, (m, snd w)))"

definition timed_wait :: "Duration \<Rightarrow> mock_world \<times> Duration \<Rightarrow> bool \<times> (mock_world \<times> Duration)" where
  "timed_wait d w = (if d \<le> snd w then (True, (fst w, snd w - d)) else (False, w))"

interpretation timed: deadline timed_http timed_wait snd
  by unfold_locales (auto simp: timed_http_def timed_wait_def split: prod.splits if_splits)

theorem startup_wait_ends_witness:
  "\<exists>r w'. WaitUntilServing timed_http timed_wait (\<lambda>_. ErrCanceled) sidecarProbeInterval
     (\<lparr>transport = \<lparr>mock_regs = Map.empty, taken = []\<rparr>, fates = [Refused, ReplyLost, Refused]\<rparr>, 30 * Second) = Some (r, w')"
  using startup_wait_ends [OF timed.deadline_axioms, of "\<lambda>_. ErrCanceled"
      "(\<lparr>transport = \<lparr>mock_regs = Map.empty, taken = []\<rparr>, fates = [Refused, ReplyLost, Refused]\<rparr>, 30 * Second)" "30 * Second"]
  by blast

end
