(* ===== verification/Setup.thy ===== *)
theory Setup
  imports Startup Manager
begin

text \<open>
  The constructors with their options, and the log line of a guarded write: \<open>New\<close>, \<open>WithHTTPClient\<close> and
  \<open>WithTimeout\<close> of \<open>internal/sidecarclient/client.go\<close>, and \<open>NewHandler\<close>, \<open>WithNow\<close>, \<open>WithToU\<close> and \<open>logGuard\<close> of
  \<open>internal/controls/handler.go\<close>. An \<open>http.Client\<close> is shared through its pointer: the clients live in a
  store from addresses to timeouts, and an option that sets a timeout changes the store.
\<close>

section \<open>client.go: New\<close>

definition TrimRight :: "string \<Rightarrow> string \<Rightarrow> string" where
  "TrimRight s cutset = rev (dropWhile (\<lambda>c. c \<in> set cutset) (rev s))"

definition defaultTimeout :: Duration where "defaultTimeout = 15 * Second"

type_synonym http_store = "nat \<rightharpoonup> Duration"

record sidecar_client =
  baseURL :: string
  http_ptr :: nat

type_synonym client_Option = "sidecar_client \<times> http_store \<Rightarrow> sidecar_client \<times> http_store"

definition WithHTTPClient :: "nat option \<Rightarrow> client_Option" where
  "WithHTTPClient hc ch = (case hc of None \<Rightarrow> ch | Some p \<Rightarrow> ((fst ch)\<lparr>http_ptr := p\<rparr>, snd ch))"

definition WithTimeout :: "Duration \<Rightarrow> client_Option" where
  "WithTimeout d ch = (fst ch, (snd ch)(http_ptr (fst ch) \<mapsto> d))"

text \<open>\<open>fresh\<close> is the address of the client that \<open>New\<close> allocates.\<close>

definition sidecarclient_New :: "nat \<Rightarrow> string \<Rightarrow> client_Option list \<Rightarrow> http_store \<Rightarrow> sidecar_client \<times> http_store" where
  "sidecarclient_New fresh url opts h =
     fold (\<lambda>opt ch. opt ch) opts (\<lparr>baseURL = TrimRight url ''/'', http_ptr = fresh\<rparr>, h(fresh \<mapsto> defaultTimeout))"

text \<open>The URL of a request, as \<open>do\<close> and \<open>probeServing\<close> build it.\<close>

definition request_url :: "sidecar_client \<Rightarrow> string \<Rightarrow> string" where
  "request_url c path = baseURL c @ path"

definition SidecarError_Error :: "string \<Rightarrow> string \<Rightarrow> int \<Rightarrow> string" where
  "SidecarError_Error code message code_http =
     ''sidecar: '' @ message @ '' (code='' @ code @ '', http='' @ fmt_d code_http @ '')''"

section \<open>handler.go: NewHandler\<close>

definition handler_WithNow :: "('w \<Rightarrow> Time) option \<Rightarrow> 'w Handler \<Rightarrow> 'w Handler" where
  "handler_WithNow clock h = (case clock of None \<Rightarrow> h | Some f \<Rightarrow> h\<lparr>now := f\<rparr>)"

definition WithToU :: "TimedWindow \<Rightarrow> bool \<Rightarrow> 'w Handler \<Rightarrow> 'w Handler" where
  "WithToU window asserted h = h\<lparr>tou := window, assertToU := asserted\<rparr>"

text \<open>\<open>wall\<close> is \<open>time.Now\<close>; the zero window is not asserted.\<close>

definition NewHandler ::
  "('w \<Rightarrow> Time) \<Rightarrow> 'w HoldingReadWriter \<Rightarrow> bool \<Rightarrow> ('w \<Rightarrow> 'w) option \<Rightarrow> ('w Handler \<Rightarrow> 'w Handler) list \<Rightarrow> 'w Handler" where
  "NewHandler wall bus on refreshed opts =
     fold (\<lambda>opt h. opt h) opts
       \<lparr>rw = bus, enabled = on, refresh = refreshed, now = wall, tou = TimedWindow_zero, assertToU = False\<rparr>"

section \<open>handler.go: logGuard\<close>

datatype slog_Level = LevelDebug | LevelInfo | LevelWarn | LevelError

datatype log_attr = AttrString string | AttrInt int | AttrWord u16 | AttrBool bool | AttrError go_error

record log_line =
  log_level :: slog_Level
  log_msg :: string
  log_attrs :: "(string \<times> log_attr) list"

definition logGuard :: "string \<Rightarrow> int \<Rightarrow> u16 \<Rightarrow> Result \<Rightarrow> go_error option \<Rightarrow> (string \<times> log_attr) list \<Rightarrow> log_line" where
  "logGuard key addr v res err extra =
     (case err of
        Some er \<Rightarrow>
          if Wrote res then
            \<lparr>log_level = LevelError, log_msg = ''controls: write did not confirm'',
             log_attrs = [(''key'', AttrString key), (''addr'', AttrInt addr), (''desired'', AttrWord v),
                          (''reread'', AttrWord (New res)), (''err'', AttrError er)] @ extra\<rparr>
          else
            \<lparr>log_level = LevelError, log_msg = ''controls: guarded write failed'',
             log_attrs = [(''key'', AttrString key), (''addr'', AttrInt addr), (''desired'', AttrWord v), (''err'', AttrError er)] @ extra\<rparr>
      | None \<Rightarrow>
          if Skipped res then
            \<lparr>log_level = LevelInfo, log_msg = ''controls: write skipped (no-op)'',
             log_attrs = [(''key'', AttrString key), (''addr'', AttrInt addr), (''value'', AttrWord v)] @ extra\<rparr>
          else
            \<lparr>log_level = LevelInfo, log_msg = ''controls: write confirmed'',
             log_attrs = [(''key'', AttrString key), (''addr'', AttrInt addr), (''old'', AttrWord (Old res)), (''new'', AttrWord (New res))] @ extra\<rparr>)"

section \<open>The constructors\<close>

lemma TrimRight_last: "TrimRight s ''/'' = [] \<or> last (TrimRight s ''/'') \<noteq> CHR ''/''"
proof (cases "dropWhile (\<lambda>c. c \<in> set ''/'') (rev s)")
  case (Cons c cs)
  then have "c \<noteq> CHR ''/''" by (metis dropWhile_eq_Cons_conv list.set_intros(1))
  then show ?thesis using Cons by (simp add: TrimRight_def)
qed (simp add: TrimRight_def)

text \<open>A base URL with trailing slashes asks for the same paths as one without.\<close>

lemma TrimRight_slashes: "TrimRight (s @ replicate n (CHR ''/'')) ''/'' = TrimRight s ''/''"
proof -
  have "dropWhile (\<lambda>c. c = CHR ''/'') (replicate n (CHR ''/'') @ t) = dropWhile (\<lambda>c. c = CHR ''/'') t" for t
    by (induction n) simp_all
  then show ?thesis by (simp add: TrimRight_def)
qed

text \<open>The handler of \<open>runServe\<close> is the one \<open>NewHandler\<close> returns for the options it passes.\<close>

lemma serve_handler_New:
  "serve_handler e =
     NewHandler wall (sidecar_Holding (NewLocking (env_client e))) True (Some (serve_refresh e))
       [handler_WithNow (Some (serve_now e)), WithToU (env_tou e) (env_assertToU e)]"
  by (simp add: serve_handler_def NewHandler_def handler_WithNow_def WithToU_def)

text \<open>
  \<open>WithTimeout\<close> is not ignored after \<open>WithHTTPClient\<close>: it sets the timeout of the caller's own client,
  for every other user of it; before \<open>WithHTTPClient\<close> it is lost.
\<close>

theorem timeout_option_order:
  assumes "p \<noteq> fresh" "h p = Some t"
  shows "(snd (sidecarclient_New fresh url [WithHTTPClient (Some p), WithTimeout d] h)) p = Some d \<and>
    (snd (sidecarclient_New fresh url [WithTimeout d, WithHTTPClient (Some p)] h)) p = Some t \<and>
    http_ptr (fst (sidecarclient_New fresh url [WithTimeout d, WithHTTPClient (Some p)] h)) = p"
  using assms by (simp add: sidecarclient_New_def WithHTTPClient_def WithTimeout_def)

section \<open>The log of a guarded write\<close>

context holding_bus
begin

lemma guard_logged:
  assumes "Guard bus a v w = ((res, err), w')" "a \<in> stable"
  shows "log_msg (logGuard key a v res err extra) = ''controls: write confirmed'' \<longleftrightarrow> err = None \<and> wear w' = wear w @ [(a, v)]"
    "log_msg (logGuard key a v res err extra) = ''controls: write skipped (no-op)'' \<longleftrightarrow> err = None \<and> wear w' = wear w"
    "log_level (logGuard key a v res err extra) = LevelInfo \<longleftrightarrow> err = None"
    "log_level (logGuard key a v res err extra) = LevelInfo \<Longrightarrow> holding w' a = v"
proof -
  have wrote: "err = None \<longrightarrow> (Skipped res \<longleftrightarrow> wear w' = wear w) \<and> (\<not> Skipped res \<longleftrightarrow> wear w' = wear w @ [(a, v)])"
    using assms(1)
  proof (cases rule: Guard_cases)
    case (written wr wm)
    have "\<not> Skipped res"
      using written(1) assms(1) by (auto simp: Guard_def Let_def split: sum.splits if_splits prod.splits)
    moreover have "wear w' = wear w @ [(a, v)]" using written write_ok [OF written(2)] by simp
    ultimately show ?thesis by simp
  qed auto
  show "log_msg (logGuard key a v res err extra) = ''controls: write confirmed'' \<longleftrightarrow> err = None \<and> wear w' = wear w @ [(a, v)]"
    "log_msg (logGuard key a v res err extra) = ''controls: write skipped (no-op)'' \<longleftrightarrow> err = None \<and> wear w' = wear w"
    using wrote by (auto simp: logGuard_def split: option.splits)
  show level: "log_level (logGuard key a v res err extra) = LevelInfo \<longleftrightarrow> err = None"
    by (auto simp: logGuard_def split: option.splits)
  show "holding w' a = v" if "log_level (logGuard key a v res err extra) = LevelInfo"
    using Guard_ok [of a v w res w'] assms that level by simp
qed

end

section \<open>Properties\<close>

text \<open>
  The log of a guarded write tells the truth: it says confirmed exactly when there is no error and
  one frame was sent, skipped exactly when there is no error and none was, and at information level
  the register holds the desired value.
\<close>

theorem guard_log_truthful:
  assumes "holding_bus bus S holding wear" "Guard bus addr v w = ((res, err), w')" "addr \<in> S"
  shows "(log_msg (logGuard key addr v res err extra) = ''controls: write confirmed'' \<longleftrightarrow> err = None \<and> wear w' = wear w @ [(addr, v)]) \<and>
    (log_msg (logGuard key addr v res err extra) = ''controls: write skipped (no-op)'' \<longleftrightarrow> err = None \<and> wear w' = wear w) \<and>
    (log_level (logGuard key addr v res err extra) = LevelInfo \<longrightarrow> holding w' addr = v)"
  using holding_bus.guard_logged [OF assms] by blast

theorem guard_log_truthful_witness:
  "log_msg (logGuard keyOptimalIncome 43110 35
     (fst (fst (Guard mock_client 43110 35 \<lparr>transport = \<lparr>mock_regs = [43110 \<mapsto> 35], taken = []\<rparr>, fates = []\<rparr>)))
     (snd (fst (Guard mock_client 43110 35 \<lparr>transport = \<lparr>mock_regs = [43110 \<mapsto> 35], taken = []\<rparr>, fates = []\<rparr>))) []) =
   ''controls: write skipped (no-op)''"
proof -
  let ?w = "\<lparr>transport = \<lparr>mock_regs = [43110 \<mapsto> 35], taken = []\<rparr>, fates = []\<rparr>"
  obtain res err w' where G: "Guard mock_client 43110 35 ?w = ((res, err), w')" by (metis prod.exhaust)
  have up: "mock_up ?w" by (simp add: mock_up_def)
  have "mock_holding ?w 43110 = 35" by (simp add: mock_holding_def)
  then have "err = None \<and> mock_wear w' = mock_wear ?w"
    using mock.Guard_up [OF up, of 43110 35] mock.Guard_wear(2) [OF G] G by auto
  with guard_log_truthful [OF mock.holding_bus_axioms G, of keyOptimalIncome "[]"] G show ?thesis by simp
qed

text \<open>
  A confirm read that fails in transport is logged as a write that did not confirm, with a register
  value of zero that nobody read.
\<close>

theorem lost_confirm_logged_as_mismatch:
  assumes "readOne bus addr w = (Inr cur, w1)" "cur \<noteq> v" "WriteHolding bus addr v w1 = (Inr (), w2)" "readOne bus addr w2 = (Inl er, w3)"
  shows "log_msg (logGuard key addr v (fst (fst (Guard bus addr v w))) (snd (fst (Guard bus addr v w))) []) = ''controls: write did not confirm'' \<and>
    (''reread'', AttrWord 0) \<in> set (log_attrs (logGuard key addr v (fst (fst (Guard bus addr v w))) (snd (fst (Guard bus addr v w))) []))"
  using assms by (simp add: Guard_def logGuard_def)

end
