(* ===== verification/Serve.thy ===== *)
theory Serve
  imports Lifecycle Config Setup
begin

text \<open>
  \<open>runServe\<close> of \<open>internal/cmd/serve.go\<close> from the configuration to the running parts, the logger it
  builds (\<open>internal/cmd/root.go\<close>) and the exit code of the process (\<open>cmd/main.go\<close>). The startup is one
  function: it loads the configuration, waits for the sidecar, connects to the broker and parses the
  tariff window, each step with its early return, and ends with the environment the parts run in. With
  a broker the threads of \<open>Lifecycle\<close> take over from there; without one the scheduler is the only thread
  that acts, and the whole run is a function too.
\<close>

section \<open>root.go: newLogger\<close>

datatype slog_Handler = TextHandler slog_Level | JSONHandler slog_Level

definition newLogger :: "string \<Rightarrow> string \<Rightarrow> slog_Handler" where
  "newLogger level form =
     (let lvl = (if level = ''debug'' then LevelDebug
                 else if level = ''warn'' then LevelWarn
                 else if level = ''error'' then LevelError
                 else LevelInfo)
      in if form = ''text'' then TextHandler lvl else JSONHandler lvl)"

section \<open>serve.go: the startup\<close>

text \<open>
  What \<open>runServe\<close> takes from outside: the environment variables, \<open>url.Parse\<close>, HTTP requests to a base URL,
  the MQTT library, the clock, the contexts - \<open>pf_wait\<close> selects between a timer and the end of the run
  context, \<open>pf_startup_wait\<close> and \<open>pf_startup_err\<close> belong to the context with the startup timeout - and the
  two conversions Go leaves to the machine and to \<open>encoding/json\<close>.
\<close>

record ('u, 'w) platform =
  pf_environ :: environ
  pf_url :: "string \<Rightarrow> 'u result"
  pf_http :: "string \<Rightarrow> 'w httpDoer"
  pf_newConnection :: "'u ClientConfig \<Rightarrow> 'w \<Rightarrow> go_error option \<times> 'w"
  pf_await :: "'w \<Rightarrow> go_error option \<times> 'w"
  pf_cm :: "'w ConnectionManager"
  pf_local :: location
  pf_now :: "'w \<Rightarrow> Time"
  pf_ctx_Err :: "'w \<Rightarrow> go_error option"
  pf_wait :: "Duration \<Rightarrow> 'w \<Rightarrow> bool \<times> 'w"
  pf_startup_wait :: "Duration \<Rightarrow> 'w \<Rightarrow> bool \<times> 'w"
  pf_startup_err :: "'w \<Rightarrow> go_error"
  pf_num :: "float64 \<Rightarrow> string"
  pf_conv :: "float64 \<Rightarrow> u16"

text \<open>The requests of the client that \<open>New(cfg.SidecarURL)\<close> returns.\<close>

definition serve_http :: "('u, 'w) platform \<Rightarrow> cfg_Config \<Rightarrow> 'w httpDoer" where
  "serve_http pf cfg = pf_http pf (baseURL (fst (sidecarclient_New 0 (SidecarURL cfg) [] Map.empty)))"

definition serve_mqtt_Options :: "cfg_Config \<Rightarrow> Options" where
  "serve_mqtt_Options cfg =
     \<lparr>opt_BrokerURL = MQTTBrokerURL cfg, opt_Username = MQTTUsername cfg, opt_Password = MQTTPassword cfg,
      opt_ClientID = MQTTClientID cfg, opt_AvailabilityTopic = AvailabilityTopic (serve_ha_Config cfg)\<rparr>"

definition serve_env_of :: "('u, 'w) platform \<Rightarrow> cfg_Config \<Rightarrow> TimedWindow \<Rightarrow> bool \<Rightarrow> 'w serve_env" where
  "serve_env_of pf cfg touWindow asserted =
     \<lparr>env_local = pf_local pf,
      env_client = \<lparr>sidecar_ReadInput = Client_ReadInput (serve_http pf cfg), sidecar_Holding = Client (serve_http pf cfg)\<rparr>,
      env_broker = (if MQTTBrokerURL cfg \<noteq> [] then Some (Client_Publish (pf_cm pf)) else None),
      env_now = pf_now pf, env_ctx_Err = pf_ctx_Err pf, env_wait = pf_wait pf, env_num = pf_num pf, env_conv = pf_conv pf,
      env_ha = serve_ha_Config cfg, env_sched = serve_sched_Config cfg, env_controls = cf_ControlsEnabled cfg,
      env_tou = touWindow, env_assertToU = asserted\<rparr>"

text \<open>The errors \<open>runServe\<close> returns, by the text they are wrapped in.\<close>

datatype serve_error =
    ConfigError "go_error list"
  | MqttError go_error
  | TouError go_error
  | ServerError go_error

record 'w started =
  st_cfg :: cfg_Config
  st_env :: "'w serve_env"
  st_client :: "(unit, 'w world) mqtt_Client option"
  st_world :: "'w world"

text \<open>The connection, when a broker is configured; \<open>()\<close> stands for the republish hook.\<close>

definition serve_connect :: "('u, 'w) platform \<Rightarrow> cfg_Config \<Rightarrow> 'w world \<Rightarrow> (unit, 'w world) mqtt_Client option result \<times> 'w world" where
  "serve_connect pf cfg w =
     (if MQTTBrokerURL cfg \<noteq> [] then
        (case Connect (pf_url pf) (\<lambda>cc. on_net (pf_newConnection pf cc)) (on_net (pf_await pf)) (serve_mqtt_Options cfg) (Some ()) w of
           (Inl err, w) \<Rightarrow> (Inl err, w)
         | (Inr mc, w) \<Rightarrow> (Inr (Some mc), w))
      else (Inr None, w))"

text \<open>\<open>None\<close> is a startup wait that does not return.\<close>

definition serve_startup :: "('u, 'w) platform \<Rightarrow> 'w \<Rightarrow> ((serve_error + 'w started) \<times> 'w) option" where
  "serve_startup pf n =
     (case Load (\<lambda>u. case pf_url pf u of Inl err \<Rightarrow> Some err | Inr _ \<Rightarrow> None) (pf_environ pf) of
        Inl errs \<Rightarrow> Some (Inl (ConfigError errs), n)
      | Inr cfg \<Rightarrow>
          (let w = serve_start (serve_server_Config cfg) (pf_now pf n) n in
           case waitForSidecar (serve_http pf cfg) (pf_startup_wait pf) (pf_startup_err pf) (SidecarStartupTimeout cfg) (net w) of
             None \<Rightarrow> None
           | Some n \<Rightarrow>
               (case serve_connect pf cfg (w\<lparr>net := n\<rparr>) of
                  (Inl err, w) \<Rightarrow> Some (Inl (MqttError err), net w)
                | (Inr mc, w) \<Rightarrow>
                    (case ParseToUWindow (TOUWindow cfg) of
                       Inl err \<Rightarrow> Some (Inl (TouError err), net w)
                     | Inr (touWindow, asserted) \<Rightarrow>
                         Some (Inr \<lparr>st_cfg = cfg, st_env = serve_env_of pf cfg touWindow asserted, st_client = mc, st_world = w\<rparr>, net w)))))"

section \<open>serve.go: a run without a broker\<close>

text \<open>
  \<open>ws\<close> is what the scheduler's loop receives until the context is done and \<open>ev\<close> what ends the run; the
  teardown has no MQTT steps and waits for the scheduler before it stops the health server.
\<close>

definition serve_local :: "'w serve_env \<Rightarrow> wakeup list \<Rightarrow> exit_event \<Rightarrow> ('w world \<Rightarrow> go_error option \<times> 'w world) \<Rightarrow> 'w world \<Rightarrow> go_error option \<times> 'w world" where
  "serve_local e ws ev stop w =
     (let w = Run (serve_scheduler e) ws w in
      waitForExit ev (\<lambda>w. w) (teardown_run \<lparr>offline = None, disconnect = None, stopHealth = stop\<rparr>) w)"

definition runServe_local :: "('u, 'w) platform \<Rightarrow> wakeup list \<Rightarrow> exit_event \<Rightarrow> ('w world \<Rightarrow> go_error option \<times> 'w world) \<Rightarrow> 'w \<Rightarrow> (serve_error option \<times> 'w) option" where
  "runServe_local pf ws ev stop n =
     (case serve_startup pf n of
        None \<Rightarrow> None
      | Some (Inl err, n) \<Rightarrow> Some (Some err, n)
      | Some (Inr st, n) \<Rightarrow>
          (let (err, w) = serve_local (st_env st) ws ev stop (st_world st)
           in Some (map_option ServerError err, net w)))"

section \<open>main.go\<close>

definition main_exit :: "'e option \<Rightarrow> int" where
  "main_exit err = (case err of None \<Rightarrow> 0 | Some _ \<Rightarrow> 1)"

section \<open>The startup\<close>

definition serve_load :: "('u, 'w) platform \<Rightarrow> go_error list + cfg_Config" where
  "serve_load pf = Load (\<lambda>u. case pf_url pf u of Inl err \<Rightarrow> Some err | Inr _ \<Rightarrow> None) (pf_environ pf)"

lemma serve_wait_returns:
  assumes "\<And>url. deadline (pf_http pf url) (pf_startup_wait pf) left"
  shows "\<exists>n'. waitForSidecar (serve_http pf cfg) (pf_startup_wait pf) (pf_startup_err pf) timeout n = Some n'"
proof -
  have "0 < sidecarProbeInterval" by (simp add: sidecarProbeInterval_def Millisecond_def)
  from deadline.wait_returns [OF assms this, of "baseURL (fst (sidecarclient_New 0 (SidecarURL cfg) [] Map.empty))" "pf_startup_err pf" n]
  show ?thesis by (auto simp: serve_http_def waitForSidecar_def)
qed

text \<open>The wait over, a configuration that loaded connects or fails to, and nothing else can fail.\<close>

lemma serve_startup_loaded:
  assumes "\<And>url. deadline (pf_http pf url) (pf_startup_wait pf) left" "serve_load pf = Inr cfg"
  obtains (refused) err n' where "serve_startup pf n = Some (Inl (MqttError err), n')" "MQTTBrokerURL cfg \<noteq> []"
  | (started) mc w win asserted where "ParseToUWindow (TOUWindow cfg) = Inr (win, asserted)"
      "serve_startup pf n = Some (Inr \<lparr>st_cfg = cfg, st_env = serve_env_of pf cfg win asserted, st_client = mc, st_world = w\<rparr>, net w)"
      "mc = None \<longleftrightarrow> MQTTBrokerURL cfg = []" "w = (serve_start (serve_server_Config cfg) (pf_now pf n) n)\<lparr>net := net w\<rparr>"
proof -
  note L = assms(2) [unfolded serve_load_def]
  let ?w0 = "serve_start (serve_server_Config cfg) (pf_now pf n) n"
  obtain n1 where W: "waitForSidecar (serve_http pf cfg) (pf_startup_wait pf) (pf_startup_err pf) (SidecarStartupTimeout cfg) (net ?w0) = Some n1"
    using serve_wait_returns [OF assms(1)] by blast
  obtain r w where C: "serve_connect pf cfg (?w0\<lparr>net := n1\<rparr>) = (r, w)" by fastforce
  have only: "w = ?w0\<lparr>net := net w\<rparr>"
    using C by (auto simp: serve_connect_def Connect_def on_net_def Let_def split: if_splits sum.splits option.splits prod.splits)
  have U: "serve_startup pf n =
      (case r of Inl err \<Rightarrow> Some (Inl (MqttError err), net w)
       | Inr mc \<Rightarrow> (case ParseToUWindow (TOUWindow cfg) of
           Inl err \<Rightarrow> Some (Inl (TouError err), net w)
         | Inr (touWindow, asserted) \<Rightarrow>
             Some (Inr \<lparr>st_cfg = cfg, st_env = serve_env_of pf cfg touWindow asserted, st_client = mc, st_world = w\<rparr>, net w)))"
    using W C by (simp add: serve_startup_def L Let_def)
  show ?thesis
  proof (cases r)
    case (Inl err)
    then have "MQTTBrokerURL cfg \<noteq> []" using C by (auto simp: serve_connect_def)
    then show ?thesis using refused U Inl by simp
  next
    case (Inr mc)
    have "is_ok (ParseToUWindow (TOUWindow cfg))" using Load_valid(1) [OF L] by (simp add: valid_config_def)
    then obtain win a where T: "ParseToUWindow (TOUWindow cfg) = Inr (win, a)" by (auto elim!: is_okE)
    have "mc = None \<longleftrightarrow> MQTTBrokerURL cfg = []"
      using C Inr by (auto simp: serve_connect_def split: if_splits sum.splits prod.splits)
    then show ?thesis using started [OF T _ _ only] U Inr T by simp
  qed
qed

lemma serve_startup_invalid: "serve_load pf = Inl errs \<Longrightarrow> serve_startup pf n = Some (Inl (ConfigError errs), n)"
  by (simp add: serve_startup_def serve_load_def)

lemma serve_load_broker: "serve_load pf = Inr cfg \<Longrightarrow> MQTTBrokerURL cfg = Getenv (pf_environ pf) ''MQTT_BROKER_URL''"
  unfolding serve_load_def by (rule Load_valid(2))

lemma serve_load_controls: "serve_load pf = Inr cfg \<Longrightarrow> cf_ControlsEnabled cfg = fst (parseBool (pf_environ pf) ''CONTROLS_ENABLED'' True)"
  unfolding serve_load_def by (rule Load_valid(3))

section \<open>A run of the scheduler\<close>

lemma Run_steps: "(manager_step e holding S)\<^sup>*\<^sup>* w (Run (serve_scheduler e) ws w)"
proof -
  have polled: "(manager_step e holding S)\<^sup>*\<^sup>* w v" if "(manager_step e holding S)\<^sup>*\<^sup>* (poll (serve_scheduler e) w) v" for w v
    using manager_step.polled that by (rule converse_rtranclp_into_rtranclp)
  have "(manager_step e holding S)\<^sup>*\<^sup>* w (Run_loop (serve_scheduler e) ws w)" for w
  proof (induction ws arbitrary: w)
    case (Cons a ws)
    show ?case
    proof (cases a)
      case Tick
      then show ?thesis using polled [OF Cons.IH] by simp
    qed simp
  qed simp
  then show ?thesis unfolding Run_def by (rule polled)
qed

text \<open>The loop ends at the first \<open>Done\<close>, however many wake-ups were to follow.\<close>

lemma Run_ends: "Run s (replicate k Tick @ Done # ws) w = (poll s ^^ Suc k) w"
proof -
  have "Run_loop s (replicate k Tick @ Done # ws) w = (poll s ^^ k) w" for w
    by (induction k arbitrary: w) (simp_all add: funpow_swap1)
  then show ?thesis by (simp add: Run_def funpow_swap1)
qed

section \<open>The mock platform\<close>

text \<open>
  The mock sidecar at every URL and a startup whose deadline is counted down with the world; the run
  clock stands at \<open>t\<close>, and the broker's library takes everything and keeps nothing.
\<close>

definition mock_pf :: "environ \<Rightarrow> Time \<Rightarrow> (string, mock_world \<times> Duration) platform" where
  "mock_pf vars t =
     \<lparr>pf_environ = vars, pf_url = Inr, pf_http = (\<lambda>_. timed_http), pf_newConnection = (\<lambda>_ n. (None, n)), pf_await = (\<lambda>n. (None, n)),
      pf_cm = \<lparr>cm_Publish = (\<lambda>_ _ _ _ n. (None, n)), cm_Subscribe = (\<lambda>_ _ n. (None, n)), cm_Disconnect = (\<lambda>n. (None, n))\<rparr>,
      pf_local = t_loc t, pf_now = (\<lambda>_. t), pf_ctx_Err = (\<lambda>_. None), pf_wait = (\<lambda>_ n. (True, n)),
      pf_startup_wait = timed_wait, pf_startup_err = (\<lambda>_. ErrCanceled), pf_num = (\<lambda>_. ''0''), pf_conv = (\<lambda>_. 0)\<rparr>"

lemma mock_pf_deadline: "deadline (pf_http (mock_pf vars t) url) (pf_startup_wait (mock_pf vars t)) snd"
  using timed.deadline_axioms by (simp add: mock_pf_def)

lemma mock_pf_load: "serve_load (mock_pf vars t) = Load (\<lambda>_. None) vars"
  by (simp add: serve_load_def mock_pf_def)

text \<open>The client over a transport in a part of a larger world.\<close>

lemma Client_do_via:
  "Client_do (\<lambda>m p b. via get put (http m p b)) meth path body dec = via get put (Client_do http meth path body dec)"
  by (rule ext) (simp add: Client_do_def via_def Let_def split: prod.splits sum.splits option.splits)

lemma Client_via:
  "Client_ReadInput (\<lambda>m p b. via get put (http m p b)) a n = via get put (Client_ReadInput http a n)"
  "Client (\<lambda>m p b. via get put (http m p b)) = bus_via get put (Client http)"
proof -
  let ?http = "\<lambda>m p b. via get put (http m p b)"
  have read: "Client_read ?http path a n = via get put (Client_read http path a n)" for path a n
    by (rule ext) (simp add: Client_read_def Client_do_via via_def)
  show "Client_ReadInput ?http a n = via get put (Client_ReadInput http a n)"
    by (rule ext) (simp add: Client_ReadInput_def read via_def Let_def split: prod.splits sum.splits)
  have "Client_ReadHolding ?http = (\<lambda>a n. via get put (Client_ReadHolding http a n))"
    by (intro ext) (simp add: Client_ReadHolding_def read via_def Let_def split: prod.splits sum.splits)
  moreover have "Client_WriteHolding ?http = (\<lambda>a v. via get put (Client_WriteHolding http a v))"
    by (intro ext) (simp add: Client_WriteHolding_def Client_do_via via_def Let_def split: prod.splits sum.splits)
  ultimately show "Client ?http = bus_via get put (Client http)" by (simp add: Client_def bus_via_def)
qed

lemma timed_http_via: "timed_http = (\<lambda>m p b. via fst put_fst (mock_http m p b))"
  by (intro ext) (simp add: timed_http_def via_def split: prod.splits)

interpretation local_plant: plant "bus_via fst put_fst mock_client" UNIV "mock_holding \<circ> fst" "mock_wear \<circ> fst"
  "serve_env_of (mock_pf vars t) cfg win asserted"
  for vars t cfg win asserted
proof -
  let ?e = "serve_env_of (mock_pf vars t) cfg win asserted"
  have http: "serve_http (mock_pf vars t) cfg = (\<lambda>m p b. via fst put_fst (mock_http m p b))"
    by (simp add: serve_http_def mock_pf_def timed_http_via)
  have bus: "sidecar_Holding (env_client ?e) = bus_via fst put_fst mock_client"
    and input: "sidecar_ReadInput (env_client ?e) a n = via fst put_fst (Client_ReadInput mock_http a n)" for a n
    by (simp_all add: serve_env_of_def http Client_via)
  have rest: "env_wait ?e = (\<lambda>_ n. (True, n))"
    and broker: "env_broker ?e = Some p \<Longrightarrow> p tp m rt w = (r, w') \<Longrightarrow> w' = w" for p tp m rt w r w'
    by (auto simp: serve_env_of_def mock_pf_def Client_Publish_def split: if_splits)
  have "faithful_bus (bus_via fst put_fst mock_client) UNIV (mock_holding \<circ> fst) (mock_wear \<circ> fst)"
    by (rule bus_via_faithful [OF _ mock.faithful_bus_axioms]) simp
  then show "plant (bus_via fst put_fst mock_client) UNIV (mock_holding \<circ> fst) (mock_wear \<circ> fst) ?e"
    by (intro plant.intro plant_axioms.intro)
      (auto simp: bus input rest elim!: viaE dest: ReadInput_frame broker)
qed

text \<open>A startup leaves the registers of the mock alone.\<close>

lemma WaitUntilServing_keeps:
  assumes "WaitUntilServing http sleep ctxErr every w = Some y"
  shows "(\<forall>w r w'. http ''GET'' ''/health'' None w = (r, w') \<longrightarrow> f w' = f w) \<longrightarrow>
    (\<forall>d w b w'. sleep d w = (b, w') \<longrightarrow> f w' = f w) \<longrightarrow> f (snd y) = f w"
proof (rule WaitUntilServing.raw_induct [OF _ assms])
  fix rec :: "'a httpDoer \<Rightarrow> (Duration \<Rightarrow> 'a \<Rightarrow> bool \<times> 'a) \<Rightarrow> ('a \<Rightarrow> go_error) \<Rightarrow> Duration \<Rightarrow> 'a \<Rightarrow> ((go_error \<times> go_error) option \<times> 'a) option"
  fix http :: "'a httpDoer" and sleep :: "Duration \<Rightarrow> 'a \<Rightarrow> bool \<times> 'a" and ctxErr every w y
  assume IH: "\<And>http sleep ctxErr every w y. rec http sleep ctxErr every w = Some y \<Longrightarrow>
      (\<forall>w r w'. http ''GET'' ''/health'' None w = (r, w') \<longrightarrow> f w' = f w) \<longrightarrow>
      (\<forall>d w b w'. sleep d w = (b, w') \<longrightarrow> f w' = f w) \<longrightarrow> f (snd y) = f w"
    and body: "(case probeServing http w of (None, w) \<Rightarrow> Some (None, w)
      | (Some lastErr, w) \<Rightarrow> (case sleep every w of
          (fired, w) \<Rightarrow> if \<not> fired then Some (Some (ctxErr w, lastErr), w) else rec http sleep ctxErr every w)) = Some y"
  show "(\<forall>w r w'. http ''GET'' ''/health'' None w = (r, w') \<longrightarrow> f w' = f w) \<longrightarrow>
      (\<forall>d w b w'. sleep d w = (b, w') \<longrightarrow> f w' = f w) \<longrightarrow> f (snd y) = f w"
  proof (intro impI)
    assume H: "\<forall>w r w'. http ''GET'' ''/health'' None w = (r, w') \<longrightarrow> f w' = f w" "\<forall>d w b w'. sleep d w = (b, w') \<longrightarrow> f w' = f w"
    obtain e w1 where P: "probeServing http w = (e, w1)" by fastforce
    obtain b w2 where W: "sleep every w1 = (b, w2)" by fastforce
    have "f w1 = f w" using P H(1) by (auto simp: probeServing_def split: prod.splits sum.splits if_splits)
    moreover have "f w2 = f w1" using W H(2) by blast
    moreover have "f (snd y) = f w2" if "rec http sleep ctxErr every w2 = Some y" using IH [OF that] H by blast
    ultimately show "f (snd y) = f w" using body P W by (auto split: option.splits if_splits)
  qed
qed

lemma mock_wait_keeps:
  assumes "waitForSidecar (serve_http (mock_pf vars t) cfg) (pf_startup_wait (mock_pf vars t)) ctxErr timeout n = Some n'"
  shows "mock_holding (fst n') = mock_holding (fst n)"
proof -
  have probe: "mock_holding (fst w') = mock_holding (fst w)" if "timed_http ''GET'' ''/health'' None w = (r, w')" for w r w'
  proof -
    from that obtain m where "mock_http ''GET'' ''/health'' None (fst w) = (r, m)" "w' = (m, snd w)"
      by (auto simp: timed_http_def split: prod.splits)
    then show ?thesis using mock_tr.http_quiet by (fastforce simp: mock_holding_bank)
  qed
  have "pf_startup_wait (mock_pf vars t) = timed_wait" "serve_http (mock_pf vars t) cfg = timed_http"
    by (simp_all add: serve_http_def mock_pf_def)
  with assms consider "n' = n" | y where "WaitUntilServing timed_http timed_wait ctxErr sidecarProbeInterval n = Some y" "n' = snd y"
    by (auto simp: waitForSidecar_def split: if_splits)
  then show ?thesis
  proof cases
    case 2
    have "mock_holding (fst w') = mock_holding (fst w)" if "timed_wait d w = (b, w')" for d w b w'
      using that by (auto simp: timed_wait_def split: if_splits)
    with WaitUntilServing_keeps [OF 2(1), of "\<lambda>w. mock_holding (fst w)"] probe 2(2) show ?thesis by blast
  qed simp
qed

lemma startup_bank:
  assumes "serve_startup (mock_pf vars t) n = Some (Inr st, n')"
  shows "mock_holding (fst n') = mock_holding (fst n)"
proof -
  let ?pf = "mock_pf vars t"
  from assms obtain cfg n1 where W: "waitForSidecar (serve_http ?pf cfg) (pf_startup_wait ?pf) (pf_startup_err ?pf) (SidecarStartupTimeout cfg) n = Some n1"
      "n' = net (snd (serve_connect ?pf cfg ((serve_start (serve_server_Config cfg) (pf_now ?pf n) n)\<lparr>net := n1\<rparr>)))"
    by (auto simp: serve_startup_def Let_def serve_start_def split: sum.splits option.splits prod.splits)
  have "net (snd (serve_connect ?pf cfg w)) = net w" for w
    by (simp add: serve_connect_def Connect_def on_net_def mock_pf_def Let_def split: sum.splits prod.splits option.splits)
  then have "n' = n1" using W(2) by simp
  then show ?thesis using mock_wait_keeps [OF W(1)] by simp
qed

text \<open>A mock inverter that refuses the first probe, thirty seconds before the startup deadline.\<close>

definition mock_boot :: "mock_world \<times> Duration" where
  "mock_boot = (\<lparr>transport = \<lparr>mock_regs = [43110 \<mapsto> 35, 43163 \<mapsto> 9], taken = []\<rparr>, fates = [Refused]\<rparr>, 30 * Second)"

lemma mock_pf_loads: "\<exists>c. serve_load (mock_pf (mock_environ ''60s'' '''') t) = Inr c \<and> MQTTBrokerURL c = []"
proof -
  have "ParseDuration ''60s'' = Inr (60 * Second)" by code_simp
  from Load_mock [OF this, of "''''"] obtain c where L: "serve_load (mock_pf (mock_environ ''60s'' '''') t) = Inr c"
    unfolding mock_pf_load by (auto simp: MinPollInterval_def Second_def)
  then show ?thesis using serve_load_broker [OF L] by (simp add: mock_pf_def mock_environ_def Getenv_def)
qed

section \<open>Properties\<close>



text \<open>
  Without a broker the process comes to an end with the exit code of its run. It is zero exactly
  when the configuration loaded and the run ended with its context, or with a health server that
  stopped without an error; a configuration that does not load costs exit code one and touches nothing.
\<close>

theorem local_exit_code:
  assumes "\<And>url. deadline (pf_http pf url) (pf_startup_wait pf) left"
    and "Getenv (pf_environ pf) ''MQTT_BROKER_URL'' = []"
  shows "\<exists>err n'. runServe_local pf ws ev stop n = Some (err, n') \<and>
    (main_exit err = 0 \<longleftrightarrow> \<not> isl (serve_load pf) \<and> (ev = CtxDone \<or> ev = HealthErr None)) \<and>
    (main_exit err = 0 \<or> main_exit err = 1) \<and> (isl (serve_load pf) \<longrightarrow> n' = n)"
proof (cases "serve_load pf")
  case (Inl errs)
  then show ?thesis by (simp add: runServe_local_def serve_startup_invalid main_exit_def)
next
  case (Inr cfg)
  have B: "MQTTBrokerURL cfg = []" using serve_load_broker [OF Inr] assms(2) by simp
  have "fst (serve_local e ws ev stop w) = (case ev of HealthErr x \<Rightarrow> healthExitError x | CtxDone \<Rightarrow> None)" for e w
    by (simp add: serve_local_def waitForExit_def Let_def split: exit_event.split)
  then have E: "main_exit (map_option ServerError (fst (serve_local e ws ev stop w))) =
      (if ev = CtxDone \<or> ev = HealthErr None then 0 else 1)" for e w
    by (simp add: main_exit_def healthExitError_def split: exit_event.split option.split)
  show ?thesis
  proof (rule serve_startup_loaded [OF assms(1) Inr, of n])
    fix mc w win a
    assume "serve_startup pf n = Some (Inr \<lparr>st_cfg = cfg, st_env = serve_env_of pf cfg win a, st_client = mc, st_world = w\<rparr>, net w)"
    then show ?thesis using E [of "serve_env_of pf cfg win a" w] Inr
      by (cases "serve_local (serve_env_of pf cfg win a) ws ev stop w") (simp add: runServe_local_def split: if_splits)
  qed (simp add: B)
qed

theorem local_exit_code_witness:
  "\<exists>err n'. runServe_local (mock_pf (mock_environ ''60s'' '''') Time_zero) [Tick, Done] CtxDone (Pair None) mock_boot = Some (err, n') \<and>
     main_exit err = 0"
proof -
  have "Getenv (pf_environ (mock_pf (mock_environ ''60s'' '''') Time_zero)) ''MQTT_BROKER_URL'' = []"
    by (simp add: mock_pf_def mock_environ_def Getenv_def)
  from local_exit_code [OF mock_pf_deadline this, of "[Tick, Done]" CtxDone "Pair None" mock_boot] mock_pf_loads [of Time_zero]
  show ?thesis by auto
qed

text \<open>
  A whole run against the mock sidecar, from the environment variables to the teardown, never
  leaves a slot with both directions on. Whatever the variables say and whichever way the run ends, it
  comes back, and if no slot was charging and discharging at once in the bank the process found, none
  is in the bank it leaves.
\<close>

theorem local_run_never_both:
  assumes "no_slot_both (mock_holding (fst n))" "Getenv vars ''MQTT_BROKER_URL'' = []"
    and "\<And>w. net (snd (stop w)) = net w"
  shows "\<exists>err n'. runServe_local (mock_pf vars t) ws ev stop n = Some (err, n') \<and> no_slot_both (mock_holding (fst n'))"
proof (cases "serve_load (mock_pf vars t)")
  case (Inl errs)
  then show ?thesis using assms(1) by (simp add: runServe_local_def serve_startup_invalid)
next
  case (Inr cfg)
  have B: "MQTTBrokerURL cfg = []" using serve_load_broker [OF Inr] assms(2) by (simp add: mock_pf_def)
  show ?thesis
  proof (rule serve_startup_loaded [OF mock_pf_deadline Inr, of n])
    fix mc w win a
    let ?e = "serve_env_of (mock_pf vars t) cfg win a"
    assume S: "serve_startup (mock_pf vars t) n = Some (Inr \<lparr>st_cfg = cfg, st_env = ?e, st_client = mc, st_world = w\<rparr>, net w)"
    have "no_slot_both (mock_holding (fst (net w)))" using startup_bank [OF S] assms(1) by simp
    then have "no_slot_both ((mock_holding \<circ> fst) (net (Run (serve_scheduler ?e) ws w)))"
      by (intro local_plant.manager_no_slot_both [OF Run_steps]) simp
    moreover have "net (snd (serve_local ?e ws ev stop w)) = net (Run (serve_scheduler ?e) ws w)"
      by (simp add: serve_local_def waitForExit_def teardown_run_def assms(3) Let_def split: exit_event.split)
    ultimately show ?thesis using S by (cases "serve_local ?e ws ev stop w") (simp add: runServe_local_def)
  qed (simp add: B)
qed

theorem local_run_never_both_witness:
  "\<exists>err n'. runServe_local (mock_pf (mock_environ ''60s'' '''') Time_zero) [Tick, Done] CtxDone (Pair None) mock_boot = Some (err, n') \<and>
     no_slot_both (mock_holding (fst n'))"
proof -
  have "no_slot_both (mock_holding (fst mock_boot))" by code_simp
  moreover have "Getenv (mock_environ ''60s'' '''') ''MQTT_BROKER_URL'' = []" by (simp add: mock_environ_def Getenv_def)
  ultimately show ?thesis by (rule local_run_never_both) simp
qed

end
