(* ===== verification/ReadOnly.thy ===== *)
theory ReadOnly
  imports Lifecycle
begin

text \<open>
  What the threads of the process may write (\<open>internal/cmd/serve.go\<close>): with \<open>CONTROLS_ENABLED=false\<close> nothing
  at all, and once the scheduler has drained nothing but what a command asks for. The contract of the
  outside is that of \<open>plant\<close>, with the session calls of the MQTT library and the stop of the health
  server added: they leave the inverter alone.
\<close>

section \<open>Polls without controls\<close>

context plant
begin

lemma poll_reads_only:
  assumes "\<not> env_controls e"
  shows "wear (net (poll (serve_scheduler e) w)) = wear (net w)"
    "\<forall>b \<in> stable. holding (net (poll (serve_scheduler e) w)) b = holding (net w) b"
proof -
  have "wear (net (poll (serve_scheduler e) w)) = wear (net w) \<and> (\<forall>b \<in> stable. holding (net (poll (serve_scheduler e) w)) b = holding (net w) b)"
  proof (cases rule: poll_cases [of e w])
    case (failed x er w1)
    then show ?thesis using readWithRetry_quiet(1) [OF failed(1)] by (auto simp: quiet_def)
  next
    case (unpublished tel sp w1 er w2)
    then show ?thesis using published_world(1,2) [OF unpublished(1,2)] by auto
  next
    case (published tel sp w1 w2)
    then show ?thesis
      using published_world(1,2) [OF published(1,2)] assms by (auto simp: maybeSyncRTC_def maybeReconcile_def)
  qed
  then show "wear (net (poll (serve_scheduler e) w)) = wear (net w)"
    "\<forall>b \<in> stable. holding (net (poll (serve_scheduler e) w)) b = holding (net w) b" by simp_all
qed

end

section \<open>The outside of a process\<close>

locale process_plant = plant bus stable holding wear e
  for bus :: "'w HoldingReadWriter" and stable holding wear e +
  fixes cm :: "'w ConnectionManager" and stop :: "'w world \<Rightarrow> go_error option \<times> 'w world"
  assumes subscribe_quiet: "cm_Subscribe cm t q n = (r, n') \<Longrightarrow> wear n' = wear n \<and> (\<forall>b \<in> stable. holding n' b = holding n b)"
    and disconnect_quiet: "cm_Disconnect cm n = (r, n') \<Longrightarrow> wear n' = wear n \<and> (\<forall>b \<in> stable. holding n' b = holding n b)"
    and stop_quiet: "stop w = (r, w') \<Longrightarrow> wear (net w') = wear (net w) \<and> (\<forall>b \<in> stable. holding (net w') b = holding (net w) b)"
begin

text \<open>The inverter is as it was.\<close>

definition untouched :: "'w world \<Rightarrow> 'w world \<Rightarrow> bool" where
  "untouched w w' \<longleftrightarrow> wear (net w') = wear (net w) \<and> (\<forall>b \<in> stable. holding (net w') b = holding (net w) b)"

lemma untouched_refl [simp]: "untouched w w"
  by (simp add: untouched_def)

lemma untouched_trans: "untouched w w1 \<Longrightarrow> untouched w1 w2 \<Longrightarrow> untouched w w2"
  by (simp add: untouched_def)

lemma quiet_untouched: "quiet w w' \<Longrightarrow> untouched w w'"
  by (simp add: quiet_def untouched_def)

lemma on_net_untouched:
  assumes "\<And>n r n'. f n = (r, n') \<Longrightarrow> wear n' = wear n \<and> (\<forall>b \<in> stable. holding n' b = holding n b)"
  shows "untouched w (snd (on_net f w))"
  using assms by (auto simp: untouched_def on_net_def Let_def split: prod.splits)

lemma subscribe_untouched: "untouched w (snd (on_net (Client_Subscribe cm t) w))"
  by (rule on_net_untouched) (auto simp: Client_Subscribe_def split: prod.splits option.splits dest: subscribe_quiet)

lemma disconnect_untouched: "untouched w (snd (on_net (cm_Disconnect cm) w))"
  by (rule on_net_untouched) (rule disconnect_quiet)

section \<open>Publishing\<close>

lemma loop_untouched: "untouched w (snd (publish_loop ctx (serve_pub e) msgs w))"
proof (induction msgs arbitrary: w)
  case (Cons m msgs)
  obtain r w1 where P: "serve_pub e (Topic m) (Payload m) True w = (r, w1)" by fastforce
  have "untouched w w1" using serve_pub_quiet [OF P] quiet_untouched by blast
  with Cons.IH [of w1] P show ?case by (cases r) (auto intro: untouched_trans)
qed simp

lemma service_untouched:
  "untouched w (snd (PublishDiscovery (serve_svc e) w))" "untouched w (snd (PublishDiscoveryRemovals (serve_svc e) w))"
  "untouched w (snd (PublishAvailability (serve_svc e) b w))" "untouched w (snd (Service_PublishState (serve_svc e) tel sp w))"
proof -
  have svc: "pub (serve_svc e) = serve_pub e" by (simp add: serve_svc_def Service_New_def)
  have pub: "untouched w w'" if "serve_pub e t m r w = (er, w')" for t m r er w'
    using serve_pub_quiet [OF that] quiet_untouched by blast
  show "untouched w (snd (PublishDiscovery (serve_svc e) w))" "untouched w (snd (PublishDiscoveryRemovals (serve_svc e) w))"
    by (auto simp: PublishDiscovery_def PublishDiscoveryRemovals_def svc loop_untouched split: sum.splits)
  show "untouched w (snd (PublishAvailability (serve_svc e) b w))"
    by (auto simp: PublishAvailability_def svc Let_def split: prod.splits option.splits dest: pub)
  show "untouched w (snd (Service_PublishState (serve_svc e) tel sp w))"
    by (auto simp: Service_PublishState_def svc Let_def split: sum.splits prod.splits option.splits dest: pub)
qed

section \<open>The threads\<close>

abbreviation threads :: "'w world wiring" where
  "threads \<equiv> serve_wiring e cm stop"

lemma poll_untouched: "\<not> env_controls e \<Longrightarrow> untouched w (poll (serve_scheduler e) w)"
  using poll_reads_only by (simp add: untouched_def)

lemma call_untouched: "untouched (env s) (env (call_step threads (serve_svc e) c s))"
  by (cases c)
    (simp_all add: call_step_def serve_wiring_def Let_def case_prod_unfold service_untouched subscribe_untouched)

text \<open>What the threads hold is what \<open>runServe\<close> gave them.\<close>

fun pass_wired :: "'w world pass \<Rightarrow> bool" where
  "pass_wired Entered \<longleftrightarrow> True"
| "pass_wired (Calls svc cs) \<longleftrightarrow> svc = serve_svc e"

definition wired :: "'w world process \<Rightarrow> bool" where
  "wired s \<longleftrightarrow>
     (case svcPtr s of None \<Rightarrow> True | Some svc \<Rightarrow> svc = serve_svc e) \<and>
     list_all pass_wired (hooks s) \<and>
     (case stage s of Announcing p \<Rightarrow> pass_wired p | _ \<Rightarrow> True) \<and>
     (onMsg (client s) = None \<or> onMsg (client s) = wire_onMsg threads)"

lemma wired_start [simp]: "wired (process_start w)"
  by (simp add: wired_def process_start_def)

lemma pass_untouched:
  assumes "pass_step threads p s = (q, s')" "pass_wired p" "wired s"
  shows "untouched (env s) (env s')" "case q of None \<Rightarrow> True | Some p' \<Rightarrow> pass_wired p'" "wired s'"
proof -
  show "untouched (env s) (env s')" "case q of None \<Rightarrow> True | Some p' \<Rightarrow> pass_wired p'"
    using assms call_untouched by (auto simp: pass_step_def wired_def split: pass.splits option.splits list.splits)
  show "wired s'" using assms(3) pass_step_fields [OF assms(1)] by (simp add: wired_def)
qed

lemma process_step_writes:
  assumes "process_step threads s s'" "wired s"
  shows "wired s'"
    "untouched (env s) (env s') \<or>
     env_controls e \<and> (stage s = Serving \<or> stage s = Exiting) \<and> env s' = poll (serve_scheduler e) (env s) \<or>
     env_controls e \<and> (\<exists>topic payload. env s' = ApplyCommand (serve_scheduler e) topic payload (env s))"
proof -
  let ?T = "untouched (env s) (env s') \<or>
     env_controls e \<and> (stage s = Serving \<or> stage s = Exiting) \<and> env s' = poll (serve_scheduler e) (env s) \<or>
     env_controls e \<and> (\<exists>topic payload. env s' = ApplyCommand (serve_scheduler e) topic payload (env s))"
  have "wired s' \<and> ?T"
    using assms(1)
  proof (cases rule: process_step.cases)
    case (connection_up c h)
    from connection_up(3) show ?thesis
      by (cases rule: fireOnUp_cases) (use assms(2) connection_up(1) in \<open>auto simp: wired_def\<close>)
  next
    case (message topic payload)
    then show ?thesis
      using assms(2) by (auto simp: wired_def fireOnMessage_def serve_wiring_def split: option.splits if_splits)
  next
    case polled
    then show ?thesis
      using assms(2) poll_untouched [of "env s"] by (auto simp: wired_def serve_wiring_def)
  next
    case (hook_moves hs p hs' p' t)
    then show ?thesis using pass_untouched [OF hook_moves(3) _ assms(2)] assms(2) by (auto simp: wired_def)
  next
    case (hook_returns hs p hs' t)
    then show ?thesis using pass_untouched [OF hook_returns(3) _ assms(2)] assms(2) by (auto simp: wired_def hook_Done_def)
  next
    case (announcing p q t)
    then show ?thesis using pass_untouched [OF announcing(3) _ assms(2)] assms(2) by (auto simp: wired_def split: option.splits)
  next
    case offline_sent
    then show ?thesis
      using assms(2) service_untouched(3) by (auto simp: wired_def split: option.splits)
  next
    case disconnects
    then show ?thesis
      using assms(2) disconnect_untouched by (auto simp: wired_def serve_wiring_def)
  next
    case stops
    have "untouched (env s) (snd (stop (env s)))" using stop_quiet by (metis prod.collapse untouched_def)
    with stops show ?thesis using assms(2) by (auto simp: wired_def serve_wiring_def)
  qed (use assms(2) in \<open>auto simp: wired_def SetOnMessage_def drainHook_close_def serve_wiring_def\<close>)
  then show "wired s'" ?T by simp_all
qed

lemma process_wired: "(process_step threads)\<^sup>*\<^sup>* (process_start w) s \<Longrightarrow> wired s"
  by (induction rule: rtranclp_induct) (auto intro: process_step_writes(1))

lemma process_read_only:
  assumes "(process_step threads)\<^sup>*\<^sup>* (process_start w) s" "\<not> env_controls e"
  shows "untouched w (env s)"
  using assms(1)
proof (induction rule: rtranclp_induct)
  case (step s s')
  have "untouched (env s) (env s')"
    using process_step_writes(2) [OF step.hyps(2) process_wired [OF step.hyps(1)]] assms(2) by blast
  with step.IH show ?case by (rule untouched_trans)
qed (simp add: process_start_def)

end

section \<open>The process over the mock\<close>

interpretation mock_process: process_plant "bus_via fst put_fst mock_client" UNIV "mock_holding \<circ> fst" "mock_wear \<circ> fst"
  "mock_env t num conv ha cfg controls win asserted" mock_cm "\<lambda>w. (None, w)"
  for t num conv ha cfg controls win asserted
  by unfold_locales (simp_all add: mock_cm_def)

text \<open>The demonstration with its controls switched off.\<close>

definition off_env :: "mock_net serve_env" where
  "off_env = mock_env Time_zero (\<lambda>_. ''0'') (\<lambda>_. 0) demo_ha (env_sched (demo_env True)) False demo_tou True"

section \<open>Properties\<close>

text \<open>
  With the controls disabled the manager is read-only: in every interleaving of the threads of the
  process, from the connect to the last step of the shutdown, whatever the broker delivers and whatever
  the clock's drift or the schedule, not one write frame is sent and no register it could have written
  is changed.
\<close>

theorem controls_off_read_only:
  assumes "process_plant bus S holding wear e cm stop" "\<not> env_controls e"
    and "(process_step (serve_wiring e cm stop))\<^sup>*\<^sup>* (process_start w) s"
  shows "wear (net (env s)) = wear (net w) \<and> (\<forall>b \<in> S. holding (net (env s)) b = holding (net w) b)"
  using process_plant.process_read_only [OF assms(1,3,2)] process_plant.untouched_def [OF assms(1)] by simp

theorem controls_off_read_only_witness:
  "\<exists>s. (process_step (serve_wiring off_env mock_cm (\<lambda>w. (None, w))))\<^sup>*\<^sup>* (process_start (demo_start [43110 \<mapsto> 35])) s \<and>
     stage s = Serving \<and> mock_wear (fst (net (env s))) = []"
proof -
  let ?W = "serve_wiring off_env mock_cm (\<lambda>w. (None, w))" and ?w = "demo_start [43110 \<mapsto> 35]"
  obtain s where R: "(process_step ?W)\<^sup>*\<^sup>* (process_start ?w) s" "stage s = Serving" using reach_serving [of ?W ?w] by blast
  have P: "process_plant (bus_via fst put_fst mock_client) UNIV (mock_holding \<circ> fst) (mock_wear \<circ> fst) off_env mock_cm (\<lambda>w. (None, w))"
    unfolding off_env_def by (rule mock_process.process_plant_axioms)
  have "\<not> env_controls off_env" by (simp add: off_env_def)
  from controls_off_read_only [OF P this R(1)] have "mock_wear (fst (net (env s))) = []" by (simp add: mock_wear_def)
  with R show ?thesis by blast
qed



end
