(* ===== verification/Deployment.thy ===== *)
theory Deployment
  imports Serve ReadOnly
begin

text \<open>
  The whole process with a broker, from its environment variables on: the parts that the startup of
  \<open>Serve\<close> hands over are those the threads of \<open>Lifecycle\<close> run with, so what the variables say of the
  controls holds of every state the process reaches. The contract of what is outside is \<open>process_plant\<close>.
\<close>

section \<open>The threads and the slots\<close>

context process_plant
begin

lemma process_no_slot_both:
  assumes "(process_step threads)\<^sup>*\<^sup>* (process_start w) s" "no_slot_both (holding (net w))"
  shows "no_slot_both (holding (net (env s)))"
  using assms(1)
proof (induction rule: rtranclp_induct)
  case base
  then show ?case using assms(2) by (simp add: process_start_def)
next
  case (step s s')
  have cycle: "no_slot_both (holding (net w'))" if "manager_step e holding stable (env s) w'" for w'
    using manager_no_slot_both [of "env s" w', OF r_into_rtranclp, OF that step.IH] .
  consider "untouched (env s) (env s')" | "manager_step e holding stable (env s) (env s')"
    using process_step_writes(2) [OF step.hyps(2) process_wired [OF step.hyps(1)]] manager_step.polled manager_step.commanded by metis
  then show ?case
  proof cases
    case 1
    then have "no_slot_both (holding (net (env s'))) = no_slot_both (holding (net (env s)))"
      using control_regs slot_addrs_control by (intro no_slot_both_cong) (auto simp: untouched_def)
    with step.IH show ?thesis by simp
  qed (rule cycle)
qed

end

section \<open>The hand-over\<close>

text \<open>
  What a startup with a broker hands to the threads: the client with the republish hook and nothing
  else yet, the controls as the variable says, and a world that differs from the first one outside only.
\<close>

lemma startup_hands_over:
  assumes "serve_startup pf n = Some (Inr st, n')"
  shows "net (st_world st) = n'" "env_controls (st_env st) = fst (parseBool (pf_environ pf) ''CONTROLS_ENABLED'' True)"
    "st_client st = None \<or> st_client st = Some (client (process_start (st_world st)))"
    "serve_load pf = Inr (st_cfg st)"
proof -
  show L: "serve_load pf = Inr (st_cfg st)"
    using assms by (auto simp: serve_startup_def serve_load_def Let_def split: sum.splits option.splits prod.splits)
  show "net (st_world st) = n'"
    using assms by (auto simp: serve_startup_def Let_def split: sum.splits option.splits prod.splits)
  have "env_controls (st_env st) = cf_ControlsEnabled (st_cfg st)"
    using assms by (auto simp: serve_startup_def serve_env_of_def Let_def split: sum.splits option.splits prod.splits)
  then show "env_controls (st_env st) = fst (parseBool (pf_environ pf) ''CONTROLS_ENABLED'' True)"
    by (simp add: serve_load_controls [OF L])
  have "c = \<lparr>onUp = Some (), onMsg = None, hookCancelled = False, hookWG = 0, hookClosing = False\<rparr>"
    if "serve_connect pf cfg w = (Inr (Some c), w')" for cfg w w' c
    using that by (auto simp: serve_connect_def Connect_def Let_def split: if_splits sum.splits prod.splits option.splits)
  then show "st_client st = None \<or> st_client st = Some (client (process_start (st_world st)))"
    using assms by (cases "st_client st") (auto simp: serve_startup_def process_start_def Let_def split: sum.splits option.splits prod.splits)
qed

section \<open>The mock platform\<close>

interpretation mock_serve: process_plant "bus_via fst put_fst mock_client" UNIV "mock_holding \<circ> fst" "mock_wear \<circ> fst"
  "serve_env_of (mock_pf vars t) cfg win asserted" "pf_cm (mock_pf vars t)" "\<lambda>w. (None, w)"
  for vars t cfg win asserted
  by unfold_locales (simp_all add: mock_pf_def)

text \<open>A mock run with a broker and a choice of the controls.\<close>

definition broker_environ :: "string \<Rightarrow> environ" where
  "broker_environ controls = (mock_environ ''60s'' '''')(''MQTT_BROKER_URL'' \<mapsto> ''tcp://broker:1883'', ''CONTROLS_ENABLED'' \<mapsto> controls)"

lemma broker_flags:
  "parseBool (broker_environ ''false'') ''CONTROLS_ENABLED'' True = (False, None)"
  "parseBool (broker_environ ''true'') ''CONTROLS_ENABLED'' True = (True, None)"
proof -
  have "TrimSpace ''false'' = ''false''" "TrimSpace ''true'' = ''true''" by (rule TrimSpace_visible; simp add: visible_def)+
  then show "parseBool (broker_environ ''false'') ''CONTROLS_ENABLED'' True = (False, None)"
    "parseBool (broker_environ ''true'') ''CONTROLS_ENABLED'' True = (True, None)"
    by (simp_all add: parseBool_def Getenv_def ParseBool_def broker_environ_def)
qed

lemma broker_startup:
  assumes "parseBool (broker_environ flag) ''CONTROLS_ENABLED'' True = (on, None)"
  shows "\<exists>st n' cfg win a. serve_startup (mock_pf (broker_environ flag) t) n = Some (Inr st, n') \<and>
    st_env st = serve_env_of (mock_pf (broker_environ flag) t) cfg win a \<and> st_client st \<noteq> None"
proof -
  let ?pf = "mock_pf (broker_environ flag) t"
  have "ParseDuration ''60s'' = Inr (60 * Second)" by code_simp
  from Load_mostly_unset [OF _ _ _ this _ _ assms] obtain c where L: "serve_load ?pf = Inr c"
    unfolding mock_pf_load by (auto simp: broker_environ_def mock_environ_def MinPollInterval_def Second_def)
  have B: "MQTTBrokerURL c \<noteq> []" using serve_load_broker [OF L] by (simp add: mock_pf_def broker_environ_def Getenv_def)
  show ?thesis
  proof (rule serve_startup_loaded [OF mock_pf_deadline L, of n])
    fix err n' assume S: "serve_startup ?pf n = Some (Inl (MqttError err), n')"
    then show ?thesis
      by (auto simp: serve_startup_def serve_connect_def Connect_def on_net_def mock_pf_def Let_def
          split: sum.splits option.splits prod.splits if_splits)
  next
    fix mc w win a
    assume "serve_startup ?pf n = Some (Inr \<lparr>st_cfg = c, st_env = serve_env_of ?pf c win a, st_client = mc, st_world = w\<rparr>, net w)"
      "mc = None \<longleftrightarrow> MQTTBrokerURL c = []"
    then show ?thesis using B by (intro exI conjI) (assumption, simp_all)
  qed
qed

section \<open>Properties\<close>

text \<open>
  A process whose \<open>CONTROLS_ENABLED\<close> is off is read-only: from the end of its startup to the last
  step of its shutdown, in every interleaving of its threads and whatever the broker delivers, it sends
  not one write frame and changes no register it could have written.
\<close>

theorem deployed_read_only:
  assumes "serve_startup pf n = Some (Inr st, n')" "\<not> fst (parseBool (pf_environ pf) ''CONTROLS_ENABLED'' True)"
    and "process_plant bus S holding wear (st_env st) (pf_cm pf) stop"
    and "(process_step (serve_wiring (st_env st) (pf_cm pf) stop))\<^sup>*\<^sup>* (process_start (st_world st)) s"
  shows "wear (net (env s)) = wear n' \<and> (\<forall>b \<in> S. holding (net (env s)) b = holding n' b)"
proof -
  note H = startup_hands_over [OF assms(1)]
  have off: "\<not> env_controls (st_env st)" using H(2) assms(2) by simp
  from process_plant.process_read_only [OF assms(3,4) off] show ?thesis
    by (simp add: process_plant.untouched_def [OF assms(3)] H(1))
qed

theorem deployed_read_only_witness:
  "\<exists>st n' s. serve_startup (mock_pf (broker_environ ''false'') Time_zero) mock_boot = Some (Inr st, n') \<and>
     (process_step (serve_wiring (st_env st) (pf_cm (mock_pf (broker_environ ''false'') Time_zero)) (\<lambda>w. (None, w))))\<^sup>*\<^sup>*
       (process_start (st_world st)) s \<and> stage s = Serving \<and> mock_wear (fst (net (env s))) = mock_wear (fst n')"
proof -
  let ?pf = "mock_pf (broker_environ ''false'') Time_zero"
  note P = broker_flags(1)
  have off: "\<not> fst (parseBool (pf_environ ?pf) ''CONTROLS_ENABLED'' True)" by (simp add: mock_pf_def P)
  obtain st n' cfg win a where S: "serve_startup ?pf mock_boot = Some (Inr st, n')" "st_env st = serve_env_of ?pf cfg win a"
    using broker_startup [OF P] by blast
  have plant: "process_plant (bus_via fst put_fst mock_client) UNIV (mock_holding \<circ> fst) (mock_wear \<circ> fst) (st_env st) (pf_cm ?pf) (\<lambda>w. (None, w))"
    unfolding S(2) by (rule mock_serve.process_plant_axioms)
  obtain s where R: "(process_step (serve_wiring (st_env st) (pf_cm ?pf) (\<lambda>w. (None, w))))\<^sup>*\<^sup>* (process_start (st_world st)) s" "stage s = Serving"
    using reach_serving [of "serve_wiring (st_env st) (pf_cm ?pf) (\<lambda>w. (None, w))" "st_world st"] by (elim exE conjE)
  have "mock_wear (fst (net (env s))) = mock_wear (fst n')" using deployed_read_only [OF S(1) off plant R(1)] by (simp only: comp_apply)
  with S(1) R show ?thesis by blast
qed

text \<open>
  A process with a broker never leaves a slot with both directions set: if none was when its startup
  ended, none is in any state its threads reach, up to the end of the shutdown - whatever the
  configuration, the commands delivered and the calls that fail.
\<close>

theorem deployed_never_both:
  assumes "serve_startup pf n = Some (Inr st, n')" "no_slot_both (holding n')"
    and "process_plant bus S holding wear (st_env st) (pf_cm pf) stop"
    and "(process_step (serve_wiring (st_env st) (pf_cm pf) stop))\<^sup>*\<^sup>* (process_start (st_world st)) s"
  shows "no_slot_both (holding (net (env s)))"
proof -
  have "no_slot_both (holding (net (st_world st)))" using startup_hands_over(1) [OF assms(1)] assms(2) by simp
  with process_plant.process_no_slot_both [OF assms(3,4)] show ?thesis .
qed

theorem deployed_never_both_witness:
  "\<exists>st n' s. serve_startup (mock_pf (broker_environ ''true'') Time_zero) mock_boot = Some (Inr st, n') \<and>
     (process_step (serve_wiring (st_env st) (pf_cm (mock_pf (broker_environ ''true'') Time_zero)) (\<lambda>w. (None, w))))\<^sup>*\<^sup>*
       (process_start (st_world st)) s \<and> stage s = Serving \<and> no_slot_both (mock_holding (fst (net (env s))))"
proof -
  let ?pf = "mock_pf (broker_environ ''true'') Time_zero"
  obtain st n' cfg win a where S: "serve_startup ?pf mock_boot = Some (Inr st, n')" "st_env st = serve_env_of ?pf cfg win a"
    using broker_startup [OF broker_flags(2)] by blast
  have plant: "process_plant (bus_via fst put_fst mock_client) UNIV (mock_holding \<circ> fst) (mock_wear \<circ> fst) (st_env st) (pf_cm ?pf) (\<lambda>w. (None, w))"
    unfolding S(2) by (rule mock_serve.process_plant_axioms)
  have "no_slot_both (mock_holding (fst mock_boot))" by code_simp
  then have start: "no_slot_both ((mock_holding \<circ> fst) n')" using startup_bank [OF S(1)] by simp
  obtain s where R: "(process_step (serve_wiring (st_env st) (pf_cm ?pf) (\<lambda>w. (None, w))))\<^sup>*\<^sup>* (process_start (st_world st)) s" "stage s = Serving"
    using reach_serving [of "serve_wiring (st_env st) (pf_cm ?pf) (\<lambda>w. (None, w))" "st_world st"] by (elim exE conjE)
  have "no_slot_both (mock_holding (fst (net (env s))))" using deployed_never_both [OF S(1) start plant R(1)] by (simp only: comp_apply)
  with S(1) R show ?thesis by blast
qed

end
