(* ===== verification/Threads.thy ===== *)
theory Threads
  imports Preempt Deployment
begin

text \<open>
  All goroutines of \<open>runServe\<close> in one relation: the main goroutine and the connection-up hooks of
  \<open>Lifecycle\<close>, and the scheduler and the commands of \<open>Preempt\<close>, which contend for \<open>apiMu\<close> and are preempted
  between any two of their calls. A hook's publish or the teardown's disconnect can fall into the middle
  of a poll. The relation refines that of \<open>Preempt\<close>, so what holds in the middle of a cycle holds here.
\<close>

section \<open>What acts beside a cycle\<close>

text \<open>
  The calls the hooks and the main goroutine make outside the lock; a republish call reads the cache, if
  there is a scheduler yet. They are kept with the world their goroutine saw.
\<close>

datatype session_call = HookCall call bool | OfflineCall | DisconnectCall | StopCall

fun session_effect :: "'w world wiring \<Rightarrow> session_call \<Rightarrow> 'w world \<Rightarrow> 'w world" where
  "session_effect W (HookCall c have) w = env (call_step W (wire_svc W) c ((process_start w)\<lparr>have_sched := have\<rparr>))"
| "session_effect W OfflineCall w = snd (PublishAvailability (wire_svc W) False w)"
| "session_effect W DisconnectCall w = snd (wire_disconnect W w)"
| "session_effect W StopCall w = snd (wire_stopHealth W w)"

definition session_act :: "'w world wiring \<Rightarrow> session_call \<times> 'w world \<Rightarrow> 'w \<Rightarrow> 'w" where
  "session_act W a n = net (session_effect W (fst a) ((snd a)\<lparr>net := n\<rparr>))"

section \<open>The threads\<close>

text \<open>
  \<open>proc\<close> is the process of \<open>Lifecycle\<close>, whose \<open>env\<close> is the world its goroutine last saw; \<open>mu\<close> is the state of
  the lock and of the cycles, and has the world itself.
\<close>

record 'w threads =
  proc :: "'w world process"
  mu :: "(session_call \<times> 'w world, 'w) goroutines"

definition threads_start :: "'w world \<Rightarrow> 'w threads" where
  "threads_start w = \<lparr>proc = process_start w, mu = goroutines_start w\<rparr>"

text \<open>The world as it is now, in the middle of a cycle or not, and the process that sees it.\<close>

definition world_now :: "'w serve_env \<Rightarrow> 'w world wiring \<Rightarrow> 'w threads \<Rightarrow> 'w world" where
  "world_now e W s =
     (case holder (mu s) of
        None \<Rightarrow> resting (mu s)
      | Some (c, gs) \<Rightarrow>
          with_net (\<lambda>n. acts (session_act W) (gap (mu s)) (under n)) (advance (session_act W) e c (resting (mu s)) gs))"

definition view :: "'w serve_env \<Rightarrow> 'w world wiring \<Rightarrow> 'w threads \<Rightarrow> 'w world process" where
  "view e W s = (proc s)\<lparr>env := world_now e W s\<rparr>"

text \<open>A call of another goroutine: at once when the lock is free, or in the gap before the next call of the cycle.\<close>

definition meanwhile :: "'w serve_env \<Rightarrow> 'w world wiring \<Rightarrow> session_call \<Rightarrow> 'w threads \<Rightarrow> (session_call \<times> 'w world, 'w) goroutines" where
  "meanwhile e W a s =
     (let a = (a, world_now e W s) in
      if holder (mu s) = None then (mu s)\<lparr>resting := with_net (session_act W a) (resting (mu s))\<rparr>
      else (mu s)\<lparr>gap := gap (mu s) @ [a]\<rparr>)"

definition pass_call :: "'w serve_env \<Rightarrow> 'w world wiring \<Rightarrow> 'w world pass \<Rightarrow> 'w threads \<Rightarrow> (session_call \<times> 'w world, 'w) goroutines" where
  "pass_call e W p s =
     (case p of
        Calls svc (c # cs) \<Rightarrow> meanwhile e W (HookCall c (have_sched (proc s))) s
      | _ \<Rightarrow> mu s)"

definition arrive :: "cycle \<Rightarrow> (session_call \<times> 'w world, 'w) goroutines \<Rightarrow> (session_call \<times> 'w world, 'w) goroutines" where
  "arrive c g = g\<lparr>blocked := blocked g @ [c]\<rparr>"

text \<open>The scheduler's goroutine is in a poll, or waits for the lock to begin one.\<close>

definition poll_pending :: "(session_call \<times> 'w world, 'w) goroutines \<Rightarrow> bool" where
  "poll_pending g \<longleftrightarrow> PollCycle \<in> set (blocked g) \<or> (\<exists>gs. holder g = Some (PollCycle, gs))"

text \<open>
  The steps. A message with a handler becomes a command that contends for the lock; the scheduler polls
  one at a time, and its goroutine, for which the teardown waits, returns only between polls.
\<close>

inductive threads_step :: "'w serve_env \<Rightarrow> 'w world wiring \<Rightarrow> 'w threads \<Rightarrow> 'w threads \<Rightarrow> bool" for e W where
  connection_up: "has_transport (stage (proc s)) \<Longrightarrow> fireOnUp (client (proc s)) = (c, h) \<Longrightarrow>
    threads_step e W s (s\<lparr>proc := (proc s)\<lparr>client := c, hooks := hooks (proc s) @ (case h of None \<Rightarrow> [] | Some _ \<Rightarrow> [Entered])\<rparr>\<rparr>)"
| message: "has_transport (stage (proc s)) \<Longrightarrow> onMsg (client (proc s)) \<noteq> None \<Longrightarrow>
    threads_step e W s (s\<lparr>mu := arrive (CommandCycle topic payload) (mu s)\<rparr>)"
| poll_due: "stage (proc s) = Serving \<or> stage (proc s) = Exiting \<Longrightarrow> \<not> poll_pending (mu s) \<Longrightarrow>
    threads_step e W s (s\<lparr>mu := arrive PollCycle (mu s)\<rparr>)"
| cycle: "lock_moves (session_act W) e (mu s) g \<Longrightarrow> threads_step e W s (s\<lparr>mu := g\<rparr>)"
| hook_moves: "hooks (proc s) = hs @ p # hs' \<Longrightarrow> pass_step W p (view e W s) = (Some p', q) \<Longrightarrow>
    threads_step e W s \<lparr>proc = q\<lparr>hooks := hs @ p' # hs'\<rparr>, mu = pass_call e W p s\<rparr>"
| hook_returns: "hooks (proc s) = hs @ p # hs' \<Longrightarrow> pass_step W p (view e W s) = (None, q) \<Longrightarrow>
    threads_step e W s \<lparr>proc = q\<lparr>hooks := hs @ hs', client := hook_Done (client q)\<rparr>, mu = pass_call e W p s\<rparr>"
| connected: "stage (proc s) = Connecting \<Longrightarrow> threads_step e W s (s\<lparr>proc := (proc s)\<lparr>stage := Connected\<rparr>\<rparr>)"
| stored: "stage (proc s) = Connected \<Longrightarrow>
    threads_step e W s (s\<lparr>proc := (proc s)\<lparr>svcPtr := Some (wire_svc W), stage := Stored\<rparr>\<rparr>)"
| built: "stage (proc s) = Stored \<Longrightarrow> threads_step e W s (s\<lparr>proc := (proc s)\<lparr>have_sched := True, stage := Built\<rparr>\<rparr>)"
| installed: "stage (proc s) = Built \<Longrightarrow>
    threads_step e W s (s\<lparr>proc := (proc s)\<lparr>client := (if wire_onMsg W \<noteq> None then SetOnMessage (wire_onMsg W) (client (proc s)) else client (proc s)),
      stage := Installed\<rparr>\<rparr>)"
| announce: "stage (proc s) = Installed \<Longrightarrow> threads_step e W s (s\<lparr>proc := (proc s)\<lparr>stage := Announcing Entered\<rparr>\<rparr>)"
| announcing: "stage (proc s) = Announcing p \<Longrightarrow> pass_step W p (view e W s) = (r, q) \<Longrightarrow>
    threads_step e W s \<lparr>proc = q\<lparr>stage := (case r of None \<Rightarrow> Serving | Some p' \<Rightarrow> Announcing p')\<rparr>, mu = pass_call e W p s\<rparr>"
| exits: "stage (proc s) = Serving \<Longrightarrow>
    threads_step e W s (s\<lparr>proc := (proc s)\<lparr>stage := Exiting, exit_err := (case ev of HealthErr err \<Rightarrow> healthExitError err | CtxDone \<Rightarrow> None)\<rparr>\<rparr>)"
| sched_done: "stage (proc s) = Exiting \<Longrightarrow> \<not> poll_pending (mu s) \<Longrightarrow>
    threads_step e W s (s\<lparr>proc := (proc s)\<lparr>stage := SchedDone\<rparr>\<rparr>)"
| offline_sent: "stage (proc s) = SchedDone \<Longrightarrow>
    threads_step e W s \<lparr>proc = (proc s)\<lparr>stage := OfflineSent\<rparr>,
      mu = (if svcPtr (proc s) = None then mu s else meanwhile e W OfflineCall s)\<rparr>"
| closes: "stage (proc s) = OfflineSent \<Longrightarrow>
    threads_step e W s (s\<lparr>proc := (proc s)\<lparr>stage := Closing, client := drainHook_close (client (proc s))\<rparr>\<rparr>)"
| drained: "stage (proc s) = Closing \<Longrightarrow> hook_drained (client (proc s)) \<Longrightarrow>
    threads_step e W s (s\<lparr>proc := (proc s)\<lparr>stage := Drained\<rparr>\<rparr>)"
| times_out: "stage (proc s) = Closing \<Longrightarrow> threads_step e W s (s\<lparr>proc := (proc s)\<lparr>stage := Drained, expired := True\<rparr>\<rparr>)"
| disconnects: "stage (proc s) = Drained \<Longrightarrow>
    threads_step e W s \<lparr>proc = (proc s)\<lparr>stage := Disconnected\<rparr>, mu = meanwhile e W DisconnectCall s\<rparr>"
| stops: "stage (proc s) = Disconnected \<Longrightarrow>
    threads_step e W s \<lparr>proc = (proc s)\<lparr>stage := Stopped\<rparr>, mu = meanwhile e W StopCall s\<rparr>"

section \<open>The relation of the lock\<close>

lemma net_world_now: "net (world_now e W s) = outside_now (session_act W) e (mu s)"
  by (auto simp: world_now_def outside_now_def split: option.splits)

lemma meanwhile_step: "apiMu_step (session_act W) e UNIV (mu s) (meanwhile e W a s)"
proof (cases "holder (mu s)")
  case None
  then show ?thesis using apiMu_step.others_rest [OF None, of "(a, world_now e W s)" UNIV "session_act W" e] by (simp add: meanwhile_def)
next
  case (Some h)
  then show ?thesis using apiMu_step.others_meanwhile [OF Some, of "(a, world_now e W s)" UNIV "session_act W" e] by (simp add: meanwhile_def)
qed

lemma pass_call_step: "pass_call e W p s = mu s \<or> apiMu_step (session_act W) e UNIV (mu s) (pass_call e W p s)"
  by (auto simp: pass_call_def meanwhile_step split: pass.splits list.splits)

text \<open>Every step is one of the goroutines that contend for the lock, or none of theirs.\<close>

lemma threads_refine:
  assumes "threads_step e W s s'"
  shows "mu s' = mu s \<or> apiMu_step (session_act W) e UNIV (mu s) (mu s')"
  using assms
proof (cases rule: threads_step.cases)
  case (cycle g)
  then show ?thesis using apiMu_mono [of "session_act W" e "{}" "mu s" g UNIV] by (simp add: lock_moves_def)
qed (use pass_call_step in \<open>auto simp: arrive_def meanwhile_step intro: apiMu_step.arrives\<close>)

lemma threads_reach:
  assumes "(threads_step e W)\<^sup>*\<^sup>* (threads_start w) s"
  shows "(apiMu_step (session_act W) e UNIV)\<^sup>*\<^sup>* (goroutines_start w) (mu s)"
  using assms
proof (induction rule: rtranclp_induct)
  case (step s s')
  from threads_refine [OF step.hyps(2)] step.IH show ?case by (metis rtranclp.rtrancl_into_rtrancl)
qed (simp add: threads_start_def)

lemma session_mu [simp]:
  "holder (meanwhile e W a s) = holder (mu s)" "blocked (meanwhile e W a s) = blocked (mu s)"
  "holder (pass_call e W p s) = holder (mu s)" "blocked (pass_call e W p s) = blocked (mu s)"
  by (auto simp: pass_call_def meanwhile_def Let_def split: pass.splits list.splits)

section \<open>Polls and the drain\<close>

text \<open>A poll is in flight only while the process serves or waits for its scheduler to return.\<close>

lemma poll_pending_cycle:
  assumes "lock_moves act e g g'" "poll_pending g'"
  shows "poll_pending g"
  using assms unfolding lock_moves_def by (elim conjE apiMu_step.cases) (auto simp: poll_pending_def)

lemma poll_pending_mu [simp]:
  "poll_pending (meanwhile e W a s) = poll_pending (mu s)" "poll_pending (pass_call e W p s) = poll_pending (mu s)"
  "poll_pending (arrive (CommandCycle topic payload) g) = poll_pending g" "poll_pending (goroutines_start w) = False"
  by (simp_all add: poll_pending_def arrive_def goroutines_start_def)

lemma poll_pending_stage:
  assumes "(threads_step e W)\<^sup>*\<^sup>* (threads_start w) s" "poll_pending (mu s)"
  shows "stage (proc s) = Serving \<or> stage (proc s) = Exiting"
  using assms
proof (induction rule: rtranclp_induct)
  case (step s s')
  from step.hyps(2) show ?case
  proof (cases rule: threads_step.cases)
    case (cycle g)
    then show ?thesis using step.IH step.prems poll_pending_cycle by fastforce
  next
    case (hook_moves hs p hs' p' q)
    then show ?thesis using step.IH step.prems pass_step_fields(1) [OF hook_moves(3)] by (simp add: view_def)
  next
    case (hook_returns hs p hs' q)
    then show ?thesis using step.IH step.prems pass_step_fields(1) [OF hook_returns(3)] by (simp add: view_def)
  qed (use step.IH step.prems in \<open>auto split: if_splits\<close>)
qed (simp add: threads_start_def)

section \<open>A cycle among other goroutines\<close>

context busy_plant
begin

lemma advance_reads_only:
  assumes "\<not> env_controls e"
  shows "wear (under (net (advance act e PollCycle w gs))) = wear (net w)"
    "b \<in> stable \<Longrightarrow> holding (under (net (advance act e PollCycle w gs))) b = holding (net w) b"
proof -
  have "\<not> env_controls (sliced_env act e)" using assms by (simp add: sliced_env_def)
  note R = pre.poll_reads_only [OF this, of "with_net (\<lambda>n. \<lparr>under = n, gaps = gs, cut = False\<rparr>) w"]
  show "wear (under (net (advance act e PollCycle w gs))) = wear (net w)"
    "b \<in> stable \<Longrightarrow> holding (under (net (advance act e PollCycle w gs))) b = holding (net w) b"
    using R by (simp_all add: advance_def)
qed

lemma apiMu_reads_only:
  assumes "apiMu_step act e A g g'" "\<not> env_controls e" "\<And>c gs. holder g = Some (c, gs) \<Longrightarrow> c = PollCycle"
  shows "wear (net (resting g')) = wear (net (resting g)) \<and> (\<forall>b \<in> stable. holding (net (resting g')) b = holding (net (resting g)) b)"
  using assms(1)
proof (cases rule: apiMu_step.cases)
  case (releases c gs)
  then show ?thesis using assms(3) advance_reads_only [OF assms(2)] by simp
qed (simp_all add: act_quiet)

end

text \<open>Without controls there is no message handler, so every cycle is a poll.\<close>

definition only_polls :: "'w threads \<Rightarrow> bool" where
  "only_polls s \<longleftrightarrow> onMsg (client (proc s)) = None \<and> set (blocked (mu s)) \<subseteq> {PollCycle} \<and>
     (\<forall>c gs. holder (mu s) = Some (c, gs) \<longrightarrow> c = PollCycle)"

sublocale process_plant \<subseteq> busy: busy_plant bus stable holding wear e "session_act (serve_wiring e cm stop)"
proof unfold_locales
  fix a n
  have svc: "wire_svc threads = serve_svc e" by (simp add: serve_wiring_def)
  have "untouched v (session_effect threads c v)" for c v
  proof (cases c)
    case (HookCall x ready)
    then show ?thesis using call_untouched [of "(process_start v)\<lparr>have_sched := ready\<rparr>" x] by (simp add: svc process_start_def)
  next
    case StopCall
    then show ?thesis using stop_quiet [of v] by (cases "stop v") (simp add: serve_wiring_def untouched_def)
  qed (simp_all add: svc service_untouched disconnect_untouched serve_wiring_def)
  from this [of "(snd a)\<lparr>net := n\<rparr>" "fst a"] show
    "wear (session_act threads a n) = wear n" "\<And>b. b \<in> stable \<Longrightarrow> holding (session_act threads a n) b = holding n b"
    by (simp_all add: untouched_def session_act_def)
qed

context process_plant
begin

lemma threads_no_slot_both:
  assumes "(threads_step e threads)\<^sup>*\<^sup>* (threads_start w) s" "no_slot_both (holding (net w))"
  shows "no_slot_both (holding (net (world_now e threads s)))"
  unfolding net_world_now by (rule busy.outside_no_slot_both [OF threads_reach [OF assms(1)] assms(2)])

lemma only_polls_step:
  assumes "threads_step e threads s s'" "only_polls s" "\<not> env_controls e"
  shows "only_polls s'"
  using assms(1)
proof (cases rule: threads_step.cases)
  case (connection_up c h)
  from connection_up(3) show ?thesis by (cases rule: fireOnUp_cases) (use assms(2) connection_up(1) in \<open>auto simp: only_polls_def\<close>)
next
  case (cycle g)
  from cycle(2) have "apiMu_step (session_act threads) e {} (mu s) g" "length (blocked g) \<le> length (blocked (mu s))"
    by (simp_all add: lock_moves_def)
  then show ?thesis by (cases rule: apiMu_step.cases) (use assms(2) cycle(1) in \<open>auto simp: only_polls_def\<close>)
next
  case (hook_moves hs p hs' p' q)
  then show ?thesis using assms(2) pass_step_fields(2) [OF hook_moves(3)] by (simp add: only_polls_def view_def)
next
  case (hook_returns hs p hs' q)
  then show ?thesis using assms(2) pass_step_fields(2) [OF hook_returns(3)] by (simp add: only_polls_def view_def hook_Done_def)
next
  case (announcing p r q)
  then show ?thesis using assms(2) pass_step_fields(2) [OF announcing(3)] by (simp add: only_polls_def view_def)
qed (use assms(2,3) in \<open>auto simp: only_polls_def arrive_def drainHook_close_def serve_wiring_def split: if_splits\<close>)

lemma threads_read_only:
  assumes "(threads_step e threads)\<^sup>*\<^sup>* (threads_start w) s" "\<not> env_controls e"
  shows "untouched w (world_now e threads s)"
proof -
  have "only_polls s \<and> untouched w (resting (mu s))"
    using assms(1)
  proof (induction rule: rtranclp_induct)
    case base
    then show ?case by (simp add: only_polls_def threads_start_def process_start_def goroutines_start_def)
  next
    case (step s s')
    have "untouched (resting (mu s)) (resting (mu s'))"
      using threads_refine [OF step.hyps(2)] busy.apiMu_reads_only [OF _ assms(2)] step.IH
      by (auto simp: untouched_def only_polls_def)
    with step.IH only_polls_step [OF step.hyps(2) _ assms(2)] show ?case by (blast intro: untouched_trans)
  qed
  then show ?thesis
    using busy.advance_reads_only [OF assms(2)]
    by (auto simp: world_now_def untouched_def only_polls_def split: option.splits)
qed

end

section \<open>Whole cycles\<close>

text \<open>
  The relation of \<open>Lifecycle\<close> is this one with every cycle run whole: between its steps nobody holds the
  lock or waits for it.
\<close>

definition idle :: "'w threads \<Rightarrow> bool" where
  "idle s \<longleftrightarrow> holder (mu s) = None \<and> blocked (mu s) = [] \<and> gap (mu s) = []"

lemma view_idle: "idle s \<Longrightarrow> view e W s = (proc s)\<lparr>env := resting (mu s)\<rparr>"
  by (simp add: view_def world_now_def idle_def)

lemma view_fields [simp]:
  "stage (view e W s) = stage (proc s)" "client (view e W s) = client (proc s)" "svcPtr (view e W s) = svcPtr (proc s)"
  "hooks (view e W s) = hooks (proc s)" "expired (view e W s) = expired (proc s)" "exit_err (view e W s) = exit_err (proc s)"
  by (simp_all add: view_def)

lemma cycle_moves:
  assumes "(lock_moves (session_act W) e)\<^sup>*\<^sup>* (mu s) g"
  shows "(threads_step e W)\<^sup>*\<^sup>* s (s\<lparr>mu := g\<rparr>)"
  using assms
proof (induction rule: rtranclp_induct)
  case (step g g')
  have "threads_step e W (s\<lparr>mu := g\<rparr>) (s\<lparr>mu := g'\<rparr>)" using threads_step.cycle [of W e "s\<lparr>mu := g\<rparr>" g'] step.hyps(2) by simp
  with step.IH show ?case by (rule rtranclp.rtrancl_into_rtrancl)
qed simp

text \<open>A cycle that arrives at a free lock, undisturbed.\<close>

lemma whole_cycle:
  assumes "idle s" "threads_step e W s (s\<lparr>mu := arrive c (mu s)\<rparr>)"
  shows "\<exists>s'. (threads_step e W)\<^sup>*\<^sup>* s s' \<and> idle s' \<and> view e W s' = (view e W s)\<lparr>env := cycle_run e c (env (view e W s))\<rparr>"
proof -
  have "blocked (arrive c (mu s)) = [] @ c # []" using assms(1) by (simp add: arrive_def idle_def)
  from blocked_moves [OF this, of "session_act W" e] obtain g where
    g: "(lock_moves (session_act W) e)\<^sup>*\<^sup>* (arrive c (mu s)) g" "holder g = None" "blocked g = []" "gap g = []"
    "resting g = cycle_run e c (resting (mu s))"
    using assms(1) by (auto simp: arrive_def idle_def)
  have "(threads_step e W)\<^sup>*\<^sup>* (s\<lparr>mu := arrive c (mu s)\<rparr>) (s\<lparr>mu := g\<rparr>)"
    using cycle_moves [of W e "s\<lparr>mu := arrive c (mu s)\<rparr>" g] g(1) by simp
  with assms(2) have "(threads_step e W)\<^sup>*\<^sup>* s (s\<lparr>mu := g\<rparr>)" by (rule converse_rtranclp_into_rtranclp)
  moreover have "idle (s\<lparr>mu := g\<rparr>)" using g by (simp add: idle_def)
  ultimately show ?thesis using g(5) by (intro exI [of _ "s\<lparr>mu := g\<rparr>"] conjI) (simp_all add: view_idle [OF assms(1)] view_idle)
qed

lemma call_effect: "env (call_step W (wire_svc W) c p) = session_effect W (HookCall c (have_sched p)) (env p)"
  by (cases c) (simp_all add: call_step_def process_start_def Let_def case_prod_unfold split: option.split)

lemma with_net_update: "with_net f w = w\<lparr>net := f (net w)\<rparr>"
  by (cases w) (simp add: with_net_def)

lemma meanwhile_idle:
  assumes "idle s" "only_net (resting (mu s)) (session_effect W a (resting (mu s)))"
  shows "resting (meanwhile e W a s) = session_effect W a (resting (mu s))" "gap (meanwhile e W a s) = []"
  using assms by (simp_all add: meanwhile_def world_now_def idle_def session_act_def only_net_def with_net_update)

text \<open>Publishing and the session calls change the outside only.\<close>

lemma serve_pub_only_net: "serve_pub e t m r w = (er, w') \<Longrightarrow> only_net w w'"
  by (auto simp: serve_pub_def Discard_Publish_def dest: only_net_call split: option.splits)

lemma service_only_net:
  "only_net w (snd (PublishDiscovery (serve_svc e) w))" "only_net w (snd (PublishDiscoveryRemovals (serve_svc e) w))"
  "only_net w (snd (PublishAvailability (serve_svc e) b w))" "only_net w (snd (Service_PublishState (serve_svc e) tel sp w))"
proof -
  have svc: "pub (serve_svc e) = serve_pub e" by (simp add: serve_svc_def Service_New_def)
  have loop: "only_net w (snd (publish_loop ctx (serve_pub e) msgs w))" for ctx msgs w
  proof (induction msgs arbitrary: w)
    case (Cons m msgs)
    obtain r w1 where P: "serve_pub e (Topic m) (Payload m) True w = (r, w1)" by fastforce
    with Cons.IH [of w1] serve_pub_only_net [OF P] show ?case by (cases r) (auto intro: only_net_trans)
  qed simp
  show "only_net w (snd (PublishDiscovery (serve_svc e) w))" "only_net w (snd (PublishDiscoveryRemovals (serve_svc e) w))"
    by (auto simp: PublishDiscovery_def PublishDiscoveryRemovals_def svc loop split: sum.splits)
  show "only_net w (snd (PublishAvailability (serve_svc e) b w))"
    by (auto simp: PublishAvailability_def svc Let_def split: prod.splits option.splits dest: serve_pub_only_net)
  show "only_net w (snd (Service_PublishState (serve_svc e) tel sp w))"
    by (auto simp: Service_PublishState_def svc Let_def split: sum.splits prod.splits option.splits dest: serve_pub_only_net)
qed

lemma on_net_only_net: "only_net w (snd (on_net f w))"
  by (metis only_net_call prod.collapse)

lemma session_only_net:
  assumes "\<And>w. only_net w (snd (stop w))"
  shows "only_net w (session_effect (serve_wiring e cm stop) a w)"
proof (cases a)
  case (HookCall c ready)
  then show ?thesis
    by (cases c) (simp_all add: call_step_def process_start_def serve_wiring_def Let_def case_prod_unfold service_only_net on_net_only_net)
qed (simp_all add: serve_wiring_def service_only_net on_net_only_net assms)

text \<open>The goroutines get from \<open>s\<close> to a state with the lock free whose process is \<open>q\<close>.\<close>

definition embeds :: "'w serve_env \<Rightarrow> 'w world wiring \<Rightarrow> 'w threads \<Rightarrow> 'w world process \<Rightarrow> bool" where
  "embeds e W s q \<longleftrightarrow> (\<exists>s'. (threads_step e W)\<^sup>*\<^sup>* s s' \<and> idle s' \<and> view e W s' = q)"

lemma embeds_one: "threads_step e W s s' \<Longrightarrow> idle s' \<Longrightarrow> (proc s')\<lparr>env := resting (mu s')\<rparr> = q \<Longrightarrow> embeds e W s q"
  unfolding embeds_def by (intro exI [of _ s'] conjI r_into_rtranclp) (simp_all add: view_idle)

lemma embeds_proc:
  assumes "threads_step e W s (s\<lparr>proc := p\<rparr>)" "idle s" "p\<lparr>env := resting (mu s)\<rparr> = q"
  shows "embeds e W s q"
  by (rule embeds_one [OF assms(1)]) (use assms(2,3) in \<open>simp_all add: idle_def\<close>)

text \<open>The steps of the main goroutine and of the transport that call nothing.\<close>

lemmas silent_steps =
  threads_step.connection_up [THEN embeds_proc] threads_step.connected [THEN embeds_proc] threads_step.stored [THEN embeds_proc]
  threads_step.built [THEN embeds_proc] threads_step.installed [THEN embeds_proc] threads_step.announce [THEN embeds_proc]
  threads_step.exits [THEN embeds_proc] threads_step.sched_done [THEN embeds_proc] threads_step.closes [THEN embeds_proc]
  threads_step.drained [THEN embeds_proc] threads_step.times_out [THEN embeds_proc]

lemma idle_no_poll: "idle s \<Longrightarrow> \<not> poll_pending (mu s)"
  by (simp add: idle_def poll_pending_def)

context process_plant
begin

lemma pass_call_idle:
  assumes "\<And>w. only_net w (snd (stop w))" "idle s" "pass_step threads x (view e threads s) = (r, t)" "pass_wired x"
  shows "idle \<lparr>proc = p, mu = pass_call e threads x s\<rparr>" "resting (pass_call e threads x s) = env t"
proof -
  have svc: "wire_svc threads = serve_svc e" by (simp add: serve_wiring_def)
  note M = meanwhile_idle [where W = threads and e = e, OF assms(2) session_only_net [OF assms(1)]]
  show "idle \<lparr>proc = p, mu = pass_call e threads x s\<rparr>"
    using assms(2) M(2) by (auto simp: idle_def pass_call_def split: pass.splits list.splits)
  have "env (call_step threads (serve_svc e) c p) = session_effect threads (HookCall c (have_sched p)) (env p)" for c p
    using call_effect [of threads c p] unfolding svc .
  then show "resting (pass_call e threads x s) = env t"
    using assms(3,4) M(1)
    by (auto simp: pass_call_def pass_step_def view_idle [OF assms(2)] simp del: session_effect.simps split: pass.splits list.splits option.splits)
qed

text \<open>A message and a poll, as a cycle of their own.\<close>

lemma embeds_message:
  assumes "wired (view e threads s)" "idle s" "has_transport (stage (proc s))"
  shows "embeds e threads s ((view e threads s)\<lparr>env := fireOnMessage (client (proc s)) topic payload (env (view e threads s))\<rparr>)"
proof (cases "onMsg (client (proc s))")
  case None
  then show ?thesis using assms(2) by (auto simp: embeds_def fireOnMessage_def intro: exI [of _ s])
next
  case (Some f)
  then have "wire_onMsg threads = Some f" using assms(1) view_idle [OF assms(2)] by (simp add: wired_def)
  then have "f = ApplyCommand (serve_scheduler e)" by (simp add: serve_wiring_def split: if_splits)
  moreover have "threads_step e threads s (s\<lparr>mu := arrive (CommandCycle topic payload) (mu s)\<rparr>)"
    by (rule threads_step.message) (use assms(3) Some in simp_all)
  ultimately show ?thesis using whole_cycle [OF assms(2)] Some by (fastforce simp: embeds_def fireOnMessage_def)
qed

lemma embeds_poll:
  assumes "idle s" "stage (proc s) = Serving \<or> stage (proc s) = Exiting"
  shows "embeds e threads s ((view e threads s)\<lparr>env := wire_poll threads (env (view e threads s))\<rparr>)"
  using whole_cycle [OF assms(1) threads_step.poll_due [OF assms(2) idle_no_poll [OF assms(1)]], of e threads]
  by (simp add: embeds_def) (simp add: serve_wiring_def)

lemma embeds_pass:
  assumes only: "\<And>w. only_net w (snd (stop w))" and "wired (view e threads s)" "idle s"
  shows "hooks (proc s) = hs @ x # hs' \<Longrightarrow> pass_step threads x (view e threads s) = (Some x', t) \<Longrightarrow>
      embeds e threads s (t\<lparr>hooks := hs @ x' # hs'\<rparr>)"
    "hooks (proc s) = hs @ x # hs' \<Longrightarrow> pass_step threads x (view e threads s) = (None, t) \<Longrightarrow>
      embeds e threads s (t\<lparr>hooks := hs @ hs', client := hook_Done (client t)\<rparr>)"
    "stage (proc s) = Announcing x \<Longrightarrow> pass_step threads x (view e threads s) = (r, t) \<Longrightarrow>
      embeds e threads s (t\<lparr>stage := (case r of None \<Rightarrow> Serving | Some p' \<Rightarrow> Announcing p')\<rparr>)"
proof -
  note C = pass_call_idle [OF only assms(3)] and V = view_idle [OF assms(3), of e threads]
  have W: "pass_wired x" if "x \<in> set (hooks (proc s)) \<or> stage (proc s) = Announcing x" for x
    using that assms(2) V by (auto simp: wired_def list_all_iff)
  show "embeds e threads s (t\<lparr>hooks := hs @ x' # hs'\<rparr>)"
    if "hooks (proc s) = hs @ x # hs'" "pass_step threads x (view e threads s) = (Some x', t)"
    by (rule embeds_one [OF threads_step.hook_moves [OF that]]) (use C [OF that(2) W] that(1) in simp_all)
  show "embeds e threads s (t\<lparr>hooks := hs @ hs', client := hook_Done (client t)\<rparr>)"
    if "hooks (proc s) = hs @ x # hs'" "pass_step threads x (view e threads s) = (None, t)"
    by (rule embeds_one [OF threads_step.hook_returns [OF that]]) (use C [OF that(2) W] that(1) in simp_all)
  show "embeds e threads s (t\<lparr>stage := (case r of None \<Rightarrow> Serving | Some p' \<Rightarrow> Announcing p')\<rparr>)"
    if "stage (proc s) = Announcing x" "pass_step threads x (view e threads s) = (r, t)"
    by (rule embeds_one [OF threads_step.announcing [OF that]]) (use C [OF that(2) W] that(1) in simp_all)
qed

lemma embeds_offline:
  assumes only: "\<And>w. only_net w (snd (stop w))" and "wired (view e threads s)" "idle s" "stage (proc s) = SchedDone"
  shows "embeds e threads s ((view e threads s)\<lparr>stage := OfflineSent,
    env := (case svcPtr (proc s) of None \<Rightarrow> resting (mu s) | Some svc \<Rightarrow> snd (PublishAvailability svc False (resting (mu s))))\<rparr>)"
proof -
  have "svcPtr (proc s) = None \<or> svcPtr (proc s) = Some (wire_svc threads)"
    using assms(2) view_idle [OF assms(3)] by (auto simp: wired_def serve_wiring_def split: option.splits)
  then show ?thesis
    using meanwhile_idle [where W = threads and e = e and a = OfflineCall, OF assms(3) session_only_net [OF only]] assms(3)
    by (intro embeds_one [OF threads_step.offline_sent [OF assms(4)]]) (auto simp: idle_def view_idle)
qed

lemma embeds_session:
  assumes only: "\<And>w. only_net w (snd (stop w))" and "idle s" "threads_step e threads s \<lparr>proc = p, mu = meanwhile e threads a s\<rparr>"
    and "p\<lparr>env := session_effect threads a (resting (mu s))\<rparr> = q"
  shows "embeds e threads s q"
  using meanwhile_idle [where W = threads and e = e and a = a, OF assms(2) session_only_net [OF only]] assms(2,4)
  by (intro embeds_one [OF assms(3)]) (simp_all add: idle_def)

lemma lifecycle_step:
  assumes only: "\<And>w. only_net w (snd (stop w))"
    and "process_step threads (view e threads s) q" "wired (view e threads s)" "idle s"
  shows "embeds e threads s q"
proof -
  note V = view_idle [OF assms(4), of e threads]
  from assms(2) show ?thesis
  proof (cases rule: process_step.cases)
    case (message topic payload)
    then show ?thesis using embeds_message [OF assms(3,4)] by (simp add: V)
  next
    case polled
    then show ?thesis using embeds_poll [OF assms(4)] by (simp add: V)
  next
    case (hook_moves hs x hs' x' t)
    then show ?thesis using embeds_pass(1) [OF only assms(3,4)] by (simp add: V)
  next
    case (hook_returns hs x hs' t)
    then show ?thesis using embeds_pass(2) [OF only assms(3,4)] by (simp add: V)
  next
    case (announcing x r t)
    then show ?thesis using embeds_pass(3) [OF only assms(3,4)] by (simp add: V)
  next
    case (exits ev)
    then show ?thesis using V assms(4) by (intro silent_steps(7) [where ev = ev]) simp_all
  next
    case offline_sent
    then show ?thesis using embeds_offline [OF only assms(3,4)] by (simp add: V split: option.splits)
  next
    case disconnects
    then show ?thesis using V by (intro embeds_session [OF only assms(4) threads_step.disconnects]) simp_all
  next
    case stops
    then show ?thesis using V by (intro embeds_session [OF only assms(4) threads_step.stops]) simp_all
  qed (use V assms(4) idle_no_poll [OF assms(4)] in \<open>force intro: silent_steps\<close>)+
qed

lemma lifecycle_run:
  assumes only: "\<And>w. only_net w (snd (stop w))"
    and "(process_step threads)\<^sup>*\<^sup>* (view e threads s) q" "wired (view e threads s)" "idle s"
  shows "embeds e threads s q"
proof -
  have "wired q \<and> embeds e threads s q"
    using assms(2)
  proof (induction rule: rtranclp_induct)
    case base
    then show ?case using assms(3,4) by (auto simp: embeds_def)
  next
    case (step q q')
    then obtain s' where S: "(threads_step e threads)\<^sup>*\<^sup>* s s'" "idle s'" "view e threads s' = q" by (auto simp: embeds_def)
    have "embeds e threads s' q'" using lifecycle_step [OF only, of s' q'] S(2,3) step by simp
    then have "embeds e threads s q'" using S(1) unfolding embeds_def by (elim exE conjE) (intro exI conjI, erule (1) rtranclp_trans)
    moreover have "wired q'" by (rule process_step_writes(1) [OF step.hyps(2)]) (use step.IH in simp)
    ultimately show ?case by simp
  qed
  then show ?thesis by simp
qed

end

section \<open>The lock cannot hold up the shutdown\<close>

text \<open>The cycles in flight can always be run to their ends, whatever the process is doing.\<close>

lemma lock_clears: "\<exists>g. (lock_moves act e)\<^sup>*\<^sup>* s g \<and> holder g = None \<and> blocked g = [] \<and> gap g = []" if "holder s = None" "gap s = []"
  using that
proof (induction "length (blocked s)" arbitrary: s)
  case (Suc n)
  then obtain c cs where b: "blocked s = [] @ c # cs" by (cases "blocked s") auto
  obtain g where G: "(lock_moves act e)\<^sup>*\<^sup>* s g" "holder g = None" "blocked g = [] @ cs" "gap g = []"
    using blocked_moves [OF b, of act e] by (elim exE conjE)
  have "n = length (blocked g)" using Suc.hyps(2) b G(3) by simp
  from Suc.hyps(1) [OF this G(2,4)] obtain g' where "(lock_moves act e)\<^sup>*\<^sup>* g g'" "holder g' = None" "blocked g' = []" "gap g' = []"
    by (elim exE conjE)
  with G(1) show ?case by (intro exI [of _ g'] conjI rtranclp_trans [of _ s g g'])
qed (intro exI conjI, rule rtranclp.rtrancl_refl, simp_all)

lemma threads_clear:
  assumes "holder (mu s) = None \<Longrightarrow> gap (mu s) = []"
  shows "\<exists>s'. (threads_step e W)\<^sup>*\<^sup>* s s' \<and> idle s' \<and> proc s' = proc s"
proof -
  obtain g where G: "(lock_moves (session_act W) e)\<^sup>*\<^sup>* (mu s) g" "holder g = None" "gap g = []"
  proof (cases "holder (mu s)")
    case None
    then show ?thesis using that [of "mu s"] assms by simp
  next
    case (Some h)
    from holder_moves [of "mu s" "fst h" "snd h" "session_act W" e] Some show ?thesis by (auto intro: that)
  qed
  from lock_clears [OF G(2,3), of "session_act W" e] obtain g' where
    G': "(lock_moves (session_act W) e)\<^sup>*\<^sup>* g g'" "holder g' = None" "blocked g' = []" "gap g' = []" by (elim exE conjE)
  have "(threads_step e W)\<^sup>*\<^sup>* s (s\<lparr>mu := g'\<rparr>)" by (rule cycle_moves [OF rtranclp_trans [OF G(1) G'(1)]])
  then show ?thesis using G'(2-4) by (intro exI [of _ "s\<lparr>mu := g'\<rparr>"]) (simp add: idle_def)
qed

text \<open>The hooks are accounted for, and the lock is free only when nothing is kept for its holder.\<close>

definition threads_ok :: "'w threads \<Rightarrow> bool" where
  "threads_ok s \<longleftrightarrow> process_ok (proc s) \<and> (holder (mu s) = None \<longrightarrow> gap (mu s) = [])"

lemma gap_free: "apiMu_step act e A g g' \<Longrightarrow> (holder g = None \<longrightarrow> gap g = []) \<Longrightarrow> holder g' = None \<longrightarrow> gap g' = []"
  by (induction rule: apiMu_step.induct) auto

lemma threads_ok_step:
  assumes "threads_step e W s s'" "threads_ok s"
  shows "threads_ok s'"
proof -
  have "holder (mu s') = None \<longrightarrow> gap (mu s') = []"
    using threads_refine [OF assms(1)] gap_free [of "session_act W" e UNIV "mu s" "mu s'"] assms(2) by (auto simp: threads_ok_def)
  moreover have "process_ok (proc s')"
    using assms(1)
  proof (cases rule: threads_step.cases)
    case (connection_up c h)
    from connection_up(3) show ?thesis
      by (cases rule: fireOnUp_cases) (use assms(2) connection_up(1) in \<open>auto simp: threads_ok_def process_ok_def\<close>)
  next
    case (hook_moves hs p hs' p' q)
    then show ?thesis using assms(2) pass_step_fields [OF hook_moves(3)] by (auto simp: threads_ok_def process_ok_def)
  next
    case (hook_returns hs p hs' q)
    then show ?thesis using assms(2) pass_step_fields [OF hook_returns(3)] by (auto simp: threads_ok_def process_ok_def hook_Done_def)
  next
    case (announcing p r q)
    then show ?thesis using assms(2) pass_step_fields [OF announcing(3)] by (auto simp: threads_ok_def process_ok_def split: option.splits)
  qed (use assms(2) in \<open>auto simp: threads_ok_def process_ok_def SetOnMessage_def drainHook_close_def hook_drained_def\<close>)
  ultimately show ?thesis by (simp add: threads_ok_def)
qed

lemma threads_reach_ok:
  assumes "(threads_step e W)\<^sup>*\<^sup>* (threads_start w) s"
  shows "threads_ok s"
  using assms
proof (induction rule: rtranclp_induct)
  case base
  show ?case by (simp add: threads_ok_def threads_start_def goroutines_start_def process_ok_start)
next
  case (step s s')
  from step.hyps(2) step.IH show ?case by (rule threads_ok_step)
qed

context process_plant
begin

lemma wired_threads_step:
  assumes "threads_step e threads s s'" "wired (proc s)"
  shows "wired (proc s')"
  using assms(1)
proof (cases rule: threads_step.cases)
  case (connection_up c h)
  from connection_up(3) show ?thesis by (cases rule: fireOnUp_cases) (use assms(2) connection_up(1) in \<open>auto simp: wired_def\<close>)
next
  case (hook_moves hs p hs' p' q)
  have "wired (view e threads s)" using assms(2) by (simp add: wired_def)
  then show ?thesis using hook_moves pass_untouched [OF hook_moves(3)] assms(2) by (auto simp: wired_def)
next
  case (hook_returns hs p hs' q)
  have "wired (view e threads s)" using assms(2) by (simp add: wired_def)
  then show ?thesis using hook_returns pass_untouched [OF hook_returns(3)] assms(2) by (auto simp: wired_def hook_Done_def)
next
  case (announcing p r q)
  have "wired (view e threads s)" using assms(2) by (simp add: wired_def)
  then show ?thesis using announcing pass_untouched [OF announcing(3)] assms(2) by (auto simp: wired_def split: option.splits)
qed (use assms(2) in \<open>auto simp: wired_def SetOnMessage_def drainHook_close_def serve_wiring_def\<close>)

lemma threads_finish:
  assumes "\<And>w. only_net w (snd (stop w))" "(threads_step e threads)\<^sup>*\<^sup>* (threads_start w) s"
    and "stage (proc s) \<in> {Exiting, SchedDone, OfflineSent, Closing, Drained, Disconnected}"
  shows "\<exists>s'. (threads_step e threads)\<^sup>*\<^sup>* s s' \<and> idle s' \<and> stage (proc s') = Stopped \<and> expired (proc s') = expired (proc s) \<and>
    exit_err (proc s') = exit_err (proc s)"
proof -
  have ok: "threads_ok s" by (rule threads_reach_ok [OF assms(2)])
  have W: "wired (proc s)" using assms(2)
    by (induction rule: rtranclp_induct) (auto intro: wired_threads_step simp: threads_start_def)
  obtain s1 where S1: "(threads_step e threads)\<^sup>*\<^sup>* s s1" "idle s1" "proc s1 = proc s"
    using threads_clear [of s e threads] ok by (auto simp: threads_ok_def)
  have "process_ok (view e threads s1)" using ok S1(3) by (simp add: threads_ok_def process_ok_def)
  then have "finishes threads (view e threads s1)" using finishes_late [of "view e threads s1" threads] assms(3) S1(3) by auto
  then obtain q where Q: "(process_step threads)\<^sup>*\<^sup>* (view e threads s1) q" "stage q = Stopped" "expired q = expired (proc s)" "exit_err q = exit_err (proc s)"
    using S1(3) by (auto simp: finishes_def)
  have "wired (view e threads s1)" using W S1(3) by (simp add: wired_def)
  from lifecycle_run [OF assms(1) Q(1) this S1(2)] obtain s2 where
    S2: "(threads_step e threads)\<^sup>*\<^sup>* s1 s2" "idle s2" "view e threads s2 = q" by (auto simp: embeds_def)
  have "stage (proc s2) = stage q" "expired (proc s2) = expired q" "exit_err (proc s2) = exit_err q" by (simp_all add: S2(3) [symmetric])
  with Q S2(2) rtranclp_trans [OF S1(1) S2(1)] show ?thesis by (intro exI [of _ s2]) simp
qed

text \<open>The process can serve, and a poll can hold the lock then.\<close>

lemma lifecycle_from_start:
  assumes "\<And>w. only_net w (snd (stop w))" "(process_step threads)\<^sup>*\<^sup>* (process_start w) q"
  shows "\<exists>s. (threads_step e threads)\<^sup>*\<^sup>* (threads_start w) s \<and> idle s \<and> view e threads s = q"
proof -
  have I: "idle (threads_start w)" by (simp add: idle_def threads_start_def goroutines_start_def)
  then have V: "view e threads (threads_start w) = process_start w"
    by (simp add: view_idle) (simp add: threads_start_def goroutines_start_def process_start_def)
  show ?thesis using lifecycle_run [OF assms(1), of "threads_start w" q] assms(2) I by (simp add: V embeds_def)
qed

lemma reach_mid_poll:
  assumes "\<And>w. only_net w (snd (stop w))"
  shows "\<exists>s. (threads_step e threads)\<^sup>*\<^sup>* (threads_start w) s \<and> stage (proc s) = Serving \<and> holder (mu s) = Some (PollCycle, [])"
proof -
  obtain q where Q: "(process_step threads)\<^sup>*\<^sup>* (process_start w) q" "stage q = Serving"
    using reach_serving [of threads w] by (elim exE conjE)
  from lifecycle_from_start [OF assms Q(1)] obtain s where
    S: "(threads_step e threads)\<^sup>*\<^sup>* (threads_start w) s" "idle s" "view e threads s = q" by (elim exE conjE)
  have stage: "stage (proc s) = Serving" using Q(2) by (simp add: S(3) [symmetric])
  define s1 where "s1 = s\<lparr>mu := arrive PollCycle (mu s)\<rparr>"
  define g where "g = (mu s1)\<lparr>holder := Some (PollCycle, []), blocked := []\<rparr>"
  have "threads_step e threads s s1" unfolding s1_def
    by (rule threads_step.poll_due) (use stage S(2) in \<open>simp_all add: poll_pending_def idle_def\<close>)
  moreover have "lock_moves (session_act threads) e (mu s1) g" unfolding lock_moves_def g_def
    using apiMu_step.acquires [of "mu s1" "[]" PollCycle "[]" "session_act threads" e "{}"] S(2) by (simp add: s1_def arrive_def idle_def)
  then have "threads_step e threads s1 (s1\<lparr>mu := g\<rparr>)" by (rule threads_step.cycle)
  ultimately have "(threads_step e threads)\<^sup>*\<^sup>* (threads_start w) (s1\<lparr>mu := g\<rparr>)" using S(1) by (meson rtranclp.rtrancl_into_rtrancl)
  then show ?thesis using stage by (intro exI [of _ "s1\<lparr>mu := g\<rparr>"]) (simp add: s1_def g_def)
qed

end

section \<open>Properties\<close>


text \<open>A mock process with a broker, in the middle of a poll.\<close>

lemma mock_mid_poll:
  assumes "parseBool (broker_environ flag) ''CONTROLS_ENABLED'' True = (on, None)"
  shows "\<exists>st n' s. serve_startup (mock_pf (broker_environ flag) t) n = Some (Inr st, n') \<and>
    process_plant (bus_via fst put_fst mock_client) UNIV (mock_holding \<circ> fst) (mock_wear \<circ> fst) (st_env st)
      (pf_cm (mock_pf (broker_environ flag) t)) (\<lambda>w. (None, w)) \<and>
    (threads_step (st_env st) (serve_wiring (st_env st) (pf_cm (mock_pf (broker_environ flag) t)) (\<lambda>w. (None, w))))\<^sup>*\<^sup>*
      (threads_start (st_world st)) s \<and> stage (proc s) = Serving \<and> holder (mu s) = Some (PollCycle, [])"
proof -
  let ?pf = "mock_pf (broker_environ flag) t"
  obtain st n' cfg win a where S: "serve_startup ?pf n = Some (Inr st, n')" "st_env st = serve_env_of ?pf cfg win a"
    using broker_startup [OF assms] by blast
  have plant: "process_plant (bus_via fst put_fst mock_client) UNIV (mock_holding \<circ> fst) (mock_wear \<circ> fst) (st_env st) (pf_cm ?pf) (\<lambda>w. (None, w))"
    unfolding S(2) by (rule mock_serve.process_plant_axioms)
  from process_plant.reach_mid_poll [OF this, of "st_world st"] obtain s where
    "(threads_step (st_env st) (serve_wiring (st_env st) (pf_cm ?pf) (\<lambda>w. (None, w))))\<^sup>*\<^sup>* (threads_start (st_world st)) s"
    "stage (proc s) = Serving" "holder (mu s) = Some (PollCycle, [])" by auto
  with S(1) plant show ?thesis by (intro exI [of _ st] exI [of _ n'] exI [of _ s] conjI)
qed


text \<open>
  C5: a process whose \<open>CONTROLS_ENABLED\<close> is off is read-only: from the end of its startup to the last
  step of its shutdown, in every interleaving of the calls of its goroutines and whatever the broker
  delivers, it sends not one write frame and changes no register it could have written.
\<close>

theorem served_read_only:
  assumes "serve_startup pf n = Some (Inr st, n')" "\<not> fst (parseBool (pf_environ pf) ''CONTROLS_ENABLED'' True)"
    and "process_plant bus S holding wear (st_env st) (pf_cm pf) stop"
    and "(threads_step (st_env st) (serve_wiring (st_env st) (pf_cm pf) stop))\<^sup>*\<^sup>* (threads_start (st_world st)) s"
  shows "wear (net (world_now (st_env st) (serve_wiring (st_env st) (pf_cm pf) stop) s)) = wear n' \<and>
    (\<forall>b \<in> S. holding (net (world_now (st_env st) (serve_wiring (st_env st) (pf_cm pf) stop) s)) b = holding n' b)"
proof -
  note H = startup_hands_over [OF assms(1)]
  have off: "\<not> env_controls (st_env st)" using H(2) assms(2) by simp
  from process_plant.threads_read_only [OF assms(3,4) off] show ?thesis
    by (simp add: process_plant.untouched_def [OF assms(3)] H(1))
qed

theorem served_read_only_witness:
  "\<exists>st n' s. serve_startup (mock_pf (broker_environ ''false'') Time_zero) mock_boot = Some (Inr st, n') \<and>
     (threads_step (st_env st) (serve_wiring (st_env st) (pf_cm (mock_pf (broker_environ ''false'') Time_zero)) (\<lambda>w. (None, w))))\<^sup>*\<^sup>*
       (threads_start (st_world st)) s \<and> holder (mu s) = Some (PollCycle, []) \<and>
     mock_wear (fst (net (world_now (st_env st)
       (serve_wiring (st_env st) (pf_cm (mock_pf (broker_environ ''false'') Time_zero)) (\<lambda>w. (None, w))) s))) = mock_wear (fst n')"
proof -
  let ?pf = "mock_pf (broker_environ ''false'') Time_zero"
  have off: "\<not> fst (parseBool (pf_environ ?pf) ''CONTROLS_ENABLED'' True)" by (simp add: mock_pf_def broker_flags(1))
  from mock_mid_poll [OF broker_flags(1), of Time_zero mock_boot] obtain st n' s where
    S: "serve_startup ?pf mock_boot = Some (Inr st, n')"
      "process_plant (bus_via fst put_fst mock_client) UNIV (mock_holding \<circ> fst) (mock_wear \<circ> fst) (st_env st) (pf_cm ?pf) (\<lambda>w. (None, w))"
      "(threads_step (st_env st) (serve_wiring (st_env st) (pf_cm ?pf) (\<lambda>w. (None, w))))\<^sup>*\<^sup>* (threads_start (st_world st)) s"
      "holder (mu s) = Some (PollCycle, [])" by (elim exE conjE)
  from served_read_only [OF S(1) off S(2,3)] S(1,3,4) show ?thesis
    by (intro exI [of _ st] exI [of _ n'] exI [of _ s] conjI) (simp_all only: comp_apply)
qed

text \<open>
  C18: the shutdown never gets stuck on the lock: from every state of a process that is exiting, with a
  poll or a command in the middle of its calls, others waiting for \<open>apiMu\<close> and any hooks in flight, the
  goroutines can run on to the end of the teardown without a timeout; every cycle has then released the
  lock, and the exit error is the one of the branch that was taken.
\<close>

theorem contended_teardown_completes:
  assumes "process_plant bus S holding wear e cm stop" "\<And>w. only_net w (snd (stop w))"
    and "(threads_step e (serve_wiring e cm stop))\<^sup>*\<^sup>* (threads_start w) s"
    and "stage (proc s) \<in> {Exiting, SchedDone, OfflineSent, Closing, Drained, Disconnected}"
  shows "\<exists>s'. (threads_step e (serve_wiring e cm stop))\<^sup>*\<^sup>* s s' \<and> stage (proc s') = Stopped \<and> holder (mu s') = None \<and>
    blocked (mu s') = [] \<and> expired (proc s') = expired (proc s) \<and> exit_err (proc s') = exit_err (proc s)"
  using process_plant.threads_finish [OF assms] by (auto simp: idle_def)

theorem contended_teardown_completes_witness:
  "\<exists>st n' s s'. serve_startup (mock_pf (broker_environ ''true'') Time_zero) mock_boot = Some (Inr st, n') \<and>
     stage (proc s) = Exiting \<and> holder (mu s) = Some (PollCycle, []) \<and>
     (threads_step (st_env st) (serve_wiring (st_env st) (pf_cm (mock_pf (broker_environ ''true'') Time_zero)) (\<lambda>w. (None, w))))\<^sup>*\<^sup>* s s' \<and>
     stage (proc s') = Stopped \<and> holder (mu s') = None"
proof -
  let ?pf = "mock_pf (broker_environ ''true'') Time_zero"
  from mock_mid_poll [OF broker_flags(2), of Time_zero mock_boot] obtain st n' s where
    S: "serve_startup ?pf mock_boot = Some (Inr st, n')"
      "process_plant (bus_via fst put_fst mock_client) UNIV (mock_holding \<circ> fst) (mock_wear \<circ> fst) (st_env st) (pf_cm ?pf) (\<lambda>w. (None, w))"
      "(threads_step (st_env st) (serve_wiring (st_env st) (pf_cm ?pf) (\<lambda>w. (None, w))))\<^sup>*\<^sup>* (threads_start (st_world st)) s"
      "stage (proc s) = Serving" "holder (mu s) = Some (PollCycle, [])" by (elim exE conjE)
  define s1 where "s1 = s\<lparr>proc := (proc s)\<lparr>stage := Exiting, exit_err := None\<rparr>\<rparr>"
  have "threads_step (st_env st) (serve_wiring (st_env st) (pf_cm ?pf) (\<lambda>w. (None, w))) s s1"
    using threads_step.exits [OF S(4), of "st_env st" "serve_wiring (st_env st) (pf_cm ?pf) (\<lambda>w. (None, w))" CtxDone] by (simp add: s1_def)
  with S(3) have R: "(threads_step (st_env st) (serve_wiring (st_env st) (pf_cm ?pf) (\<lambda>w. (None, w))))\<^sup>*\<^sup>* (threads_start (st_world st)) s1"
    by (rule rtranclp.rtrancl_into_rtrancl)
  have X: "stage (proc s1) = Exiting" "holder (mu s1) = Some (PollCycle, [])" using S(5) by (simp_all add: s1_def)
  from contended_teardown_completes [OF S(2) _ R] X(1) obtain s' where
    "(threads_step (st_env st) (serve_wiring (st_env st) (pf_cm ?pf) (\<lambda>w. (None, w))))\<^sup>*\<^sup>* s1 s'" "stage (proc s') = Stopped" "holder (mu s') = None"
    by auto
  with S(1) X show ?thesis by (intro exI [of _ st] exI [of _ n'] exI [of _ s1] exI [of _ s'] conjI)
qed



end
