(* ===== verification/Commands.thy ===== *)
theory Commands
  imports Deployment
begin

text \<open>
  The command line (\<open>internal/cmd/root.go\<close>, \<open>cmd/main.go\<close>): the root command with its subcommand \<open>serve\<close>,
  the local \<open>.env\<close> file that is loaded before a subcommand runs, and the exit code. How cobra resolves the
  arguments and how godotenv extends the environment are parameters; of godotenv it is relied on that it
  leaves the variables that are set alone.
\<close>

section \<open>root.go and serve.go: the commands\<close>

text \<open>
  What cobra makes of the arguments and the names of the subcommands: it runs one, prints the help text,
  which is no error, or refuses the arguments.
\<close>

datatype dispatch = RunSubcommand string | PrintHelp | Refuse go_error

datatype 'e exec_error = UsageError go_error | RunError 'e

text \<open>
  A command is its name and its \<open>RunE\<close>, which takes the environment the process has then; \<open>rootCmd\<close> is the
  list of the subcommands after \<open>init\<close>.
\<close>

definition serveCmd :: "(environ \<Rightarrow> 'w \<Rightarrow> ('e option \<times> 'w) option) \<Rightarrow> string \<times> (environ \<Rightarrow> 'w \<Rightarrow> ('e option \<times> 'w) option)" where
  "serveCmd runServe = (''serve'', \<lambda>vars. runServe vars)"

definition rootCmd :: "(environ \<Rightarrow> 'w \<Rightarrow> ('e option \<times> 'w) option) \<Rightarrow> (string \<times> (environ \<Rightarrow> 'w \<Rightarrow> ('e option \<times> 'w) option)) list" where
  "rootCmd runServe = [serveCmd runServe]"

definition PersistentPreRun :: "(environ \<Rightarrow> environ) \<Rightarrow> environ \<Rightarrow> environ" where
  "PersistentPreRun godotenv_Load vars = godotenv_Load vars"

text \<open>\<open>None\<close> is a command that does not return.\<close>

definition Execute :: "(string list \<Rightarrow> string list \<Rightarrow> dispatch) \<Rightarrow> (environ \<Rightarrow> environ) \<Rightarrow> (environ \<Rightarrow> 'w \<Rightarrow> ('e option \<times> 'w) option) \<Rightarrow>
    string list \<Rightarrow> environ \<Rightarrow> 'w \<Rightarrow> ('e exec_error option \<times> 'w) option" where
  "Execute resolve godotenv_Load runServe args vars w =
     (case resolve (map fst (rootCmd runServe)) args of
        PrintHelp \<Rightarrow> Some (None, w)
      | Refuse err \<Rightarrow> Some (Some (UsageError err), w)
      | RunSubcommand name \<Rightarrow>
          (case map_of (rootCmd runServe) name of
             None \<Rightarrow> Some (None, w)
           | Some run \<Rightarrow>
               (case run (PersistentPreRun godotenv_Load vars) w of
                  None \<Rightarrow> None
                | Some (err, w) \<Rightarrow> Some (map_option RunError err, w))))"

section \<open>main.go\<close>

text \<open>The error \<open>main\<close> prints and the exit code.\<close>

definition main_run :: "('e option \<times> 'w) option \<Rightarrow> (('e option \<times> int) \<times> 'w) option" where
  "main_run executed = map_option (\<lambda>(err, w). ((err, main_exit err), w)) executed"

section \<open>The environment and the file\<close>

text \<open>A loader that leaves the variables that are set alone.\<close>

definition keeps_set :: "(environ \<Rightarrow> environ) \<Rightarrow> bool" where
  "keeps_set godotenv_Load \<longleftrightarrow> (\<forall>vars key v. vars key = Some v \<longrightarrow> godotenv_Load vars key = Some v)"

text \<open>A file of pairs; the first pair of a key counts here.\<close>

definition dotenv_file :: "(string \<times> string) list \<Rightarrow> environ \<Rightarrow> environ" where
  "dotenv_file pairs vars = map_of pairs ++ vars"

lemma dotenv_file_keeps: "keeps_set (dotenv_file pairs)"
  by (simp add: keeps_set_def dotenv_file_def)

lemma parseBool_kept:
  assumes "keeps_set godotenv_Load" "vars key = Some v"
  shows "parseBool (godotenv_Load vars) key def = parseBool vars key def"
  using assms by (simp add: keeps_set_def parseBool_def Getenv_def)

text \<open>
  A process started with \<open>CONTROLS_ENABLED\<close> set to a false value is read-only whatever its \<open>.env\<close> says.
\<close>

lemma variable_over_file:
  assumes "keeps_set godotenv_Load" "vars ''CONTROLS_ENABLED'' = Some v" "\<not> fst (parseBool vars ''CONTROLS_ENABLED'' True)"
    and "pf_environ pf = PersistentPreRun godotenv_Load vars" "serve_startup pf n = Some (Inr st, n')"
    and "process_plant bus S holding wear (st_env st) (pf_cm pf) stop"
    and "(process_step (serve_wiring (st_env st) (pf_cm pf) stop))\<^sup>*\<^sup>* (process_start (st_world st)) s"
  shows "wear (net (env s)) = wear n'"
proof -
  have "\<not> env_controls (st_env st)"
    using startup_hands_over(2) [OF assms(5)] parseBool_kept [of godotenv_Load vars "''CONTROLS_ENABLED''" v True] assms(1-4) by (simp add: PersistentPreRun_def)
  from process_plant.process_read_only [OF assms(6,7) this] show ?thesis
    by (simp add: process_plant.untouched_def [OF assms(6)] startup_hands_over(1) [OF assms(5)])
qed

text \<open>
  The exit code of the whole process without a broker, whatever the arguments: the help text and a run
  that ends with its context cost zero, arguments cobra refuses and everything else one, and a process
  that does not get as far as its startup leaves the outside as it was.
\<close>

lemma main_exit_code:
  assumes deadline: "\<And>url. deadline (pf_http pf url) (pf_startup_wait pf) left"
    and "Getenv (godotenv_Load vars) ''MQTT_BROKER_URL'' = []"
    and "\<And>name. resolve [''serve''] args = RunSubcommand name \<Longrightarrow> name = ''serve''"
  shows "\<exists>err code n'. main_run (Execute resolve godotenv_Load (\<lambda>vars. runServe_local (pf\<lparr>pf_environ := vars\<rparr>) ws ev stop) args vars n) =
      Some ((err, code), n') \<and>
    (code = 0 \<longleftrightarrow> (case resolve [''serve''] args of PrintHelp \<Rightarrow> True | Refuse _ \<Rightarrow> False
       | RunSubcommand _ \<Rightarrow> \<not> isl (serve_load (pf\<lparr>pf_environ := godotenv_Load vars\<rparr>)) \<and> (ev = CtxDone \<or> ev = HealthErr None))) \<and>
    (code = 0 \<or> code = 1) \<and> ((\<forall>name. resolve [''serve''] args \<noteq> RunSubcommand name) \<longrightarrow> n' = n)"
proof (cases "resolve [''serve''] args")
  case (RunSubcommand name)
  then have name: "name = ''serve''" by (rule assms(3))
  let ?pf = "pf\<lparr>pf_environ := godotenv_Load vars\<rparr>"
  obtain err n' where R: "runServe_local ?pf ws ev stop n = Some (err, n')" and
    E: "main_exit err = 0 \<longleftrightarrow> \<not> isl (serve_load ?pf) \<and> (ev = CtxDone \<or> ev = HealthErr None)"
    using local_exit_code [of ?pf left ws ev stop n] deadline assms(2) by auto
  have "main_exit (map_option RunError err) = main_exit err" "main_exit err = 0 \<or> main_exit err = 1"
    by (simp_all add: main_exit_def split: option.split)
  with R E RunSubcommand name show ?thesis
    by (auto simp: main_run_def Execute_def rootCmd_def serveCmd_def PersistentPreRun_def)
qed (simp_all add: main_run_def Execute_def rootCmd_def serveCmd_def main_exit_def)

end
