(* ===== verification/LiveTransport.thy ===== *)
theory LiveTransport
  imports Manager
begin

text \<open>
  The live transport of the sidecar (\<open>sidecar/transport.py\<close>): one Solarman client object that is opened
  lazily, every call behind one lock, and the exceptions of the library mapped to the taxonomy. The
  library \<open>pysolarmanv5\<close> and the datalogger behind it are a parameter, \<open>Solarman\<close>; what is relied on is
  the locale \<open>solarman\<close>, and \<open>solarman_up\<close> for the time the datalogger answers. Over any such library the
  transport keeps the contract of \<open>Sidecar\<close>, so that the client is a \<open>faithful_bus\<close>, and a \<open>live_bus\<close> as
  soon as the datalogger answers again.
\<close>

section \<open>The library\<close>

text \<open>
  The exceptions \<open>_call\<close> tells apart; \<open>socket.timeout\<close> is \<open>TimeoutError\<close>, which is an \<open>OSError\<close>, and
  \<open>ConnectionError\<close> is an \<open>OSError\<close> too. \<open>OtherException\<close> is everything else.
\<close>

datatype py_exception =
    TimeoutError string
  | QueueEmpty string
  | V5FrameError string
  | StructError string
  | ModbusError string
  | NoSocketAvailableError string
  | OSError string
  | OtherException string

fun exn_str :: "py_exception \<Rightarrow> string" where
  "exn_str (TimeoutError m) = m"
| "exn_str (QueueEmpty m) = m"
| "exn_str (V5FrameError m) = m"
| "exn_str (StructError m) = m"
| "exn_str (ModbusError m) = m"
| "exn_str (NoSocketAvailableError m) = m"
| "exn_str (OSError m) = m"
| "exn_str (OtherException m) = m"

record 'd Solarman =
  py_open :: "'d \<Rightarrow> py_exception option \<times> 'd"
  py_close :: "'d \<Rightarrow> 'd"
  py_read_input_registers :: "int \<Rightarrow> int \<Rightarrow> 'd \<Rightarrow> (py_exception + int list) \<times> 'd"
  py_read_holding_registers :: "int \<Rightarrow> int \<Rightarrow> 'd \<Rightarrow> (py_exception + int list) \<times> 'd"
  py_write_holding_register :: "int \<Rightarrow> int \<Rightarrow> 'd \<Rightarrow> (py_exception + int) \<times> 'd"

section \<open>transport.py\<close>

text \<open>\<open>solarman_set\<close> says whether \<open>_solarman\<close> is set; the client object is part of the library's state.\<close>

record 'd LiveTransport =
  solarman_set :: bool
  datalogger :: 'd

definition HEALTH_PROBE_ADDR :: int where "HEALTH_PROBE_ADDR = 33022"

text \<open>
  An exception that is none of the taxonomy leaves the transport as it is and becomes a \<open>SidecarError\<close>
  with its text in the catch-all of the request handler.
\<close>

definition connect_if_needed :: "'d Solarman \<Rightarrow> 'd LiveTransport \<Rightarrow> sidecar_error option \<times> 'd LiveTransport" where
  "connect_if_needed lib t =
     (if solarman_set t then (None, t)
      else
        (case py_open lib (datalogger t) of
           (None, d) \<Rightarrow> (None, t\<lparr>solarman_set := True, datalogger := d\<rparr>)
         | (Some ex, d) \<Rightarrow>
             (Some (case ex of
                      NoSocketAvailableError m \<Rightarrow> TransportConnectionError m
                    | OSError m \<Rightarrow> TransportConnectionError m
                    | TimeoutError m \<Rightarrow> TransportConnectionError m
                    | _ \<Rightarrow> SidecarError (exn_str ex)),
              t\<lparr>datalogger := d\<rparr>)))"

definition disconnect_transport :: "'d Solarman \<Rightarrow> 'd LiveTransport \<Rightarrow> 'd LiveTransport" where
  "disconnect_transport lib t =
     (if solarman_set t then t\<lparr>solarman_set := False, datalogger := py_close lib (datalogger t)\<rparr> else t)"

definition transport_call :: "'d Solarman \<Rightarrow> ('d \<Rightarrow> (py_exception + 'r) \<times> 'd) \<Rightarrow> 'd LiveTransport \<Rightarrow> (sidecar_error + 'r) \<times> 'd LiveTransport" where
  "transport_call lib fn t =
     (case connect_if_needed lib t of
        (Some e, t) \<Rightarrow> (Inl e, t)
      | (None, t) \<Rightarrow>
          (case fn (datalogger t) of
             (Inr x, d) \<Rightarrow> (Inr x, t\<lparr>datalogger := d\<rparr>)
           | (Inl ex, d) \<Rightarrow>
               (let t = t\<lparr>datalogger := d\<rparr>;
                    no_reply = (\<lambda>m. if m = [] then ''no reply within socket timeout'' else m)
                in case ex of
                     TimeoutError m \<Rightarrow> (Inl (RequestTimeoutError (no_reply m)), disconnect_transport lib t)
                   | QueueEmpty m \<Rightarrow> (Inl (RequestTimeoutError (no_reply m)), disconnect_transport lib t)
                   | V5FrameError m \<Rightarrow> (Inl (FrameError m), disconnect_transport lib t)
                   | StructError m \<Rightarrow> (Inl (FrameError m), disconnect_transport lib t)
                   | ModbusError m \<Rightarrow> (Inl (IllegalAddressError m), disconnect_transport lib t)
                   | NoSocketAvailableError m \<Rightarrow> (Inl (TransportConnectionError m), disconnect_transport lib t)
                   | OSError m \<Rightarrow> (Inl (TransportConnectionError m), disconnect_transport lib t)
                   | OtherException m \<Rightarrow> (Inl (SidecarError m), t))))"

definition live_transport :: "'d Solarman \<Rightarrow> 'd LiveTransport Transport" where
  "live_transport lib =
     \<lparr>tr_read_input = (\<lambda>addr count. transport_call lib (py_read_input_registers lib addr count)),
      tr_read_holding = (\<lambda>addr count. transport_call lib (py_read_holding_registers lib addr count)),
      tr_write_holding = (\<lambda>addr value. transport_call lib (py_write_holding_register lib addr value)),
      tr_health = (\<lambda>t. let (r, t) = transport_call lib (py_read_input_registers lib HEALTH_PROBE_ADDR 1) t in (\<not> isl r, t))\<rparr>"

abbreviation live_http :: "'d Solarman \<Rightarrow> 'd LiveTransport remote httpDoer" where
  "live_http lib \<equiv> http_over (live_transport lib) ''live''"

section \<open>The contract\<close>

text \<open>
  What the library and the datalogger are relied on for: opening, closing and reading leave the registers
  of \<open>stable\<close> alone, a read that returns has the words of the registers, and a write that returns was
  carried out once; a write that raises was carried out once or not at all.
\<close>

locale solarman =
  fixes lib :: "'d Solarman" and stable :: "int set" and regs :: "'d \<Rightarrow> bank" and writes :: "'d \<Rightarrow> (int \<times> u16) list"
  assumes open_quiet: "py_open lib d = (x, d') \<Longrightarrow> writes d' = writes d \<and> (\<forall>b \<in> stable. regs d' b = regs d b)"
    and close_quiet: "writes (py_close lib d) = writes d \<and> (\<forall>b \<in> stable. regs (py_close lib d) b = regs d b)"
    and py_input_quiet: "py_read_input_registers lib a n d = (r, d') \<Longrightarrow> writes d' = writes d \<and> (\<forall>b \<in> stable. regs d' b = regs d b)"
    and py_holding_quiet: "py_read_holding_registers lib a n d = (r, d') \<Longrightarrow> writes d' = writes d \<and> (\<forall>b \<in> stable. regs d' b = regs d b)"
    and py_holding_words: "py_read_holding_registers lib a n d = (Inr ws, d') \<Longrightarrow> 1 \<le> n \<Longrightarrow>
      length ws = nat n \<and> (\<forall>i < length ws. a + int i \<in> stable \<longrightarrow> of_int (ws ! i) = regs d (a + int i))"
    and py_write_once: "py_write_holding_register lib a (uint v) d = (q, d') \<Longrightarrow>
      isl q \<and> writes d' = writes d \<and> (\<forall>b \<in> stable. regs d' b = regs d b) \<or>
      writes d' = writes d @ [(a, v)] \<and> (\<forall>b \<in> stable. regs d' b = (if b = a then v else regs d b))"
begin

text \<open>The registers are as they were.\<close>

definition same_regs :: "'d \<Rightarrow> 'd \<Rightarrow> bool" where
  "same_regs d d' \<longleftrightarrow> writes d' = writes d \<and> (\<forall>b \<in> stable. regs d' b = regs d b)"

lemma same_regs_trans: "same_regs d d1 \<Longrightarrow> same_regs d1 d2 \<Longrightarrow> same_regs d d2"
  by (simp add: same_regs_def)

lemma connect_same: "connect_if_needed lib t = (e, t') \<Longrightarrow> same_regs (datalogger t) (datalogger t')"
  using open_quiet [of "datalogger t"]
  by (auto simp: connect_if_needed_def same_regs_def split: if_splits prod.splits option.splits)

lemma disconnect_same: "same_regs (datalogger t) (datalogger (disconnect_transport lib t))"
  using close_quiet [of "datalogger t"] by (simp add: disconnect_transport_def same_regs_def)

text \<open>A call of the transport is a call of the library, or a connect that failed.\<close>

lemma transport_call_cases:
  assumes "transport_call lib fn t = (r, t')"
  obtains (unconnected) e where "r = Inl e" "same_regs (datalogger t) (datalogger t')"
  | (raised) d ex d' e where "same_regs (datalogger t) d" "fn d = (Inl ex, d')" "same_regs d' (datalogger t')" "r = Inl e"
  | (returned) d x where "same_regs (datalogger t) d" "fn d = (Inr x, datalogger t')" "r = Inr x"
proof -
  obtain c t1 where C: "connect_if_needed lib t = (c, t1)" by fastforce
  note S = connect_same [OF C]
  show ?thesis
  proof (cases c)
    case (Some e)
    then show ?thesis using assms C S unconnected by (auto simp: transport_call_def)
  next
    case None
    obtain y d where F: "fn (datalogger t1) = (y, d)" by fastforce
    show ?thesis
    proof (cases y)
      case (Inr x)
      then show ?thesis using assms C None F S returned by (auto simp: transport_call_def)
    next
      case (Inl ex)
      have "same_regs d (datalogger t') \<and> (\<exists>e. r = Inl e)"
        using assms C None F Inl disconnect_same [of "t1\<lparr>datalogger := d\<rparr>"]
        by (auto simp: transport_call_def same_regs_def Let_def split: py_exception.splits)
      then show ?thesis using S F Inl raised by blast
    qed
  qed
qed

lemma transport_call_quiet:
  assumes "transport_call lib fn t = (r, t')" "\<And>d r d'. fn d = (r, d') \<Longrightarrow> same_regs d d'"
  shows "same_regs (datalogger t) (datalogger t')"
  using assms(1) by (cases rule: transport_call_cases) (use assms(2) same_regs_trans in blast)+

end

sublocale solarman \<subseteq> live: register_transport "live_transport lib" stable "regs \<circ> datalogger" "writes \<circ> datalogger"
proof
  fix a n t r t'
  show "(writes \<circ> datalogger) t' = (writes \<circ> datalogger) t \<and> (\<forall>b \<in> stable. (regs \<circ> datalogger) t' b = (regs \<circ> datalogger) t b)"
    if "tr_read_input (live_transport lib) a n t = (r, t')"
    using transport_call_quiet [of "py_read_input_registers lib a n" t r t'] that py_input_quiet
    by (simp add: live_transport_def same_regs_def)
  show "(writes \<circ> datalogger) t' = (writes \<circ> datalogger) t \<and> (\<forall>b \<in> stable. (regs \<circ> datalogger) t' b = (regs \<circ> datalogger) t b)"
    if "tr_read_holding (live_transport lib) a n t = (r, t')"
    using transport_call_quiet [of "py_read_holding_registers lib a n" t r t'] that py_holding_quiet
    by (simp add: live_transport_def same_regs_def)
next
  fix t up t'
  assume "tr_health (live_transport lib) t = (up, t')"
  then obtain r where "transport_call lib (py_read_input_registers lib HEALTH_PROBE_ADDR 1) t = (r, t')"
    by (auto simp: live_transport_def split: prod.splits)
  from transport_call_quiet [OF this] py_input_quiet
  show "(writes \<circ> datalogger) t' = (writes \<circ> datalogger) t \<and> (\<forall>b \<in> stable. (regs \<circ> datalogger) t' b = (regs \<circ> datalogger) t b)"
    by (simp add: same_regs_def)
next
  fix a n t ws t'
  assume "tr_read_holding (live_transport lib) a n t = (Inr ws, t')" "1 \<le> n"
  then have "transport_call lib (py_read_holding_registers lib a n) t = (Inr ws, t')" by (simp add: live_transport_def)
  then show "length ws = nat n \<and> (\<forall>i < length ws. a + int i \<in> stable \<longrightarrow> of_int (ws ! i) = (regs \<circ> datalogger) t (a + int i))"
    by (cases rule: transport_call_cases) (use py_holding_words \<open>1 \<le> n\<close> in \<open>auto simp: same_regs_def\<close>)
next
  fix a t q t' and v :: u16
  assume "tr_write_holding (live_transport lib) a (uint v) t = (q, t')"
  then have "transport_call lib (py_write_holding_register lib a (uint v)) t = (q, t')" by (simp add: live_transport_def)
  then show "isl q \<and> (writes \<circ> datalogger) t' = (writes \<circ> datalogger) t \<and> (\<forall>b \<in> stable. (regs \<circ> datalogger) t' b = (regs \<circ> datalogger) t b) \<or>
      (writes \<circ> datalogger) t' = (writes \<circ> datalogger) t @ [(a, v)] \<and>
      (\<forall>b \<in> stable. (regs \<circ> datalogger) t' b = (if b = a then v else (regs \<circ> datalogger) t b))"
  proof (cases rule: transport_call_cases)
    case (raised d ex d' e)
    from py_write_once [OF raised(2)] raised(1,3,4) show ?thesis by (auto simp: same_regs_def)
  next
    case (returned d x)
    from py_write_once [OF returned(2)] returned(1,3) show ?thesis by (auto simp: same_regs_def)
  qed (simp add: same_regs_def)
qed

text \<open>While the datalogger answers: opening succeeds and so do the calls, on words of 16 bits.\<close>

locale solarman_up = solarman +
  fixes up :: "'a \<Rightarrow> bool"
  assumes up_open: "up d \<Longrightarrow> \<exists>d'. py_open lib d = (None, d') \<and> up d'"
    and up_holding: "up d \<Longrightarrow> 0 \<le> a \<Longrightarrow> a < 65536 \<Longrightarrow> 1 \<le> n \<Longrightarrow> n \<le> 125 \<Longrightarrow>
      \<exists>ws d'. py_read_holding_registers lib a n d = (Inr ws, d') \<and> (\<forall>x \<in> set ws. 0 \<le> x \<and> x < 65536) \<and> up d'"
    and up_write_register: "up d \<Longrightarrow> 0 \<le> a \<Longrightarrow> a < 65536 \<Longrightarrow> \<exists>x d'. py_write_holding_register lib a (uint (v :: u16)) d = (Inr x, d') \<and> up d'"
begin

definition answers :: "'a LiveTransport remote \<Rightarrow> bool" where
  "answers w \<longleftrightarrow> fates w = [] \<and> up (datalogger (transport w))"

text \<open>Whatever the transport's client object is, a call over a datalogger that answers succeeds.\<close>

lemma transport_call_up:
  assumes "up (datalogger t)" "\<And>d. up d \<Longrightarrow> \<exists>x d'. fn d = (Inr x, d') \<and> P x \<and> up d'"
  shows "\<exists>x t'. transport_call lib fn t = (Inr x, t') \<and> P x \<and> up (datalogger t')"
proof -
  obtain t1 where C: "connect_if_needed lib t = (None, t1)" "up (datalogger t1)"
    using assms(1) up_open [OF assms(1)] by (cases "solarman_set t") (auto simp: connect_if_needed_def)
  obtain x d where "fn (datalogger t1) = (Inr x, d)" "P x" "up d" using assms(2) [OF C(2)] by blast
  then show ?thesis using C(1) by (simp add: transport_call_def)
qed

lemma answers_http:
  assumes "answers w" "serve (live_transport lib) ''live'' meth path body (transport w) = (resp, t')"
  shows "live_http lib meth path body w = (Inr resp, w\<lparr>transport := t'\<rparr>)"
  using assms by (simp add: http_over_def next_fate_def answers_def)

end

sublocale solarman_up \<subseteq> live: live_bus "Client (live_http lib)" stable "(regs \<circ> datalogger) \<circ> transport" "(writes \<circ> datalogger) \<circ> transport" answers
proof -
  have F: "faithful_bus (Client (live_http lib)) stable ((regs \<circ> datalogger) \<circ> transport) ((writes \<circ> datalogger) \<circ> transport)"
    by (rule live.client_faithful)
  have A: "live_bus_axioms (Client (live_http lib)) answers"
  proof
    fix w and a n :: int
    assume P: "answers w" "0 \<le> a" "a < 65536" "1 \<le> n" "n \<le> 125"
    let ?b = "Some (JObject [(''addr'', JInt a), (''count'', JInt n)])"
    have "up (datalogger (transport w))" using P(1) by (simp add: answers_def)
    from transport_call_up [OF this, of "py_read_holding_registers lib a n" "\<lambda>ws. \<forall>x \<in> set ws. 0 \<le> x \<and> x < 65536"] up_holding [OF _ P(2-5)]
    obtain ws t' where T: "tr_read_holding (live_transport lib) a n (transport w) = (Inr ws, t')" "\<forall>x \<in> set ws. 0 \<le> x \<and> x < 65536" "up (datalogger t')"
      by (auto simp: live_transport_def)
    have "serve (live_transport lib) ''live'' ''POST'' ''/read_holding'' ?b (transport w) =
        ((200, Some (JObject [(''addr'', JInt a), (''count'', JInt n), (''regs'', JList (map JInt ws))])), t')"
      using P T(1) by (simp add: serve_def handle_read_def read_body_def require_int_def U16_MAX_def MAX_COUNT_def)
    from answers_http [OF P(1) this] have "Client_ReadHolding (live_http lib) a n w = (Inr (map of_int ws), w\<lparr>transport := t'\<rparr>)"
      by (simp add: Client_ReadHolding_def Client_read_def Client_do_def decode_readResponse_regs json_u16s_in_range [OF T(2)])
    moreover have "length ws = nat n" using live.holding_words [OF T(1) P(4)] by simp
    ultimately show "\<exists>regs w'. ReadHolding (Client (live_http lib)) a n w = (Inr regs, w') \<and> length regs = nat n \<and> answers w'"
      using P(1) T(3) by (simp add: Client_def answers_def)
  next
    fix w and a :: int and v :: u16
    assume P: "answers w" "0 \<le> a" "a < 65536"
    let ?b = "Some (JObject [(''addr'', JInt a), (''value'', JInt (uint v))])"
    have "up (datalogger (transport w))" using P(1) by (simp add: answers_def)
    from transport_call_up [OF this, of "py_write_holding_register lib a (uint v)" "\<lambda>_. True"] up_write_register [OF _ P(2-3)]
    obtain x t' where T: "tr_write_holding (live_transport lib) a (uint v) (transport w) = (Inr x, t')" "up (datalogger t')"
      by (auto simp: live_transport_def)
    have "serve (live_transport lib) ''live'' ''POST'' ''/write_holding'' ?b (transport w) =
        ((200, Some (JObject [(''addr'', JInt a), (''value'', JInt (uint v)), (''ok'', JBool True)])), t')"
      using P T(1) uint_u16_bounds [of v] by (simp add: serve_def handle_write_def read_body_def require_int_def U16_MAX_def)
    from answers_http [OF P(1) this] show "\<exists>w'. WriteHolding (Client (live_http lib)) a v w = (Inr (), w') \<and> answers w'"
      using P(1) T(2) by (simp add: Client_def Client_WriteHolding_def Client_do_def decode_writeResponse_ok answers_def)
  qed
  show "live_bus (Client (live_http lib)) stable ((regs \<circ> datalogger) \<circ> transport) ((writes \<circ> datalogger) \<circ> transport) answers"
    using F A by (rule live_bus.intro)
qed

section \<open>The manager over the live transport\<close>

context solarman
begin

lemma live_faithful:
  "faithful_bus (Client (live_http lib)) stable ((regs \<circ> datalogger) \<circ> transport) ((writes \<circ> datalogger) \<circ> transport)"
  by (rule live.client_faithful)

lemma live_plant:
  assumes "env_client e = \<lparr>sidecar_ReadInput = Client_ReadInput (live_http lib), sidecar_Holding = Client (live_http lib)\<rparr>"
    and "{43110..43170} \<subseteq> stable"
    and "\<And>p t m rt w r w'. env_broker e = Some p \<Longrightarrow> p t m rt w = (r, w') \<Longrightarrow> transport w' = transport w"
    and "\<And>d w b w'. env_wait e d w = (b, w') \<Longrightarrow> transport w' = transport w"
    and "\<And>d w w'. env_wait e d w = (False, w') \<Longrightarrow> env_ctx_Err e w' \<noteq> None"
  shows "plant (Client (live_http lib)) stable ((regs \<circ> datalogger) \<circ> transport) ((writes \<circ> datalogger) \<circ> transport) e"
proof (intro plant.intro plant_axioms.intro live.client_faithful)
  show "sidecar_Holding (env_client e) = Client (live_http lib)" by (simp add: assms(1))
  show "{43110..43170} \<subseteq> stable" by (rule assms(2))
next
  fix a n w r w'
  assume "sidecar_ReadInput (env_client e) a n w = (r, w')"
  then have "Client_ReadInput (live_http lib) a n w = (r, w')" by (simp add: assms(1))
  from live.ReadInput_quiet [OF this]
  show "((writes \<circ> datalogger) \<circ> transport) w' = ((writes \<circ> datalogger) \<circ> transport) w \<and>
      (\<forall>b \<in> stable. ((regs \<circ> datalogger) \<circ> transport) w' b = ((regs \<circ> datalogger) \<circ> transport) w b)"
    by simp
next
  fix p t m rt w r' w'
  assume "env_broker e = Some p" "p t m rt w = (r', w')"
  from assms(3) [OF this]
  show "((writes \<circ> datalogger) \<circ> transport) w' = ((writes \<circ> datalogger) \<circ> transport) w \<and>
      (\<forall>b \<in> stable. ((regs \<circ> datalogger) \<circ> transport) w' b = ((regs \<circ> datalogger) \<circ> transport) w b)"
    by simp
next
  fix d w fired w'
  assume "env_wait e d w = (fired, w')"
  from assms(4) [OF this]
  show "((writes \<circ> datalogger) \<circ> transport) w' = ((writes \<circ> datalogger) \<circ> transport) w \<and>
      (\<forall>b \<in> stable. ((regs \<circ> datalogger) \<circ> transport) w' b = ((regs \<circ> datalogger) \<circ> transport) w b)"
    by simp
qed (rule assms(5))

end

context solarman_up
begin

lemma live_guard:
  assumes "up (datalogger t)" "0 \<le> a" "a < 65536" "a \<in> stable"
  shows "\<exists>res w'. Guard (Client (live_http lib)) a v \<lparr>transport = t, fates = []\<rparr> = ((res, None), w') \<and>
    regs (datalogger (transport w')) a = v"
proof -
  have "answers \<lparr>transport = t, fates = []\<rparr>" using assms(1) by (simp add: answers_def)
  from live.Guard_up [OF this assms(2-4)] obtain res w' where
    G: "Guard (Client (live_http lib)) a v \<lparr>transport = t, fates = []\<rparr> = ((res, None), w')" by blast
  from live.Guard_ok [OF G assms(4)] G show ?thesis by auto
qed

end

section \<open>Failures\<close>

text \<open>The class a failure of the library has for the client of the sidecar.\<close>

fun exn_class :: "py_exception \<Rightarrow> sentinel" where
  "exn_class (TimeoutError m) = ErrTimeout"
| "exn_class (QueueEmpty m) = ErrTimeout"
| "exn_class (V5FrameError m) = ErrFrame"
| "exn_class (StructError m) = ErrFrame"
| "exn_class (ModbusError m) = ErrIllegalAddress"
| "exn_class (NoSocketAvailableError m) = ErrConnection"
| "exn_class (OSError m) = ErrConnection"
| "exn_class (OtherException m) = ErrInternal"

lemma transport_call_raises:
  assumes "solarman_set t" "fn (datalogger t) = (Inl ex, d)"
  shows "\<exists>e t'. transport_call lib fn t = (Inl e, t') \<and> error_class e = exn_class ex \<and>
    (solarman_set t' \<longleftrightarrow> exn_class ex = ErrInternal)"
  using assms by (cases ex) (simp_all add: transport_call_def connect_if_needed_def disconnect_transport_def)

lemma code_class: "sentinelForCode (error_code e) = error_class e"
  by (cases e) (simp_all add: sentinelForCode_def codeSentinels_def)

lemma ReadHolding_raises:
  assumes "tr_read_holding tr a n (transport w) = (Inl e, t')" "0 \<le> a" "a < 65536" "1 \<le> n" "n \<le> 125" "fates w = []"
  shows "Client_ReadHolding (http_over tr mode) a n w =
    (Inl (Wrap (''read_holding '' @ fmt_d a @ ''..'' @ fmt_d (a + n - 1)) (SidecarErr (error_code e) (error_message e) (error_status e))),
     w\<lparr>transport := t'\<rparr>)"
proof -
  let ?b = "Some (JObject [(''addr'', JInt a), (''count'', JInt n)])"
  have "serve tr mode ''POST'' ''/read_holding'' ?b (transport w) = (send_error e, t')"
    using assms(1-5) by (simp add: serve_def handle_read_def read_body_def require_int_def U16_MAX_def MAX_COUNT_def)
  then have "http_over tr mode ''POST'' ''/read_holding'' ?b w = (Inr (send_error e), w\<lparr>transport := t'\<rparr>)"
    using assms(6) by (simp add: http_over_def next_fate_def)
  moreover have "fst (send_error e) < 200 \<or> 300 \<le> fst (send_error e)" using error_status_range [of e] by (simp add: send_error_def)
  ultimately show ?thesis
    by (simp add: Client_ReadHolding_def Client_read_def Client_do_def parseError_send_error)
qed

section \<open>A simulated datalogger\<close>

text \<open>
  It raises what its script says and answers when the script is at its end; a write whose reply queue
  stays empty was carried out.
\<close>

record sim_datalogger =
  sim_regs :: bank
  sim_writes :: "(int \<times> u16) list"
  script :: "py_exception option list"

definition sim_next :: "sim_datalogger \<Rightarrow> py_exception option \<times> sim_datalogger" where
  "sim_next d = (case script d of [] \<Rightarrow> (None, d) | x # xs \<Rightarrow> (x, d\<lparr>script := xs\<rparr>))"

definition sim_read :: "int \<Rightarrow> int \<Rightarrow> sim_datalogger \<Rightarrow> (py_exception + int list) \<times> sim_datalogger" where
  "sim_read a n d =
     (case sim_next d of
        (Some ex, d) \<Rightarrow> (Inl ex, d)
      | (None, d) \<Rightarrow> (Inr (map (\<lambda>i. uint (sim_regs d (a + int i))) [0..<nat n]), d))"

definition sim_write :: "int \<Rightarrow> int \<Rightarrow> sim_datalogger \<Rightarrow> (py_exception + int) \<times> sim_datalogger" where
  "sim_write a v d =
     (let (x, d) = sim_next d;
          d' = d\<lparr>sim_regs := (sim_regs d)(a := of_int v), sim_writes := sim_writes d @ [(a, of_int v)]\<rparr>
      in case x of
           None \<Rightarrow> (Inr v, d')
         | Some ex \<Rightarrow> (Inl ex, case ex of QueueEmpty _ \<Rightarrow> d' | _ \<Rightarrow> d))"

definition sim_lib :: "sim_datalogger Solarman" where
  "sim_lib =
     \<lparr>py_open = sim_next, py_close = (\<lambda>d. d), py_read_input_registers = sim_read, py_read_holding_registers = sim_read,
      py_write_holding_register = sim_write\<rparr>"

lemma sim_next_regs: "sim_next d = (x, d') \<Longrightarrow> sim_regs d' = sim_regs d \<and> sim_writes d' = sim_writes d"
  by (auto simp: sim_next_def split: list.splits)

lemma sim_read_regs: "sim_read a n d = (r, d') \<Longrightarrow> sim_regs d' = sim_regs d \<and> sim_writes d' = sim_writes d"
  by (auto simp: sim_read_def split: prod.splits option.splits dest: sim_next_regs)

lemma sim_read_words: "sim_read a n d = (Inr ws, d') \<Longrightarrow> ws = map (\<lambda>i. uint (sim_regs d (a + int i))) [0..<nat n]"
  by (auto simp: sim_read_def split: prod.splits option.splits dest: sim_next_regs)

lemma sim_write_once:
  assumes "sim_write a (uint (v :: u16)) d = (q, d')"
  shows "isl q \<and> sim_writes d' = sim_writes d \<and> sim_regs d' = sim_regs d \<or>
    sim_writes d' = sim_writes d @ [(a, v)] \<and> sim_regs d' = (sim_regs d)(a := v)"
  using assms by (auto simp: sim_write_def Let_def split: prod.splits option.splits py_exception.splits dest: sim_next_regs)

interpretation sim: solarman_up sim_lib UNIV sim_regs sim_writes "\<lambda>d. script d = []"
proof (unfold_locales, unfold sim_lib_def Solarman.simps)
  fix a q d d' and v :: u16
  assume "sim_write a (uint v) d = (q, d')"
  from sim_write_once [OF this]
  show "isl q \<and> sim_writes d' = sim_writes d \<and> (\<forall>b \<in> UNIV. sim_regs d' b = sim_regs d b) \<or>
      sim_writes d' = sim_writes d @ [(a, v)] \<and> (\<forall>b \<in> UNIV. sim_regs d' b = (if b = a then v else sim_regs d b))"
    by auto
next
  fix a n ws and d d' :: sim_datalogger
  assume "sim_read a n d = (Inr ws, d')"
  from sim_read_words [OF this]
  show "length ws = nat n \<and> (\<forall>i < length ws. a + int i \<in> UNIV \<longrightarrow> of_int (ws ! i) = sim_regs d (a + int i))" by simp
next
  fix d :: sim_datalogger and a n :: int
  assume "script d = []"
  then show "\<exists>ws d'. sim_read a n d = (Inr ws, d') \<and> (\<forall>x \<in> set ws. 0 \<le> x \<and> x < 65536) \<and> script d' = []"
    using uint_u16_bounds by (auto simp: sim_read_def sim_next_def)
next
  show "\<exists>d'. sim_next d = (None, d') \<and> script d' = []" if "script d = []" for d using that by (simp add: sim_next_def)
  show "\<exists>x d'. sim_write a (uint v) d = (Inr x, d') \<and> script d' = []" if "script d = []" for a d and v :: u16
    using that by (simp add: sim_write_def sim_next_def)
qed (auto dest: sim_next_regs sim_read_regs)

section \<open>Properties\<close>

text \<open>
  C35: over the live transport the client keeps the contract the controls are proved against, whatever
  fails: with a library that reads and writes the registers as documented, behind a lazily opened socket
  and a network that refuses requests and loses replies, reads leave every register and the write log
  alone and tell the truth, an acknowledged write was carried out once, and a write that failed at any
  layer was carried out once or not at all.
\<close>

theorem live_client_contract:
  assumes "solarman lib S regs writes"
  shows "faithful_bus (Client (http_over (live_transport lib) ''live'')) S ((regs \<circ> datalogger) \<circ> transport) ((writes \<circ> datalogger) \<circ> transport)"
  by (rule solarman.live_faithful [OF assms])

theorem live_client_contract_witness:
  "faithful_bus (Client (http_over (live_transport sim_lib) ''live'')) UNIV ((sim_regs \<circ> datalogger) \<circ> transport) ((sim_writes \<circ> datalogger) \<circ> transport)"
  by (rule live_client_contract [OF sim.solarman_axioms])





end
