(* ===== verification/SidecarConfig.thy ===== *)
theory SidecarConfig
  imports Config LiveTransport
begin

text \<open>
  \<open>sidecar/config.py\<close> and \<open>sidecar/__main__.py\<close>: the configuration of the sidecar, read from the same
  environment as the manager's, and its entry point. A \<open>str\<close> is its UTF-8 text, so that both programs read
  one environment; a \<open>ValueError\<close> is its message, with \<open>repr\<close> quoting without escapes, and a \<open>float\<close> is
  a \<open>float64\<close>. The file system, the fixture files, the listening socket and what ends \<open>serve_forever\<close>
  are parameters.
\<close>

section \<open>Python: characters\<close>

text \<open>The code point a text starts with, and how many bytes follow its first one.\<close>

definition rune :: "string \<Rightarrow> nat \<times> nat" where
  "rune s =
     (let b = (\<lambda>i. of_char (s ! i) :: nat) in
      if s = [] then (0, 0)
      else if b 0 < 224 \<and> 192 \<le> b 0 \<and> 1 < length s then (b 0 mod 32 * 64 + b 1 mod 64, 1)
      else if b 0 < 240 \<and> 224 \<le> b 0 \<and> 2 < length s then ((b 0 mod 16 * 64 + b 1 mod 64) * 64 + b 2 mod 64, 2)
      else if 240 \<le> b 0 \<and> 3 < length s then (((b 0 mod 8 * 64 + b 1 mod 64) * 64 + b 2 mod 64) * 64 + b 3 mod 64, 3)
      else (b 0, 0))"

text \<open>The characters of a text.\<close>

fun runes :: "string \<Rightarrow> string list" where
  "runes [] = []"
| "runes (c # cs) = (let n = snd (rune (c # cs)) in (c # take n cs) # runes (drop n cs))"

text \<open>
  The decimal digits beyond ASCII (category Nd of Unicode 15.0), which \<open>int\<close>, \<open>float\<close> and \<open>\d\<close> read as
  well: the zeros of their blocks of ten.
\<close>

definition wide_zeros :: "nat list" where
  "wide_zeros =
     [0x660, 0x6f0, 0x7c0, 0x966, 0x9e6, 0xa66, 0xae6, 0xb66, 0xbe6, 0xc66, 0xce6, 0xd66, 0xde6, 0xe50, 0xed0, 0xf20,
      0x1040, 0x1090, 0x17e0, 0x1810, 0x1946, 0x19d0, 0x1a80, 0x1a90, 0x1b50, 0x1bb0, 0x1c40, 0x1c50, 0xa620, 0xa8d0,
      0xa900, 0xa9d0, 0xa9f0, 0xaa50, 0xabf0, 0xff10, 0x104a0, 0x10d30, 0x11066, 0x110f0, 0x11136, 0x111d0, 0x112f0,
      0x11450, 0x114d0, 0x11650, 0x116c0, 0x11730, 0x118e0, 0x11950, 0x11c50, 0x11d50, 0x11da0, 0x11f50, 0x16a60,
      0x16ac0, 0x16b50, 0x1d7ce, 0x1d7d8, 0x1d7e2, 0x1d7ec, 0x1d7f6, 0x1e140, 0x1e2f0, 0x1e4d0, 0x1e950, 0x1fbf0]"

definition wide_digit :: "string \<Rightarrow> (nat \<times> nat) option" where
  "wide_digit s =
     (if s = [] \<or> (of_char (hd s) :: nat) < 128 then None
      else
        (let (r, n) = rune s in
         case List.find (\<lambda>z. z \<le> r \<and> r < z + 10) wide_zeros of
           None \<Rightarrow> None
         | Some z \<Rightarrow> Some (r - z, n)))"

fun ascii_digits :: "string \<Rightarrow> string" where
  "ascii_digits [] = []"
| "ascii_digits (c # cs) =
     (case wide_digit (c # cs) of
        Some (d, n) \<Rightarrow> digit_char d # ascii_digits (drop n cs)
      | None \<Rightarrow> c # ascii_digits cs)"

definition is_digit :: "char \<Rightarrow> bool" where
  "is_digit c \<longleftrightarrow> digit_val c \<noteq> None"

text \<open>\<open>str.strip\<close>: besides white space, the separators U+001C to U+001F.\<close>

definition py_space_runes :: "string list" where
  "py_space_runes = space_runes @ map (\<lambda>b. [char_of b]) [28, 29, 30, 31 :: nat]"

definition py_strip :: "string \<Rightarrow> string" where
  "py_strip s = rev (strip_all (map rev py_space_runes) (rev (strip_all py_space_runes s)))"

text \<open>
  \<open>str.lower\<close> as far as a comparison with an ASCII literal can see; the dotted I becomes an i and a
  combining dot here.
\<close>

fun py_lower :: "string \<Rightarrow> string" where
  "py_lower [] = []"
| "py_lower (c # cs) =
     (case strip_prefix (map char_of [196, 176 :: nat]) (c # cs) of
        Some rest \<Rightarrow> CHR ''i'' # map char_of [204, 135 :: nat] @ py_lower (drop 1 cs)
      | None \<Rightarrow>
          (case strip_prefix (map char_of [226, 132, 170 :: nat]) (c # cs) of
             Some rest \<Rightarrow> CHR ''k'' # py_lower (drop 2 cs)
           | None \<Rightarrow> lower_char c # py_lower cs))"

section \<open>Python: int and float\<close>

text \<open>Single underscores between digits are dropped; \<open>prev\<close> says that the character before was a digit.\<close>

fun drop_underscores :: "bool \<Rightarrow> string \<Rightarrow> string option" where
  "drop_underscores prev [] = Some []"
| "drop_underscores prev (c # cs) =
     (if c = CHR ''_'' then
        (if prev \<and> cs \<noteq> [] \<and> is_digit (hd cs) then drop_underscores False cs else None)
      else map_option ((#) c) (drop_underscores (is_digit c) cs))"

text \<open>
  \<open>int(s)\<close>: white space around, a sign, digits. From Python 3.11 on a text of more than 4300 digits is
  refused.
\<close>

definition py_int :: "string \<Rightarrow> string + int" where
  "py_int s =
     (let (neg, t) = drop_sign (ascii_digits (TrimSpace s));
          err = Inl (''invalid literal for int() with base 10: '' @ py_repr s)
      in if t = [] then err
         else
           (case drop_underscores False t of
              None \<Rightarrow> err
            | Some ds \<Rightarrow>
                (case parse_digits 0 ds of
                   None \<Rightarrow> err
                 | Some n \<Rightarrow>
                     if length ds > 4300 then Inl ''Exceeds the limit (4300 digits) for integer string conversion''
                     else Inr (if neg then - int n else int n))))"

definition digits_value :: "string \<Rightarrow> nat" where
  "digits_value ds = (case parse_digits 0 ds of None \<Rightarrow> 0 | Some n \<Rightarrow> n)"

text \<open>The digits before a point and after it; a point without digits around it is not part of a number.\<close>

definition mantissa :: "string \<Rightarrow> string \<times> string \<times> string" where
  "mantissa s =
     (let rest = dropWhile is_digit s in
      case rest of
        [] \<Rightarrow> (s, [], [])
      | c # t \<Rightarrow>
          if c = CHR ''.'' then (takeWhile is_digit s, takeWhile is_digit t, dropWhile is_digit t)
          else (takeWhile is_digit s, [], rest))"

definition decimal_value :: "string \<Rightarrow> string \<Rightarrow> rat" where
  "decimal_value ds fs = of_nat (digits_value (ds @ fs)) / 10 ^ length fs"

text \<open>The decimal literals, with an exponent or without, after their sign.\<close>

definition py_decimal :: "string \<Rightarrow> rat option" where
  "py_decimal s =
     (let (ds, fs, rest) = mantissa s in
      if ds = [] \<and> fs = [] then None
      else
        (case rest of
           [] \<Rightarrow> Some (decimal_value ds fs)
         | c # t \<Rightarrow>
             (let (eneg, es) = drop_sign t; scale = 10 ^ digits_value es in
              if c \<notin> {CHR ''e'', CHR ''E''} \<or> es = [] \<or> \<not> list_all is_digit es then None
              else Some (if eneg then decimal_value ds fs / scale else decimal_value ds fs * scale))))"

text \<open>\<open>float(s)\<close>; a value out of range is an infinity.\<close>

definition py_float :: "string \<Rightarrow> string + float64" where
  "py_float s =
     (let err = Inl (''could not convert string to float: '' @ py_repr s) in
      case drop_underscores False (ascii_digits (TrimSpace s)) of
        None \<Rightarrow> err
      | Some t \<Rightarrow>
          (let (neg, u) = drop_sign t in
           if ascii_lower_eq u ''inf'' \<or> ascii_lower_eq u ''infinity'' then Inr (Inf neg)
           else if ascii_lower_eq u ''nan'' then Inr NaN
           else (case py_decimal u of None \<Rightarrow> err | Some r \<Rightarrow> Inr (fl neg r))))"

section \<open>config.py: durations\<close>

text \<open>
  \<open>_GO_DURATION_UNITS\<close>, in the order of the alternatives of \<open>_GO_DURATION_RE\<close>: the literals, whose floats
  are the nearest ones.
\<close>

definition GO_DURATION_UNITS :: "(string \<times> rat) list" where
  "GO_DURATION_UNITS =
     [(''ns'', 1 / 10 ^ 9), (''us'', 1 / 10 ^ 6), (map char_of [194, 181 :: nat] @ ''s'', 1 / 10 ^ 6),
      (''ms'', 1 / 10 ^ 3), (''s'', 1), (''m'', 60), (''h'', 3600)]"

definition match_unit :: "string \<Rightarrow> (rat \<times> string) option" where
  "match_unit s =
     (case List.map_filter (\<lambda>(u, scale). map_option (Pair scale) (strip_prefix u s)) GO_DURATION_UNITS of
        [] \<Rightarrow> None
      | m # _ \<Rightarrow> Some m)"

text \<open>
  \<open>_GO_DURATION_RE\<close> at the start of a text: the number times its unit, and the rest. The match is
  greedy, and giving back digits or the fraction never helps, as no unit starts with a digit or a point.
\<close>

definition GO_DURATION_RE :: "string \<Rightarrow> (float64 \<times> string) option" where
  "GO_DURATION_RE s =
     (let (ds, fs, rest) = mantissa s;
          rest = (if fs = [] then dropWhile is_digit s else rest)
      in if ds = [] then None
         else
           (case match_unit rest of
              None \<Rightarrow> None
            | Some (scale, rest) \<Rightarrow> Some (fmul (fl False (decimal_value ds fs)) (fl False scale), rest)))"

lemma match_unit_shorter:
  assumes "match_unit s = Some (scale, rest)"
  shows "length rest < length s"
proof -
  have prefix: "length s = length u + length t" if "strip_prefix u s = Some t" for u s t
    using that by (induction u s rule: strip_prefix.induct) (auto split: if_splits)
  have "(scale, rest) \<in> set (List.map_filter (\<lambda>(u, scale). map_option (Pair scale) (strip_prefix u s)) GO_DURATION_UNITS)"
    using assms by (auto simp: match_unit_def split: list.splits)
  then obtain u where u: "(u, scale) \<in> set GO_DURATION_UNITS" and "strip_prefix u s = Some rest"
    by (auto simp: List.map_filter_def)
  from prefix [OF this(2)] have "length s = length u + length rest" .
  moreover have "u \<noteq> []" using u by (auto simp: GO_DURATION_UNITS_def)
  ultimately show ?thesis by simp
qed

lemma GO_DURATION_RE_shorter:
  assumes "GO_DURATION_RE s = Some (x, rest)"
  shows "length rest < length s"
proof -
  obtain ds fs r where M: "mantissa s = (ds, fs, r)" by (metis prod_cases3)
  have "length (dropWhile P t) \<le> length t" for P :: "char \<Rightarrow> bool" and t by (rule length_dropWhile_le)
  then have "length r \<le> length s"
    using M length_dropWhile_le [of is_digit s]
    by (auto simp: mantissa_def Let_def split: list.splits if_splits) (metis Suc_leD le_trans length_Cons length_dropWhile_le)
  then show ?thesis
    using assms match_unit_shorter length_dropWhile_le [of is_digit s]
    by (fastforce simp: GO_DURATION_RE_def M Let_def split: if_splits option.splits)
qed

text \<open>The loop over the matches, as long as each starts where the one before it ended.\<close>

function duration_matches :: "float64 \<Rightarrow> bool \<Rightarrow> string \<Rightarrow> float64 \<times> bool \<times> string" where
  "duration_matches acc matched body =
     (case GO_DURATION_RE body of
        None \<Rightarrow> (acc, matched, body)
      | Some (x, rest) \<Rightarrow> duration_matches (fadd acc x) True rest)"
  by pat_completeness auto

termination duration_matches
  by (relation "measure (\<lambda>(_, _, body). length body)") (auto dest: GO_DURATION_RE_shorter)

declare duration_matches.simps [simp del]

lemma GO_DURATION_RE_Nil [simp]: "GO_DURATION_RE [] = None"
  by (simp add: GO_DURATION_RE_def mantissa_def)

text \<open>For evaluation: an empty rest has no match.\<close>

lemma duration_matches_code [code]:
  "duration_matches acc matched body =
     (if body = [] then (acc, matched, [])
      else (case GO_DURATION_RE body of None \<Rightarrow> (acc, matched, body) | Some (x, rest) \<Rightarrow> duration_matches (fadd acc x) True rest))"
  by (simp add: duration_matches.simps [of acc matched body])

definition parse_duration_or_seconds :: "string \<Rightarrow> float64 \<Rightarrow> string + float64" where
  "parse_duration_or_seconds value default_seconds =
     (let value = py_strip value in
      if value = [] then Inr default_seconds
      else
        (case py_float value of
           Inr x \<Rightarrow> Inr x
         | Inl _ \<Rightarrow>
             (let negative = (hd value = CHR ''-'');
                  body = (if negative then tl value else value);
                  (secs, matched, rest) = duration_matches (Fin False 0) False (ascii_digits body)
              in if \<not> matched \<or> rest \<noteq> [] then Inl (''invalid duration or seconds: '' @ py_repr value)
                 else Inr (if negative then fneg secs else secs))))"

section \<open>config.py: load\<close>

text \<open>\<open>addr.rpartition(":")\<close>: around the last colon; \<open>None\<close> is an empty separator.\<close>

definition rpartition_colon :: "string \<Rightarrow> (string \<times> string) option" where
  "rpartition_colon s = map_option (\<lambda>(b, a). (rev a, rev b)) (Cut (CHR '':'') (rev s))"

definition parse_listen_addr :: "string \<Rightarrow> string + string \<times> int" where
  "parse_listen_addr addr =
     (case rpartition_colon addr of
        None \<Rightarrow> Inl (''SIDECAR_LISTEN_ADDR must be host:port, got '' @ py_repr addr)
      | Some (host, port) \<Rightarrow> (case py_int port of Inl e \<Rightarrow> Inl e | Inr n \<Rightarrow> Inr (host, n)))"

definition redact :: "string \<Rightarrow> string" where
  "redact secret =
     (let cs = runes secret in
      if secret = [] then []
      else if length cs \<le> 4 then ''****''
      else concat (take 2 cs) @ ''****'' @ concat (drop (length cs - 2) cs))"

record py_Config =
  pc_mode :: string
  pc_inverter_ip :: string
  pc_inverter_serial :: string
  pc_inverter_port :: int
  pc_socket_timeout :: float64
  pc_listen_host :: string
  pc_listen_port :: int
  pc_mock_fixtures :: "string list"

definition redacted_serial :: "py_Config \<Rightarrow> string" where
  "redacted_serial cfg = redact (pc_inverter_serial cfg)"

definition DEFAULT_FIXTURES :: "string \<Rightarrow> string list" where
  "DEFAULT_FIXTURES fixture_dir =
     [fixture_dir @ ''/live-snapshot-full-sweep.json'', fixture_dir @ ''/live-snapshot-comprehensive.json'']"

definition env_get :: "environ \<Rightarrow> string \<Rightarrow> string \<Rightarrow> string" where
  "env_get env key def = (case env key of None \<Rightarrow> def | Some v \<Rightarrow> v)"

text \<open>\<open>x <= 0\<close>, which is false of a NaN.\<close>

definition fle_zero :: "float64 \<Rightarrow> bool" where
  "fle_zero x \<longleftrightarrow> fless x (Fin False 0) \<or> feq_zero x"

text \<open>\<open>fixture_dir\<close> is \<open>_FIXTURE_DIR\<close> and \<open>is_file\<close> is \<open>Path(path).is_file()\<close>.\<close>

definition load :: "string \<Rightarrow> (string \<Rightarrow> bool) \<Rightarrow> environ \<Rightarrow> string + py_Config" where
  "load fixture_dir is_file env =
     (let mode = py_lower (py_strip (env_get env ''MODE'' []));
          errs = (if mode = [] then [''MODE is required (mock|live)'']
                  else if mode \<notin> {''mock'', ''live''} then [''MODE must be mock or live, got '' @ py_repr mode]
                  else []);
          inverter_ip = py_strip (env_get env ''INVERTER_IP'' []);
          inverter_serial = py_strip (env_get env ''INVERTER_SERIAL'' []);
          errs = errs @ (if mode = ''live'' \<and> inverter_ip = [] then [''INVERTER_IP is required when MODE=live''] else []);
          errs = errs @ (if mode = ''live'' \<and> inverter_serial = [] then [''INVERTER_SERIAL is required when MODE=live''] else []);
          port_raw = py_strip (env_get env ''INVERTER_PORT'' []);
          (inverter_port, e) =
            (if port_raw = [] then (8899, [])
             else (case py_int port_raw of
                     Inl _ \<Rightarrow> (8899, [''INVERTER_PORT must be an integer, got '' @ py_repr port_raw])
                   | Inr n \<Rightarrow> (n, [])));
          errs = errs @ e;
          (socket_timeout, e) =
            (case parse_duration_or_seconds (env_get env ''INVERTER_SOCKET_TIMEOUT'' []) (Fin False 10) of
               Inl e \<Rightarrow> (Fin False 10, [e])
             | Inr x \<Rightarrow> (x, if fle_zero x then [''INVERTER_SOCKET_TIMEOUT must be > 0''] else []));
          errs = errs @ e;
          addr = py_strip (env_get env ''SIDECAR_LISTEN_ADDR'' '':8081'');
          (listen_host, listen_port, e) =
            (case parse_listen_addr (if addr = [] then '':8081'' else addr) of
               Inl e \<Rightarrow> ([], 8081, [e])
             | Inr (host, port) \<Rightarrow> (host, port, []));
          errs = errs @ e;
          raw_fixtures = py_strip (env_get env ''MOCK_FIXTURE'' []);
          mock_fixtures =
            (if raw_fixtures \<noteq> [] then filter (\<lambda>p. p \<noteq> []) (map py_strip (Split (CHR '','') raw_fixtures))
             else DEFAULT_FIXTURES fixture_dir);
          errs = errs @
            (if mode = ''mock'' then
               (if mock_fixtures = [] then [''MOCK_FIXTURE must name at least one fixture''] else []) @
               map (\<lambda>path. ''MOCK_FIXTURE not found: '' @ path) (filter (\<lambda>path. \<not> is_file path) mock_fixtures)
             else [])
      in if errs \<noteq> [] then Inl (Join errs ''; '')
         else Inr
           \<lparr>pc_mode = mode, pc_inverter_ip = inverter_ip, pc_inverter_serial = inverter_serial, pc_inverter_port = inverter_port,
            pc_socket_timeout = socket_timeout, pc_listen_host = listen_host, pc_listen_port = listen_port,
            pc_mock_fixtures = mock_fixtures\<rparr>)"

section \<open>\_\_main\_\_.py\<close>

text \<open>What \<open>LiveTransport.__init__\<close> keeps for the connections it opens later; the serial is a number here.\<close>

record live_address =
  la_ip :: string
  la_serial :: int
  la_port :: int
  la_socket_timeout :: float64

definition LiveTransport_init :: "string \<Rightarrow> string \<Rightarrow> int \<Rightarrow> float64 \<Rightarrow> string + live_address" where
  "LiveTransport_init ip serial port socket_timeout =
     (case py_int serial of
        Inl e \<Rightarrow> Inl e
      | Inr n \<Rightarrow> Inr \<lparr>la_ip = ip, la_serial = n, la_port = port, la_socket_timeout = socket_timeout\<rparr>)"

datatype transport_choice = UseMock MockTransport | UseLive live_address

text \<open>
  \<open>read_fixture\<close> reads one fixture file: the address and value pairs of its blocks, or the exception that
  reading or decoding it raises.
\<close>

fun read_fixtures :: "(string \<Rightarrow> string + (int \<times> int) list) \<Rightarrow> string list \<Rightarrow> string + (int \<times> int) list list" where
  "read_fixtures read_fixture [] = Inr []"
| "read_fixtures read_fixture (path # paths) =
     (case read_fixture path of
        Inl e \<Rightarrow> Inl e
      | Inr regs \<Rightarrow> (case read_fixtures read_fixture paths of Inl e \<Rightarrow> Inl e | Inr rest \<Rightarrow> Inr (regs # rest)))"

definition build_transport :: "(string \<Rightarrow> string + (int \<times> int) list) \<Rightarrow> py_Config \<Rightarrow> string + transport_choice" where
  "build_transport read_fixture cfg =
     (if pc_mode cfg = ''mock'' then
        (case read_fixtures read_fixture (pc_mock_fixtures cfg) of
           Inl e \<Rightarrow> Inl e
         | Inr fixtures \<Rightarrow> Inr (UseMock (MockTransport_init fixtures)))
      else
        (case LiveTransport_init (pc_inverter_ip cfg) (pc_inverter_serial cfg) (pc_inverter_port cfg) (pc_socket_timeout cfg) of
           Inl e \<Rightarrow> Inl e
         | Inr addr \<Rightarrow> Inr (UseLive addr)))"

text \<open>
  The effects of \<open>main\<close> in order: the log lines, the listening socket, the requests served with a
  transport and a mode, and the shutdown. A run returns an exit code or lets an exception out.
\<close>

datatype main_event =
    LogError string
  | LogInfo string
  | Listen string int
  | ServeForever transport_choice string
  | Shutdown
  | ServerClose

datatype main_end = Returned int | Raised string

text \<open>\<open>%s\<close> of a float, in the log line only, is the parameter \<open>show_float\<close>.\<close>

definition starting_line :: "(float64 \<Rightarrow> string) \<Rightarrow> py_Config \<Rightarrow> string" where
  "starting_line show_float cfg =
     (let bind = (if pc_listen_host cfg = [] then ''0.0.0.0'' else pc_listen_host cfg) @ '':'' @ fmt_d (pc_listen_port cfg) in
      if pc_mode cfg = ''mock'' then
        ''starting sidecar mode=mock listen='' @ bind @ '' fixtures='' @ Join (pc_mock_fixtures cfg) '',''
      else
        ''starting sidecar mode=live listen='' @ bind @ '' inverter='' @ pc_inverter_ip cfg @ '':'' @ fmt_d (pc_inverter_port cfg)
        @ '' serial='' @ redacted_serial cfg @ '' timeout='' @ show_float (pc_socket_timeout cfg) @ ''s'')"

text \<open>
  \<open>bind_error\<close> is what binding the listening socket raises, and \<open>ended\<close> what ends \<open>serve_forever\<close>: \<open>None\<close>
  is a \<open>KeyboardInterrupt\<close>, and \<open>Some\<close> another exception.
\<close>

record main_world =
  mw_fixture_dir :: string
  mw_is_file :: "string \<Rightarrow> bool"
  mw_read_fixture :: "string \<Rightarrow> string + (int \<times> int) list"
  mw_bind_error :: "string \<Rightarrow> int \<Rightarrow> string option"
  mw_show_float :: "float64 \<Rightarrow> string"
  mw_ended :: "string option"

definition sidecar_main :: "main_world \<Rightarrow> environ \<Rightarrow> main_event list \<times> main_end" where
  "sidecar_main w env =
     (case load (mw_fixture_dir w) (mw_is_file w) env of
        Inl e \<Rightarrow> ([LogError (''config error: '' @ e)], Returned 1)
      | Inr cfg \<Rightarrow>
          (case build_transport (mw_read_fixture w) cfg of
             Inl e \<Rightarrow> ([], Raised e)
           | Inr choice \<Rightarrow>
               (case mw_bind_error w (pc_listen_host cfg) (pc_listen_port cfg) of
                  Some e \<Rightarrow> ([], Raised e)
                | None \<Rightarrow>
                    (let served = [Listen (pc_listen_host cfg) (pc_listen_port cfg), LogInfo (starting_line (mw_show_float w) cfg),
                                   ServeForever choice (pc_mode cfg)]
                     in case mw_ended w of
                          None \<Rightarrow> (served @ [LogInfo ''shutting down'', Shutdown, ServerClose], Returned 0)
                        | Some e \<Rightarrow> (served @ [Shutdown, ServerClose], Raised e)))))"

section \<open>Texts without anything to strip or convert\<close>

text \<open>Empty, or with visible ASCII characters at both ends.\<close>

definition trimmed :: "string \<Rightarrow> bool" where
  "trimmed s \<longleftrightarrow> s = [] \<or> visible (hd s) \<and> visible (last s)"

lemma py_space_runes_edges: "list_all (\<lambda>r. r \<noteq> [] \<and> \<not> visible (hd r)) (py_space_runes @ map rev py_space_runes)"
  using space_runes_edges by (simp add: py_space_runes_def visible_def)

lemma trimmed_id:
  assumes "trimmed s"
  shows "py_strip s = s" "TrimSpace s = s"
proof -
  have E: "strip_all rs [] = []" for rs by (simp add: strip_all_def)
  show "py_strip s = s"
    using assms strip_ends_visible [OF py_space_runes_edges] by (cases "s = []") (simp_all add: py_strip_def trimmed_def E)
  show "TrimSpace s = s"
    using assms TrimSpace_visible by (cases "s = []") (simp_all add: TrimSpace_def trimmed_def E)
qed

definition is_ascii :: "string \<Rightarrow> bool" where
  "is_ascii s \<longleftrightarrow> list_all (\<lambda>c. (of_char c :: nat) < 128) s"

lemma is_ascii_simps [simp]:
  "is_ascii []" "is_ascii (c # cs) \<longleftrightarrow> (of_char c :: nat) < 128 \<and> is_ascii cs" "is_ascii (s @ t) \<longleftrightarrow> is_ascii s \<and> is_ascii t"
  by (simp_all add: is_ascii_def)

lemma ascii_digits_id: "is_ascii s \<Longrightarrow> ascii_digits s = s"
  by (induction s) (simp_all add: wide_digit_def)

declare ascii_digits.simps [simp del]

lemma py_lower_ascii: "is_ascii s \<Longrightarrow> py_lower s = map lower_char s"
  by (induction s) auto

lemma drop_underscores_id: "CHR ''_'' \<notin> set s \<Longrightarrow> drop_underscores prev s = Some s"
  by (induction s arbitrary: prev) auto

lemma is_digit_char:
  assumes "is_digit c"
  shows "visible c" "(of_char c :: nat) < 128" "c \<noteq> CHR ''_''" "c \<noteq> CHR ''-''" "c \<noteq> CHR ''+''" "c \<noteq> CHR ''.''" "number_char c"
  using assms by (auto simp: is_digit_def digit_val_def visible_def number_char_def Let_def split: if_splits)

lemma all_digits:
  assumes "list_all is_digit ds"
  shows "is_ascii ds" "CHR ''_'' \<notin> set ds" "trimmed ds"
proof -
  show "is_ascii ds" using assms by (auto simp: is_ascii_def list_all_iff dest: is_digit_char(2))
  show "CHR ''_'' \<notin> set ds" using assms by (auto simp: list_all_iff dest: is_digit_char(3))
  show "trimmed ds" using assms by (auto simp: trimmed_def list_all_iff intro: is_digit_char(1))
qed

lemma parse_digits_all: "parse_digits acc ds = Some n \<Longrightarrow> list_all is_digit ds"
  by (induction ds arbitrary: acc) (auto simp: is_digit_def split: option.splits)

lemma digits_parse:
  assumes "list_all is_digit ds"
  shows "parse_digits 0 ds = Some (digits_value ds)"
proof -
  have "\<exists>n. parse_digits acc ds = Some n" for acc
    using assms by (induction ds arbitrary: acc) (auto simp: is_digit_def)
  then obtain n where "parse_digits 0 ds = Some n" by blast
  then show ?thesis by (simp add: digits_value_def)
qed

lemma Atoi_drop_sign:
  "Atoi s = (let (neg, ds) = drop_sign s in
     if ds = [] then Inl (Errorf ''strconv.Atoi: invalid syntax'')
     else case parse_digits 0 ds of
       None \<Rightarrow> Inl (Errorf ''strconv.Atoi: invalid syntax'')
     | Some n \<Rightarrow> (let i = (if neg then - int n else int n) in
         if i < - (2 ^ 63) \<or> i \<ge> 2 ^ 63 then Inl (Errorf ''strconv.Atoi: value out of range'') else Inr i))"
  by (cases s) (simp_all add: Atoi_def)

text \<open>Of a trimmed text, Go and Python read the same number.\<close>

lemma same_int:
  assumes "Atoi v = Inr n" "py_int v = Inr m" "trimmed v"
  shows "m = n"
proof -
  obtain neg ds where D: "drop_sign v = (neg, ds)" by fastforce
  from assms(1) obtain k where k: "parse_digits 0 ds = Some k" "n = (if neg then - int k else int k)" "ds \<noteq> []"
    by (auto simp: Atoi_drop_sign D Let_def split: if_splits option.splits)
  note digits = all_digits [OF parse_digits_all [OF k(1)]]
  have "is_ascii v" using digits(1) D by (cases v) (auto split: if_splits)
  then show ?thesis
    using assms(2) k by (auto simp: py_int_def trimmed_id [OF assms(3)] ascii_digits_id D drop_underscores_id digits(2) split: if_splits)
qed

lemmas py_eval = trimmed_id trimmed_def visible_def ascii_digits_id drop_underscores_id is_digit_def digit_val_def Let_def

text \<open>A lower case that is ASCII is the same in both languages.\<close>

lemma same_lower: "is_ascii (py_lower s) \<Longrightarrow> ToLower s = py_lower s"
proof (induction s rule: py_lower.induct)
  case (2 c cs)
  show ?case
  proof (cases "strip_prefix (map char_of [196, 176 :: nat]) (c # cs)")
    case None
    with 2 show ?thesis
      by (cases "strip_prefix (map char_of [226, 132, 170 :: nat]) (c # cs)") (simp_all del: strip_prefix.simps list.map)
  next
    case (Some rest)
    with "2.prems" show ?thesis by (simp del: strip_prefix.simps)
  qed
qed simp

declare py_lower.simps [simp del]

section \<open>What an accepted configuration was made of\<close>

lemma errs_Nil:
  "(if errs \<noteq> [] then Inl (Join errs sep) else Inr c) = Inr c' \<longleftrightarrow> errs = [] \<and> c = c'"
  "(if a then [x] else if b then [y] else []) = [] \<longleftrightarrow> \<not> a \<and> \<not> b"
  "(if a then [x] else []) = [] \<longleftrightarrow> \<not> a"
  "(if a then xs else []) = [] \<longleftrightarrow> (a \<longrightarrow> xs = [])"
  by auto

lemma load_Inr:
  assumes "load dir is_file env = Inr p"
  shows "pc_mode p = py_lower (py_strip (env_get env ''MODE'' []))" (is ?mode) and "pc_mode p \<in> {''mock'', ''live''}" (is ?known)
    and "pc_inverter_ip p = py_strip (env_get env ''INVERTER_IP'' [])" (is ?ip)
    and "pc_inverter_serial p = py_strip (env_get env ''INVERTER_SERIAL'' [])" (is ?serial)
    and "pc_mode p = ''live'' \<longrightarrow> pc_inverter_ip p \<noteq> [] \<and> pc_inverter_serial p \<noteq> []" (is ?live)
    and "if py_strip (env_get env ''INVERTER_PORT'' []) = [] then pc_inverter_port p = 8899
      else py_int (py_strip (env_get env ''INVERTER_PORT'' [])) = Inr (pc_inverter_port p)" (is ?port)
    and "parse_duration_or_seconds (env_get env ''INVERTER_SOCKET_TIMEOUT'' []) (Fin False 10) = Inr (pc_socket_timeout p)" (is ?timeout)
    and "\<not> fle_zero (pc_socket_timeout p)" (is ?positive)
    and "pc_mode p = ''mock'' \<longrightarrow> pc_mock_fixtures p \<noteq> [] \<and> list_all is_file (pc_mock_fixtures p)" (is ?mock)
proof -
  obtain port e1 where P1:
    "(if py_strip (env_get env ''INVERTER_PORT'' []) = [] then (8899, [])
      else (case py_int (py_strip (env_get env ''INVERTER_PORT'' [])) of
              Inl _ \<Rightarrow> (8899, [''INVERTER_PORT must be an integer, got '' @ py_repr (py_strip (env_get env ''INVERTER_PORT'' []))])
            | Inr n \<Rightarrow> (n, []))) = (port, e1)" by fastforce
  obtain st e2 where P2:
    "(case parse_duration_or_seconds (env_get env ''INVERTER_SOCKET_TIMEOUT'' []) (Fin False 10) of
        Inl e \<Rightarrow> (Fin False 10, [e])
      | Inr x \<Rightarrow> (x, if fle_zero x then [''INVERTER_SOCKET_TIMEOUT must be > 0''] else [])) = (st, e2)" by fastforce
  obtain host lport e3 where P3:
    "(case parse_listen_addr (if py_strip (env_get env ''SIDECAR_LISTEN_ADDR'' '':8081'') = [] then '':8081''
          else py_strip (env_get env ''SIDECAR_LISTEN_ADDR'' '':8081'')) of
        Inl e \<Rightarrow> ([], 8081, [e])
      | Inr (host, port) \<Rightarrow> (host, port, [])) = (host, lport, e3)" by (metis prod_cases3)
  note L = assms [unfolded load_def Let_def P1 P2 P3 prod.case, unfolded errs_Nil(1)]
  note F = L [THEN conjunct1, unfolded append_is_Nil_conv errs_Nil(2-)] and p = L [THEN conjunct2, symmetric]
  show ?mode ?ip ?serial unfolding p by simp_all
  show ?known ?live ?mock unfolding p py_Config.simps using F by (auto simp: filter_empty_conv list_all_iff)
  have E: "e1 = []" "e2 = []" using F by blast+
  show ?port unfolding p py_Config.simps using P1 E(1) by (auto split: if_splits sum.splits)
  show ?timeout ?positive unfolding p py_Config.simps using P2 E(2) by (auto split: if_splits sum.splits)
qed

section \<open>Counts of seconds\<close>

text \<open>A decimal count of seconds, alone or with the unit \<open>s\<close>.\<close>

definition second_count :: "string \<Rightarrow> nat \<Rightarrow> bool" where
  "second_count v n \<longleftrightarrow> (\<exists>ds. ds \<noteq> [] \<and> list_all is_digit ds \<and> digits_value ds = n \<and> (v = ds \<or> v = ds @ ''s''))"

lemma not_is_digit_s [simp]: "\<not> is_digit CHR ''s''" "digit_val CHR ''s'' = None" "visible CHR ''s''"
  by (simp_all add: is_digit_def digit_val_def visible_def)

lemma drop_sign_digits: "list_all is_digit ds \<Longrightarrow> ds \<noteq> [] \<Longrightarrow> drop_sign (ds @ t) = (False, ds @ t)"
  by (cases ds) (auto dest: is_digit_char(4,5))

lemma parse_digits_mono: "parse_digits acc ds = Some n \<Longrightarrow> acc \<le> n"
  by (induction ds arbitrary: acc) (fastforce split: option.splits)+

lemma leadingInt_digits:
  "parse_digits x ds = Some n \<Longrightarrow> int n \<le> 2 ^ 63 div 10 \<Longrightarrow> leadingInt (int x) (ds @ ''s'') = Some (int n, ''s'')"
proof (induction ds arbitrary: x)
  case (Cons c ds)
  then obtain d where d: "digit_val c = Some d" "parse_digits (10 * x + d) ds = Some n" by (auto split: option.splits)
  have "10 * x + d \<le> n" by (rule parse_digits_mono [OF d(2)])
  with Cons.prems(2) have "int x * 10 + int d \<le> 2 ^ 63 div 10" "int x \<le> 2 ^ 63 div 10" by simp_all
  moreover have "leadingInt (int (10 * x + d)) (ds @ ''s'') = Some (int n, ''s'')" by (rule Cons.IH [OF d(2) Cons.prems(2)])
  then have "leadingInt (int x * 10 + int d) (ds @ ''s'') = Some (int n, ''s'')" by (simp add: mult.commute)
  ultimately show ?case by (simp add: d(1))
qed simp

lemma ParseDuration_seconds:
  assumes "list_all is_digit ds" "ds \<noteq> []" "digits_value ds < 2 ^ 33"
  shows "ParseDuration (ds @ ''s'') = Inr (int (digits_value ds) * Second)"
proof -
  let ?orig = "ds @ ''s''" and ?n = "int (digits_value ds)"
  have n: "?n < 2 ^ 33" using assms(3) by (metis of_nat_less_iff of_nat_numeral of_nat_power)
  have L: "leadingInt 0 ?orig = Some (?n, ''s'')"
    using leadingInt_digits [OF digits_parse [OF assms(1)]] n by simp
  obtain c cs where ds: "ds = c # cs" "is_digit c" using assms(1,2) by (cases ds) auto
  have u: "unitMap ''s'' = Some Second" by code_simp
  have "duration_part ?orig ?orig = Inr (?n * Second, [])"
    using L n is_digit_char(7) [OF ds(2)] ds(1)
    by (simp add: duration_part_def Let_def u Second_def number_char_def)
  then have "duration_loop ?orig 0 ?orig = Inr (?n * Second)"
    using n by (simp add: duration_loop.simps [of ?orig _ ?orig] duration_loop.simps [of ?orig _ "[]"] Second_def)
  then show ?thesis
    using ds n is_digit_char(4,5) [OF ds(2)] by (auto simp: ParseDuration_def Second_def)
qed

lemma go_second_count:
  assumes "second_count v n" "n < 2 ^ 33" "Getenv env key = v"
  shows "parseDurationOrSeconds env key def = (int n * Second, None)"
proof -
  obtain ds where ds: "ds \<noteq> []" "list_all is_digit ds" "digits_value ds = n" and v: "v = ds \<or> v = ds @ ''s''"
    using assms(1) by (auto simp: second_count_def)
  have n: "int n < 2 ^ 33" using assms(2) by (metis of_nat_less_iff of_nat_numeral of_nat_power)
  have "wrap64 (int n * Second) = int n * Second" using n by (intro wrap64_id) (simp_all add: Second_def)
  moreover have "Atoi ds = Inr (int n)"
    using n drop_sign_digits [OF ds(2,1), of "[]"] ds by (simp add: Atoi_drop_sign digits_parse)
  moreover have "parse_digits acc (xs @ ''s'') = None" for acc xs by (induction xs arbitrary: acc) (auto split: option.splits)
  then have "\<exists>e. Atoi (ds @ ''s'') = Inl e" using drop_sign_digits [OF ds(2,1)] ds by (simp add: Atoi_drop_sign)
  moreover have "ParseDuration (ds @ ''s'') = Inr (int n * Second)" using ParseDuration_seconds [OF ds(2,1)] assms(2) ds(3) by simp
  ultimately show ?thesis using v ds(1) assms(3) by (auto simp: parseDurationOrSeconds_def)
qed

text \<open>The same in Python: the float is the count itself.\<close>

lemma fl_nat: "n < 2 ^ 53 \<Longrightarrow> fl False (of_nat n) = Fin False (of_nat n)"
  using float64_of_int_exact [of "int n"] by (simp add: float64_of_int_def)

lemma mantissa_digits:
  assumes "list_all is_digit ds"
  shows "mantissa ds = (ds, [], [])" "mantissa (ds @ ''s'') = (ds, [], ''s'')" "dropWhile is_digit (ds @ ''s'') = ''s''"
proof -
  have D: "dropWhile is_digit ds = []" "takeWhile is_digit (ds @ t) = ds @ takeWhile is_digit t"
    "dropWhile is_digit (ds @ t) = dropWhile is_digit t" for t
    using assms by (simp_all add: list_all_iff takeWhile_append dropWhile_append)
  show "mantissa ds = (ds, [], [])" "mantissa (ds @ ''s'') = (ds, [], ''s'')" by (simp_all add: mantissa_def Let_def D)
  show "dropWhile is_digit (ds @ ''s'') = ''s''" by (simp add: D)
qed

lemma py_float_digits:
  assumes "list_all is_digit ds" "ds \<noteq> []" "digits_value ds < 2 ^ 53"
  shows "py_float ds = Inr (Fin False (of_nat (digits_value ds)))" "\<exists>e. py_float (ds @ ''s'') = Inl e"
proof -
  have named: "\<not> ascii_lower_eq (ds @ t) (CHR ''i'' # w)" "\<not> ascii_lower_eq (ds @ t) (CHR ''n'' # w)" for t w
    using assms(1,2) by (cases ds; auto simp: ascii_lower_eq_def is_digit_def digit_val_def Let_def)+
  have t: "trimmed (ds @ ''s'')" using assms(1,2) all_digits(3) [OF assms(1)] by (simp add: trimmed_def)
  note simps = py_float_def trimmed_id(2) ascii_digits_id drop_underscores_id all_digits [OF assms(1)] py_decimal_def
    mantissa_digits [OF assms(1)] assms(2)
  show "py_float ds = Inr (Fin False (of_nat (digits_value ds)))"
    using named [of "[]"] drop_sign_digits [OF assms(1,2), of "[]"] by (simp add: simps decimal_value_def fl_nat [OF assms(3)])
  show "\<exists>e. py_float (ds @ ''s'') = Inl e"
    using named [of "''s''"] drop_sign_digits [OF assms(1,2), of "''s''"] by (simp add: simps t)
qed

lemma python_second_count:
  assumes "second_count v n" "n < 2 ^ 33"
  shows "parse_duration_or_seconds v def = Inr (Fin False (of_nat n))"
proof -
  obtain ds where ds: "ds \<noteq> []" "list_all is_digit ds" "digits_value ds = n" and v: "v = ds \<or> v = ds @ ''s''"
    using assms(1) by (auto simp: second_count_def)
  have n: "n < 2 ^ 53" using assms(2) by simp
  have strip: "py_strip ds = ds" "py_strip (ds @ ''s'') = ds @ ''s''"
    using all_digits(3) [OF ds(2)] ds(1) by (simp_all add: trimmed_id trimmed_def)
  note F = py_float_digits [OF ds(2,1), unfolded ds(3), OF n]
  have one: "fl False 1 = Fin False 1" using fl_nat [of 1] by simp
  have "match_unit ''s'' = Some (1, [])" by (simp add: match_unit_def GO_DURATION_UNITS_def List.map_filter_def)
  then have "GO_DURATION_RE (ds @ ''s'') = Some (Fin False (of_nat n), [])"
    using ds by (simp add: GO_DURATION_RE_def mantissa_digits decimal_value_def fl_nat [OF n] one)
  moreover have "fadd (Fin False 0) (Fin False (of_nat n)) = Fin False (of_nat n)" by (simp add: fl_nat [OF n] Let_def)
  ultimately have "duration_matches (Fin False 0) False (ds @ ''s'') = (Fin False (of_nat n), True, [])"
    by (simp add: duration_matches.simps [of _ _ "ds @ ''s''"] duration_matches.simps [of _ _ "[]"])
  moreover have "hd (ds @ ''s'') \<noteq> CHR ''-''" using ds(1,2) by (cases ds) (auto dest: is_digit_char(4))
  ultimately have "parse_duration_or_seconds (ds @ ''s'') def = Inr (Fin False (of_nat n))"
    using F(2) all_digits(1) [OF ds(2)] by (auto simp: parse_duration_or_seconds_def strip ascii_digits_id)
  moreover have "parse_duration_or_seconds ds def = Inr (Fin False (of_nat n))"
    using F(1) ds(1) by (simp add: parse_duration_or_seconds_def strip)
  ultimately show ?thesis using v by auto
qed

section \<open>Concrete environments\<close>

text \<open>A world in which every file is there and nothing fails, and an environment of a live run.\<close>

definition quiet_world :: main_world where
  "quiet_world =
     \<lparr>mw_fixture_dir = ''/fixtures'', mw_is_file = (\<lambda>_. True), mw_read_fixture = (\<lambda>_. Inr [(33022, 24)]),
      mw_bind_error = (\<lambda>_ _. None), mw_show_float = (\<lambda>_. ''10.0''), mw_ended = None\<rparr>"

definition live_environ :: "string \<Rightarrow> environ" where
  "live_environ serial =
     [''MODE'' \<mapsto> ''live'', ''INVERTER_IP'' \<mapsto> ''10.0.0.7'', ''INVERTER_SERIAL'' \<mapsto> serial, ''MQTT_BROKER_URL'' \<mapsto> ''tcp://broker:1883'']"

lemma default_address:
  "py_int ''8081'' = Inr 8081" "parse_listen_addr '':8081'' = Inr ([], 8081)"
  "parse_duration_or_seconds [] (Fin False 10) = Inr (Fin False 10)" "\<not> fle_zero (Fin False 10)"
proof -
  show port: "py_int ''8081'' = Inr 8081" by (simp add: py_int_def py_eval)
  show "parse_listen_addr '':8081'' = Inr ([], 8081)" by (simp add: parse_listen_addr_def rpartition_colon_def port)
  show "parse_duration_or_seconds [] (Fin False 10) = Inr (Fin False 10)" by (simp add: parse_duration_or_seconds_def py_eval)
  show "\<not> fle_zero (Fin False 10)" by (simp add: fle_zero_def feq_zero_def)
qed

lemma load_live:
  assumes "trimmed serial" "serial \<noteq> []"
  shows "load dir is_file (live_environ serial) = Inr
    \<lparr>pc_mode = ''live'', pc_inverter_ip = ''10.0.0.7'', pc_inverter_serial = serial, pc_inverter_port = 8899,
     pc_socket_timeout = Fin False 10, pc_listen_host = [], pc_listen_port = 8081, pc_mock_fixtures = DEFAULT_FIXTURES dir\<rparr>"
proof -
  have strip: "py_strip serial = serial" "py_strip ''live'' = ''live''" "py_strip ''10.0.0.7'' = ''10.0.0.7''" "py_strip '':8081'' = '':8081''" "py_strip [] = []"
    using trimmed_id(1) [OF assms(1)] by (simp_all add: trimmed_id trimmed_def visible_def)
  show ?thesis
    using assms(2) by (simp add: load_def live_environ_def env_get_def strip default_address py_lower_ascii lower_char_def)
qed

lemma load_mock:
  "load dir (\<lambda>_. True) (mock_environ interval password) = Inr
    \<lparr>pc_mode = ''mock'', pc_inverter_ip = [], pc_inverter_serial = [], pc_inverter_port = 8899,
     pc_socket_timeout = Fin False 10, pc_listen_host = [], pc_listen_port = 8081, pc_mock_fixtures = DEFAULT_FIXTURES dir\<rparr>"
proof -
  have strip: "py_strip ''Mock'' = ''Mock''" "py_strip '':8081'' = '':8081''" "py_strip [] = []"
    by (simp_all add: trimmed_id trimmed_def visible_def)
  have lower: "py_lower ''Mock'' = ''mock''" by code_simp
  have "DEFAULT_FIXTURES dir \<noteq> []" by (simp add: DEFAULT_FIXTURES_def)
  then show ?thesis by (simp add: load_def mock_environ_def env_get_def strip default_address lower)
qed

section \<open>Properties\<close>

lemma env_get_Getenv: "env_get env key [] = Getenv env key"
  by (simp add: env_get_def Getenv_def)





section \<open>Where the two readings differ\<close>

text \<open>
  A serial that is not a number passes the validation of both processes, and the sidecar then ends with an
  exception nothing catches.
\<close>

lemma serial_not_validated:
  "\<not> isl (Load (\<lambda>_. None) (live_environ ''SN-12'')) \<and> \<not> isl (load ''/fixtures'' (\<lambda>_. True) (live_environ ''SN-12'')) \<and>
   sidecar_main quiet_world (live_environ ''SN-12'') = ([], Raised (''invalid literal for int() with base 10: '' @ py_repr ''SN-12''))"
proof (intro conjI)
  let ?e = "live_environ ''SN-12''"
  have "ToLower ''live'' = ''live''" by code_simp
  then have mode: "mode_errs (ToLower (getEnv ?e ''MODE'' ''live'')) (Getenv ?e ''INVERTER_IP'') (Getenv ?e ''INVERTER_SERIAL'')
      (Getenv ?e ''MQTT_BROKER_URL'') = []"
    by (simp add: mode_errs_Nil getEnv_def Getenv_def live_environ_def)
  have "objectIDPrefixPattern DefaultObjectIDPrefix" by code_simp
  then have prefix: "objectIDPrefixPattern (getEnv ?e ''HA_OBJECT_ID_PREFIX'' DefaultObjectIDPrefix)"
    by (simp add: getEnv_def Getenv_def live_environ_def)
  have window: "is_ok (ParseToUWindow defaultToUWindow)" by code_simp
  have unset: "?e ''TOU_WINDOW'' = None" "?e ''INVERTER_PORT'' = None" "?e ''INVERTER_SOCKET_TIMEOUT'' = None"
    "?e ''SIDECAR_STARTUP_TIMEOUT'' = None" "?e ''POLL_INTERVAL'' = None" "?e ''POLL_MAX_RETRIES'' = None" "?e ''FAILURE_THRESHOLD'' = None"
    "?e ''CONTROLS_ENABLED'' = None" "?e ''RTC_SYNC_ENABLED'' = None" "?e ''RTC_DRIFT_THRESHOLD'' = None"
    by (simp_all add: live_environ_def)
  note readers = reader_unset [where env = ?e]
  have "\<exists>c. Load (\<lambda>_. None) ?e = Inr c"
    using Load_accepts [OF mode refl prefix readers(1) [OF unset(2)] _ readers(4) [OF unset(3)] _ readers(3) [OF unset(4)] _
      readers(3) [OF unset(5)] _ readers(1) [OF unset(6)] _ readers(1) [OF unset(7)] _ readers(2) [OF unset(8)] _ window
      readers(2) [OF unset(9)] readers(3) [OF unset(10)]]
    by (auto simp: unset(1) Second_def MinPollInterval_def)
  then show "\<not> isl (Load (\<lambda>_. None) ?e)" by auto
  have load: "load ''/fixtures'' (\<lambda>_. True) ?e = Inr
    \<lparr>pc_mode = ''live'', pc_inverter_ip = ''10.0.0.7'', pc_inverter_serial = ''SN-12'', pc_inverter_port = 8899,
     pc_socket_timeout = Fin False 10, pc_listen_host = [], pc_listen_port = 8081, pc_mock_fixtures = DEFAULT_FIXTURES ''/fixtures''\<rparr>"
    by (rule load_live) (simp_all add: trimmed_def visible_def)
  then show "\<not> isl (load ''/fixtures'' (\<lambda>_. True) ?e)" by simp
  have "py_int ''SN-12'' = Inl (''invalid literal for int() with base 10: '' @ py_repr ''SN-12'')" by (simp add: py_int_def py_eval)
  then show "sidecar_main quiet_world ?e = ([], Raised (''invalid literal for int() with base 10: '' @ py_repr ''SN-12''))"
    by (simp add: sidecar_main_def quiet_world_def load build_transport_def LiveTransport_init_def)
qed

text \<open>The durations of Go that Python refuses, and the other way round.\<close>

lemma durations_diverge:
  "ParseDuration ''.5s'' = Inr (500 * Millisecond)" "ParseDuration ''5.s'' = Inr (5 * Second)" "ParseDuration ''+5s'' = Inr (5 * Second)"
  "list_all (\<lambda>v. isl (parse_duration_or_seconds v (Fin False 10))) [''.5s'', ''5.s'', ''+5s'']"
  "isl (Atoi ''2.5'')" "isl (ParseDuration ''2.5'')" "parse_duration_or_seconds ''2.5'' (Fin False 10) = Inr (fl False (25 / 10))"
  "parse_duration_or_seconds ''nan'' (Fin False 10) = Inr NaN" "\<not> fle_zero NaN"
proof -
  note float = py_float_def py_decimal_def mantissa_def ascii_lower_eq_def decimal_value_def digits_value_def py_eval
  have F: "isl (py_float ''.5s'')" "isl (py_float ''5.s'')" "isl (py_float ''+5s'')" "py_float ''nan'' = Inr NaN" "py_float ''2.5'' = Inr (fl False (25 / 10))"
    by (simp_all add: float)
  have M: "GO_DURATION_RE ''.5s'' = None" "GO_DURATION_RE ''5.s'' = None" "GO_DURATION_RE ''+5s'' = None"
    by (simp_all add: GO_DURATION_RE_def mantissa_def py_eval match_unit_def GO_DURATION_UNITS_def List.map_filter_def)
  show "list_all (\<lambda>v. isl (parse_duration_or_seconds v (Fin False 10))) [''.5s'', ''5.s'', ''+5s'']"
    using F M by (auto simp: parse_duration_or_seconds_def py_eval duration_matches.simps isl_def)
  show "parse_duration_or_seconds ''2.5'' (Fin False 10) = Inr (fl False (25 / 10))" "parse_duration_or_seconds ''nan'' (Fin False 10) = Inr NaN"
    using F by (simp_all add: parse_duration_or_seconds_def py_eval)
  show "\<not> fle_zero NaN" by (simp add: fle_zero_def feq_zero_def)
qed code_simp+

end
