(* ===== verification/Spec2Isabelle.thy ===== *)
theory Spec2Isabelle
  imports Page Mutex Threads Commands SidecarConfig
begin

text \<open>
  A verification of the Solis inverter manager: a service that polls a hybrid inverter through a local
  HTTP sidecar, publishes what it reads to Home Assistant over MQTT, and writes back a small set of
  controls - two currents, the Optimal Income switch, a boost and the clock - and a Time-of-Use schedule.

  \<^bold>\<open>The parts and how they interact.\<close> The scheduler (\<open>internal/scheduler\<close>) polls: it reads input and holding
  registers through the sidecar client (\<open>internal/sidecarclient\<close>), decodes them (\<open>internal/inverter\<close>,
  \<open>internal/publisher/collect.go\<close>, \<open>internal/controls/setpoints.go\<close>), publishes the state document
  (\<open>internal/homeassistant\<close>, \<open>internal/publisher\<close>), reports the outcome to the status server
  (\<open>internal/server\<close>), sets the clock when it drifted and reconciles the schedule
  (\<open>internal/controls/reconcile.go\<close>, \<open>internal/schedule\<close>). Commands from the broker reach the command
  handler (\<open>internal/controls/handler.go\<close>). Every write goes through the read-before-write guard
  (\<open>internal/controls/guard.go\<close>), because the registers are flash. \<open>internal/cmd/serve.go\<close> builds these
  parts from the configuration (\<open>internal/config\<close>) and runs them next to the goroutines of the MQTT
  client (\<open>internal/mqtt\<close>).

  \<^bold>\<open>The theories.\<close>
  \<^item> \<open>Prelude\<close>, \<open>GoStrings\<close>, \<open>GoTime\<close>, \<open>GoDuration\<close>, \<open>GoFloat\<close>, \<open>GoParse\<close>: errors as values, \<open>int64\<close>
    wrap-around, and the parts of Go's library the code uses - text, civil time, durations, IEEE binary64
    over the rationals with its rounding, and the parsers of the environment.
  \<^item> \<open>Registers\<close>, \<open>Blocks\<close>, \<open>Bitfields\<close>, \<open>TimedSlots\<close>, \<open>Rtc\<close>, \<open>Amps\<close>, \<open>Telemetry\<close>: \<open>internal/inverter\<close> and
    \<open>collect.go\<close>. A snapshot is a list of blocks of 16-bit words; a \<open>bank\<close> is a total map from addresses to
    words, and the decoders are shown to read it. \<open>TimedSlots\<close> has the order of the eight writes of a slot.
  \<^item> \<open>Schedule\<close>: \<open>internal/schedule\<close>, the tariff slots, the planning of a boost and the select options.
  \<^item> \<open>Guard\<close>, \<open>Handler\<close>, \<open>Reconcile\<close>: \<open>internal/controls\<close>. The bus is the record \<open>HoldingReadWriter\<close> of
    world-passing functions. What a bus promises is a chain of locales: \<open>holding_bus\<close> (reads tell the
    truth, a write changes its register at most), \<open>faithful_bus\<close> (a write that was counted was carried
    out) and \<open>live_bus\<close> (calls succeed). \<open>wear\<close> is the list of write frames the inverter has executed.
  \<^item> \<open>Sidecar\<close>, \<open>LiveTransport\<close>, \<open>Startup\<close>: the Go client, the error taxonomy, and the request handlers and
    the two transports of the Python sidecar. A list of fates decides of each request whether it is
    answered, never arrives, or is carried out and its reply lost. What a transport promises is the locale
    \<open>register_transport\<close>; over any such transport the client is a \<open>faithful_bus\<close>. It is interpreted on the
    mock, and on the live transport over any library that satisfies \<open>solarman\<close> (\<open>solarman_up\<close> while the
    datalogger answers). \<open>Startup\<close> has the health probe and the startup wait, a loop that need not end, as a
    partial function.
  \<^item> \<open>Server\<close>, \<open>Page\<close>: the readiness state machine, the status page's view, its template with the escaping of
    \<open>html/template\<close>, and the routes under the rules of \<open>ServeMux\<close>.
  \<^item> \<open>HomeAssistant\<close>, \<open>Publisher\<close>, \<open>Mqtt\<close>: the entity catalogue, discovery and state documents as JSON
    values; the publish sequences over a broker, whose contract is the locale \<open>broker\<close>; and the client's
    hooks over a connection manager.
  \<^item> \<open>Scheduler\<close>, \<open>Manager\<close>: the poll loop, and the objects \<open>runServe\<close> builds, on a \<open>world\<close> that holds the
    cache, the freshness mark, the status server and the outside. The locale \<open>plant\<close> is what the manager
    relies on outside; \<open>manager_step\<close> is one serialised cycle of the running manager.
  \<^item> \<open>MockSystem\<close>: the manager over the mock sidecar and the recording broker, an instance of \<open>plant\<close>, and
    the properties of the whole manager.
  \<^item> \<open>Mutex\<close>, \<open>Simulation\<close>, \<open>Preempt\<close>: the two locks. \<open>Mutex\<close> has the mutex of \<open>controls.Locking\<close> with goroutines
    whose calls take several steps. \<open>Preempt\<close> has the goroutines that contend for the scheduler's \<open>apiMu\<close>
    and are preempted between any two calls: a cycle stops by running in an environment that has stopped
    answering, and \<open>Simulation\<close> (locales \<open>simulation\<close>, \<open>bus_simulation\<close>, \<open>env_simulation\<close>) relates a cycle in
    such an environment to the same cycle in the real one.
  \<^item> \<open>Lifecycle\<close>: the republish pass, the teardown and the exits, and the step relation \<open>process_step\<close> that
    interleaves the main goroutine with the hooks, the scheduler and the broker's deliveries.
  \<^item> \<open>ReadOnly\<close>: which threads of the process write, over the locale \<open>process_plant\<close>.
  \<^item> \<open>Config\<close>, \<open>Setup\<close>, \<open>Serve\<close>: loading, validation and the redacted renderings of the configuration; the
    constructors with their options and the log line of a guarded write; and \<open>runServe\<close> from the
    environment variables to the running parts, with its early returns, the logger, the whole run of a
    process without a broker and the exit code.
  \<^item> \<open>Deployment\<close>, \<open>Threads\<close>: the startup and the threads together, a process with a broker from its environment
    on. \<open>Threads\<close> has all its goroutines in one relation, \<open>threads_step\<close>: the hooks and the teardown of
    \<open>Lifecycle\<close> among cycles cut anywhere. It refines the relation of \<open>Preempt\<close>, and the relation of \<open>Lifecycle\<close>
    is the part of it in which every cycle runs whole.
  \<^item> \<open>Commands\<close>: the command line in front of it (\<open>internal/cmd/root.go\<close>, \<open>cmd/main.go\<close>) with the \<open>.env\<close> file.
  \<^item> \<open>SidecarConfig\<close>: the configuration and the entry point of the Python sidecar, with what Python reads as an
    integer, a float and a duration, against the Go configuration of the same environment.

  \<^bold>\<open>What is shown.\<close>
  \<^item> Safety of the writes: no state of the manager has a slot with both directions set, in the middle of a
    poll or a command either; a message changes nothing but the command registers, a current only up to
    62.5 A; a guard sends at most one frame and none for a value already there; a poll whose setpoints are
    stale writes nothing but the clock; a process whose environment turns the controls off writes nothing
    at all, and after the scheduler has drained only a command does.
  \<^item> Concurrency: the wrapper's mutex makes its calls atomic, \<open>apiMu\<close> makes polls and commands atomic, and
    neither is held for ever; a teardown that finds \<open>apiMu\<close> contended still comes to its end, and a poll is in
    flight only until the scheduler has drained.
  \<^item> Function and progress: a reconcile without error leaves exactly the asserted schedule and the next one
    does nothing; a boost command over a live bus is programmed; one poll against a mock that answers makes
    the manager ready with the state published and the schedule in place.
  \<^item> Refinement: the poll reads what the register table says of a bank; \<open>PlanBoost\<close> finds a slot exactly
    when one that satisfies the boost contract exists; the client over the mock and over the live transport
    is a faithful bus, with the failures of the library as their sentinels, and recovers with the datalogger.
  \<^item> Round trips: slots, clock, currents, tariff and select options, each through its registers or text.
  \<^item> Documents: the state document of any bank marshals; its members and the entities match; discovery
    topics are apart; the announced commands are the routed ones with options the handler accepts; no
    value can add markup to the status page.
  \<^item> Lifecycle: readiness and the page as functions of the history; the retry schedule; a republish pass
    restores a session and is idempotent; the shutdown cannot get stuck and nothing runs after it - but it
    can leave the availability at online (\<open>offline_overtaken\<close>). Configuration: what loads is valid, no
    rendering depends on a secret, and the startup has exactly three outcomes; a run without a broker ends
    with the exit code of its cause, whatever the arguments. The two processes read one environment alike
    where both accept it, and a sidecar that serves was configured for its mode and is closed last.

  \<^bold>\<open>Parameters, bounds and fuel.\<close> A world type stands for everything outside; a bus, a broker, a connection
  manager, a deadline and the Modbus library enter with the laws of their locales, each discharged for the
  mock sidecar, the recording publisher or a simulated datalogger. \<open>conv\<close> is the conversion of an out-of-range float to \<open>uint16\<close>, which Go leaves to the
  machine, \<open>num\<close> the literal of a float in JSON, \<open>parse\<close> the error of \<open>url.Parse\<close>, a \<open>location\<close> the time
  zone. The retry theorem assumes at most 33 retries: from the 34th on the doubled backoff leaves the range
  of a \<open>Duration\<close>. The only fuel is the length of a text in \<open>TrimSpace\<close>, which each removal shortens.

  \<^bold>\<open>Atomicity.\<close> A bus call is one step in every theory but \<open>Mutex\<close>, whose theorem \<open>locking_serialises\<close> justifies
  it; a poll and a command are one step each in \<open>Manager\<close>, \<open>MockSystem\<close>, \<open>Lifecycle\<close> and \<open>ReadOnly\<close>, which
  \<open>cycles_serialise\<close> of \<open>Preempt\<close> justifies for the states in which the lock is free. \<open>Threads\<close> has every call a
  step, and what it shows of the writes holds in the middle of a cycle too; the calls of a
  republish pass interleave with everything else there and in \<open>Lifecycle\<close>.

  \<^bold>\<open>Not modelled.\<close> Log lines other than that of a guarded write and those of the sidecar's start; the bytes of
  JSON and HTTP, and percent-escapes in a request path; the libraries behind the MQTT client, the command
  line and the \<open>.env\<close> file, which are parameters with their documented laws; the listener of the health
  server beyond the error it ends with; the escapes of a quoted text in an error. None of these takes a
  decision of the program. Contexts appear through the error they have and the waits they end;
  cancellation inside a bus call is one of its failures. The Go memory model is not modelled: a step is
  atomic, and where the code shares a variable without synchronisation (\<open>sched\<close> in \<open>serve.go\<close>) the
  interleavings of \<open>Lifecycle\<close> show what a hook can see.
\<close>

section \<open>Properties that span components\<close>

lemma command_entities:
  "map (\<lambda>e. (Component e, Entity_Key e, Options e, Entity_Min e, Entity_Max e)) (filter Command Entities) =
     [(Number, keySetChargeCurrent, [], haChargeAmpsMin, haChargeAmpsMax),
      (Number, keySetDischargeCurrent, [], haChargeAmpsMin, haChargeAmpsMax),
      (Select, keyOptimalIncome, [''Run'', ''Stop''], f0, f0),
      (Select, keyBoostSelect, BoostOptions, f0, f0),
      (Button, keyRTCSync, [], f0, f0)]"
  by (simp add: Entities_def Entity_zero_def keySetChargeCurrent_def keySetDischargeCurrent_def keyOptimalIncome_def
      keyBoostSelect_def keyRTCSync_def haChargeAmpsMin_def haChargeAmpsMax_def)

lemma command_topic_key:
  "key \<noteq> [] \<Longrightarrow> CHR ''/'' \<notin> set key \<Longrightarrow> commandKey (BaseTopic c @ ''/'' @ key @ ''/set'') = Some key"
  by (auto simp: commandKey_Some_iff)


end
